(* ===== verification/Prelude.thy ===== *)
theory Prelude
  imports Main "HOL-Library.Word" "HOL-Library.Monad_Syntax"
begin

text \<open>
  Shared vocabulary of the development: machine integers, errno values, little-endian byte
  access as the driver performs it on a little-endian host, mutex states, and the masks and
  ring arithmetic that every queue of the driver uses.  The collections declared here
  (\<open>mask_simps\<close>, \<open>byte_simps\<close>, \<open>mem_simps\<close>) carry the component proofs.
\<close>

unbundle bit_operations_syntax

named_theorems mask_simps "constant masks as bit truncation"
named_theorems byte_simps "little-endian byte access"
named_theorems mem_simps "reads over writes in byte buffers"

type_synonym u8 = "8 word"
type_synonym u16 = "16 word"
type_synonym u32 = "32 word"
type_synonym u64 = "64 word"

text \<open>The FreeBSD errno values the sources name (\<open>sys/errno.h\<close>).\<close>

abbreviation (input) EPERM :: int where "EPERM \<equiv> 1"
abbreviation (input) ENOENT :: int where "ENOENT \<equiv> 2"
abbreviation (input) EINTR :: int where "EINTR \<equiv> 4"
abbreviation (input) EIO :: int where "EIO \<equiv> 5"
abbreviation (input) ENXIO :: int where "ENXIO \<equiv> 6"
abbreviation (input) ENOMEM :: int where "ENOMEM \<equiv> 12"
abbreviation (input) EACCES :: int where "EACCES \<equiv> 13"
abbreviation (input) EBUSY :: int where "EBUSY \<equiv> 16"
abbreviation (input) EINVAL :: int where "EINVAL \<equiv> 22"
abbreviation (input) ENOTTY :: int where "ENOTTY \<equiv> 25"
abbreviation (input) EAGAIN :: int where "EAGAIN \<equiv> 35"
abbreviation (input) EOPNOTSUPP :: int where "EOPNOTSUPP \<equiv> 45"
abbreviation (input) ETIMEDOUT :: int where "ETIMEDOUT \<equiv> 60"
abbreviation (input) ENOSYS :: int where "ENOSYS \<equiv> 78"
abbreviation (input) EPROTO :: int where "EPROTO \<equiv> 92"

section \<open>Masks\<close>

lemma mask_literals:
  "(0xf :: 'a::semiring_bit_operations) = mask 4"
  "(0xff :: 'a) = mask 8"
  "(0x1ff :: 'a) = mask 9"
  "(0x3ff :: 'a) = mask 10"
  "(0x3fff :: 'a) = mask 14"
  "(0x7f :: 'a) = mask 7"
  "(0x7fff :: 'a) = mask 15"
  "(0xffff :: 'a) = mask 16"
  "(0xffffffff :: 'a) = mask 32"
  by (simp_all add: mask_numeral)

lemma and_literal [mask_simps]:
  fixes x :: "'a::semiring_bit_operations"
  shows "x AND 0xf = take_bit 4 x" "x AND 0xff = take_bit 8 x" "x AND 0x1ff = take_bit 9 x"
    "x AND 0x3ff = take_bit 10 x" "x AND 0x3fff = take_bit 14 x" "x AND 0x7f = take_bit 7 x"
    "x AND 0x7fff = take_bit 15 x" "x AND 0xffff = take_bit 16 x"
    "x AND 0xffffffff = take_bit 32 x"
  by (simp_all only: mask_literals take_bit_eq_mask)

lemma and_one [mask_simps]: "(x :: 'a::semiring_bit_operations) AND 1 = take_bit 1 x"
  by (simp add: take_bit_eq_mask)

text \<open>The ring step \<open>(i + 1) & (SIZE - 1)\<close> of a 512-entry ring.\<close>

lemma and_511 [mask_simps]: "((i::nat) AND 511) = i mod 512"
  by (simp add: and_literal take_bit_eq_mod)

section \<open>Little-endian bytes\<close>

definition byte_of :: "nat \<Rightarrow> 'a::len word \<Rightarrow> u8" where
  "byte_of k v = ucast (drop_bit (8 * k) v)"

definition le16 :: "u8 \<Rightarrow> u8 \<Rightarrow> u16" where
  "le16 b0 b1 = ucast b0 OR push_bit 8 (ucast b1)"

definition le32 :: "u8 \<Rightarrow> u8 \<Rightarrow> u8 \<Rightarrow> u8 \<Rightarrow> u32" where
  "le32 b0 b1 b2 b3 =
     ucast b0 OR push_bit 8 (ucast b1) OR push_bit 16 (ucast b2) OR push_bit 24 (ucast b3)"

lemma bit_u8_out [simp]: "8 \<le> n \<Longrightarrow> \<not> bit (b :: u8) n"
  using bit_imp_le_length [of b n] by auto

lemma le32_bytes [byte_simps]:
  "le32 (byte_of 0 v) (byte_of (Suc 0) v) (byte_of 2 v) (byte_of 3 v) = v"
proof (rule bit_word_eqI)
  fix n assume "n < LENGTH(32)"
  then consider "n < 8" | "8 \<le> n" "n < 16" | "16 \<le> n" "n < 24" | "24 \<le> n" "n < 32"
    by fastforce
  then show "bit (le32 (byte_of 0 v) (byte_of (Suc 0) v) (byte_of 2 v) (byte_of 3 v)) n = bit v n"
    by cases (auto simp: le32_def byte_of_def bit_simps)
qed

lemma byte_of_le32 [byte_simps]:
  "byte_of 0 (le32 a b c d) = a" "byte_of (Suc 0) (le32 a b c d) = b"
  "byte_of 2 (le32 a b c d) = c" "byte_of 3 (le32 a b c d) = d"
  "byte_of (Suc (Suc 0)) (le32 a b c d) = c" "byte_of (Suc (Suc (Suc 0))) (le32 a b c d) = d"
  by (rule bit_word_eqI, auto simp: le32_def byte_of_def bit_simps)+

text \<open>Stack buffers \<open>uint8_t buf[N]\<close>: a dword read at a byte offset, a dword store
  (\<open>*(uint32_t *)(buf + off) = v\<close>, or \<open>memcpy\<close> of a \<open>uint32_t\<close>), a 64-bit store and a byte copy.\<close>

definition get32 :: "nat \<Rightarrow> u8 list \<Rightarrow> u32" where
  "get32 off xs = le32 (xs ! off) (xs ! (off + 1)) (xs ! (off + 2)) (xs ! (off + 3))"

definition put32 :: "nat \<Rightarrow> u32 \<Rightarrow> u8 list \<Rightarrow> u8 list" where
  "put32 off v xs =
     xs[off := byte_of 0 v, off + 1 := byte_of 1 v, off + 2 := byte_of 2 v, off + 3 := byte_of 3 v]"

definition put64 :: "nat \<Rightarrow> u64 \<Rightarrow> u8 list \<Rightarrow> u8 list" where
  "put64 off v xs = put32 (off + 4) (ucast (drop_bit 32 v)) (put32 off (ucast v) xs)"

primrec put_bytes :: "nat \<Rightarrow> u8 list \<Rightarrow> u8 list \<Rightarrow> u8 list" where
  "put_bytes off [] xs = xs"
| "put_bytes off (b # bs) xs = put_bytes (off + 1) bs (xs[off := b])"

lemma length_put32 [simp]: "length (put32 off v xs) = length xs"
  by (simp add: put32_def)

lemma length_put64 [simp]: "length (put64 off v xs) = length xs"
  by (simp add: put64_def)

lemma length_put_bytes [simp]: "length (put_bytes off bs xs) = length xs"
  by (induction bs arbitrary: off xs) auto

lemma get32_put32_same [mem_simps]:
  "off + 4 \<le> length xs \<Longrightarrow> get32 off (put32 off v xs) = v"
  by (simp add: get32_def put32_def nth_list_update byte_simps)

lemma get32_put32_other [mem_simps]:
  "off + 4 \<le> off' \<or> off' + 4 \<le> off \<Longrightarrow> get32 off (put32 off' v xs) = get32 off xs"
  by (auto simp: get32_def put32_def nth_list_update)

lemma nth_put_bytes_out [mem_simps]:
  "i < off \<or> off + length bs \<le> i \<Longrightarrow> put_bytes off bs xs ! i = xs ! i"
  by (induction bs arbitrary: off xs) (auto simp: nth_list_update)

lemma nth_put_bytes_in:
  "off \<le> i \<Longrightarrow> i < off + length bs \<Longrightarrow> i < length xs \<Longrightarrow> put_bytes off bs xs ! i = bs ! (i - off)"
proof (induction bs arbitrary: off xs)
  case (Cons b bs)
  show ?case
  proof (cases "i = off")
    case True
    with Cons.prems show ?thesis by (simp add: nth_put_bytes_out)
  next
    case False
    with Cons.prems Cons.IH [of "off + 1" "xs[off := b]"] show ?thesis
      by (simp add: nth_Cons')
  qed
qed simp

lemma get32_put_bytes_other [mem_simps]:
  "off + 4 \<le> off' \<or> off' + length bs \<le> off \<Longrightarrow> get32 off (put_bytes off' bs xs) = get32 off xs"
  by (auto simp: get32_def nth_put_bytes_out)

section \<open>Mutexes\<close>

text \<open>
  A default (non-recursive) kernel mutex.  Locking a mutex that is not free, unlocking one that
  is not owned, and destroying one that is owned or absent are panics: \<open>None\<close>.  Every handler of
  the model threads its mutex through these operations, so that a path that leaks a lock, or
  takes one twice, or uses one before \<open>mtx_init\<close>, is visible in its result.
\<close>

datatype mtx = MtxAbsent | MtxFree | MtxOwned

fun mtx_lock :: "mtx \<Rightarrow> mtx option" where
  "mtx_lock MtxFree = Some MtxOwned"
| "mtx_lock m = None"

fun mtx_unlock :: "mtx \<Rightarrow> mtx option" where
  "mtx_unlock MtxOwned = Some MtxFree"
| "mtx_unlock m = None"

fun mtx_init :: "mtx \<Rightarrow> mtx option" where
  "mtx_init MtxAbsent = Some MtxFree"
| "mtx_init m = None"

fun mtx_destroy :: "mtx \<Rightarrow> mtx option" where
  "mtx_destroy MtxFree = Some MtxAbsent"
| "mtx_destroy m = None"

text \<open>A C \<open>assert\<close>-like check whose failure is a panic.\<close>

definition kassert :: "bool \<Rightarrow> unit option" where
  "kassert b = (if b then Some () else None)"

lemma kassert_True [simp]: "kassert True = Some ()"
  by (simp add: kassert_def)

lemma kassert_Some [simp]: "kassert b = Some u \<longleftrightarrow> b"
  by (simp add: kassert_def)

section \<open>Ring indices\<close>

text \<open>
  Every ring of the driver has a power-of-two size and steps its index with a mask.  The
  interface: a size, a step, and that the step is the mask of the successor.
\<close>

locale ring =
  fixes size_of :: nat and step :: "nat \<Rightarrow> nat"
  assumes size_pos: "0 < size_of"
    and step_mod: "step i = (i + 1) mod size_of"
begin

lemma step_bound [simp]: "step i < size_of"
  by (simp add: step_mod size_pos)

lemma step_iterate: "(step ^^ n) i mod size_of = (i + n) mod size_of"
proof (induction n)
  case (Suc n)
  have "step ((step ^^ n) i) mod size_of = ((step ^^ n) i mod size_of + 1) mod size_of"
    by (simp add: step_mod mod_Suc_eq)
  also have "\<dots> = (i + Suc n) mod size_of"
    by (simp only: Suc.IH) (simp add: mod_Suc_eq)
  finally show ?case by simp
qed simp

lemma step_iterate_bound: "i < size_of \<Longrightarrow> (step ^^ n) i = (i + n) mod size_of"
  using step_iterate [of n i] by (cases n) simp_all

lemma step_cycle: "i < size_of \<Longrightarrow> (step ^^ size_of) i = i"
  by (simp add: step_iterate_bound)

lemma step_inj: "i < size_of \<Longrightarrow> j < size_of \<Longrightarrow> step i = step j \<Longrightarrow> i = j"
  by (auto simp: step_mod mod_Suc split: if_splits)

lemma visits_distinct:
  assumes "m < size_of" "n < size_of" "(i + m) mod size_of = (i + n) mod size_of"
  shows "m = n"
proof -
  have "int size_of dvd int m - int n"
    using assms(3) by (metis add_diff_cancel_left mod_eq_dvd_iff of_nat_add of_nat_mod)
  then have "int m - int n = 0"
    using assms(1,2) zdvd_not_zless [of "\<bar>int m - int n\<bar>" "int size_of"] by fastforce
  then show ?thesis by simp
qed

end

end
