(* ===== verification/Cheri.thy ===== *)
theory Cheri
  imports Prelude
begin

text \<open>
  The CHERI C capability intrinsics the sources use.  A capability carries a validity tag,
  bounds, an address, permissions and an object type; object type \<open>0\<close> is "unsealed".  The
  non-trapping sealing instructions of Morello clear the tag of the result when a check fails.
  The interface \<open>sealing\<close> states what the token protocol of \<open>capio.c\<close> needs of them.
\<close>

datatype perm = PERM_LOAD | PERM_STORE | PERM_SEAL | PERM_UNSEAL

record cap =
  cap_tag :: bool
  cap_base :: nat
  cap_len :: nat
  cap_addr :: nat
  cap_perms :: "perm set"
  cap_otype :: nat

definition null_cap :: cap where
  "null_cap = \<lparr>cap_tag = False, cap_base = 0, cap_len = 0, cap_addr = 0, cap_perms = {}, cap_otype = 0\<rparr>"

text \<open>\<open>p == NULL\<close> compares addresses; \<open>cheri_ptr_equal_exact\<close> compares every bit and the tag.\<close>

definition is_null :: "cap \<Rightarrow> bool" where
  "is_null c \<longleftrightarrow> cap_addr c = 0"

definition cheri_ptr_equal_exact :: "cap \<Rightarrow> cap \<Rightarrow> bool" where
  "cheri_ptr_equal_exact a b \<longleftrightarrow> a = b"

definition cheri_setaddress :: "cap \<Rightarrow> nat \<Rightarrow> cap" where
  "cheri_setaddress c a = c\<lparr>cap_addr := a, cap_tag := cap_tag c \<and> cap_otype c = 0\<rparr>"

definition cheri_setbounds :: "cap \<Rightarrow> nat \<Rightarrow> cap" where
  "cheri_setbounds c n =
     c\<lparr>cap_base := cap_addr c, cap_len := n,
       cap_tag := cap_tag c \<and> cap_otype c = 0 \<and> cap_base c \<le> cap_addr c
                  \<and> cap_addr c + n \<le> cap_base c + cap_len c\<rparr>"

definition in_bounds :: "cap \<Rightarrow> bool" where
  "in_bounds k \<longleftrightarrow> cap_base k \<le> cap_addr k \<and> cap_addr k < cap_base k + cap_len k"

definition can_seal :: "cap \<Rightarrow> bool" where
  "can_seal k \<longleftrightarrow> cap_tag k \<and> cap_otype k = 0 \<and> PERM_SEAL \<in> cap_perms k \<and> in_bounds k \<and> cap_addr k \<noteq> 0"

definition can_unseal :: "cap \<Rightarrow> bool" where
  "can_unseal k \<longleftrightarrow> cap_tag k \<and> cap_otype k = 0 \<and> PERM_UNSEAL \<in> cap_perms k \<and> in_bounds k \<and> cap_addr k \<noteq> 0"

definition cheri_seal :: "cap \<Rightarrow> cap \<Rightarrow> cap" where
  "cheri_seal c k =
     (if cap_tag c \<and> cap_otype c = 0 \<and> can_seal k then c\<lparr>cap_otype := cap_addr k\<rparr>
      else c\<lparr>cap_tag := False\<rparr>)"

definition cheri_unseal :: "cap \<Rightarrow> cap \<Rightarrow> cap" where
  "cheri_unseal c k =
     (if cap_tag c \<and> can_unseal k \<and> cap_otype c = cap_addr k then c\<lparr>cap_otype := 0\<rparr>
      else c\<lparr>cap_tag := False\<rparr>)"

text \<open>A sealing key can both seal and unseal at its address; a token source is a valid,
  unsealed capability.\<close>

definition sealing_key_ok :: "cap \<Rightarrow> bool" where
  "sealing_key_ok k \<longleftrightarrow> can_seal k \<and> can_unseal k"

definition sealable :: "cap \<Rightarrow> bool" where
  "sealable c \<longleftrightarrow> cap_tag c \<and> cap_otype c = 0"

locale sealing =
  fixes seal :: "cap \<Rightarrow> cap \<Rightarrow> cap" and unseal :: "cap \<Rightarrow> cap \<Rightarrow> cap"
    and key_ok :: "cap \<Rightarrow> bool" and source_ok :: "cap \<Rightarrow> bool"
  assumes unseal_seal: "key_ok k \<Longrightarrow> source_ok c \<Longrightarrow> unseal (seal c k) k = c"
    and seal_unseal: "key_ok k \<Longrightarrow> source_ok (unseal t k) \<Longrightarrow> t = seal (unseal t k) k"
    and unseal_source: "unseal t k = c \<Longrightarrow> cap_tag c \<Longrightarrow> source_ok c"
    and seal_keeps_null: "is_null (seal c k) = is_null c"
    and seal_not_source: "source_ok c \<Longrightarrow> \<not> source_ok (seal c k)"
begin

lemma token_unique: "key_ok k \<Longrightarrow> cap_tag c \<Longrightarrow> unseal t k = c \<Longrightarrow> t = seal c k"
  using seal_unseal unseal_source by blast

lemma token_iff:
  "key_ok k \<Longrightarrow> source_ok c \<Longrightarrow> cap_tag c \<Longrightarrow> (unseal t k = c) = (t = seal c k)"
  using token_unique unseal_seal by blast

lemma source_is_no_token: "key_ok k \<Longrightarrow> source_ok c \<Longrightarrow> cap_tag c \<Longrightarrow> unseal c k \<noteq> c"
  using token_unique seal_not_source by metis

end

lemma unseal_tagD:
  assumes "cap_tag (cheri_unseal t k)"
  shows "cap_tag t" "can_unseal k" "cap_otype t = cap_addr k" "cap_otype (cheri_unseal t k) = 0"
  using assms by (auto simp: cheri_unseal_def split: if_splits)

lemma seal_of_unseal:
  assumes "cap_tag (cheri_unseal t k)" "can_seal k"
  shows "t = cheri_seal (cheri_unseal t k) k"
  using unseal_tagD [OF assms(1)] assms(2) by (simp add: cheri_seal_def cheri_unseal_def)

text \<open>The Morello intrinsics implement the interface.\<close>

interpretation morello: sealing cheri_seal cheri_unseal sealing_key_ok sealable
proof (unfold_locales, goal_cases)
  case (1 k c)
  then show ?case
    by (auto simp: sealing_key_ok_def sealable_def cheri_seal_def cheri_unseal_def can_unseal_def)
next
  case (2 t k)
  then show ?case
    by (auto simp: sealable_def sealing_key_ok_def intro: seal_of_unseal split: if_splits)
next
  case (3 t k c)
  then show ?case
    by (auto simp: sealable_def dest: unseal_tagD split: if_splits)
next
  case (4 c k)
  then show ?case by (simp add: cheri_seal_def is_null_def)
next
  case (5 c k)
  then show ?case by (auto simp: sealable_def cheri_seal_def can_seal_def)
qed

end
