(* ===== verification/Kernel.thy ===== *)
theory Kernel
  imports Cheri
begin

text \<open>
  What the driver sees of the world around it: the FreeBSD kernel services it calls, the PCI
  device, the management controller (MC) firmware and the NIC's DMA engine.  None of that code
  is part of the repository, so all of it is one parameter, a record \<open>env\<close> of functions.  Each
  function is given the history of the driver's interactions so far, newest first, so an
  environment can answer differently every time it is asked and can react to everything the
  driver did; a theorem that holds for every \<open>env\<close> holds for every such environment.

  The state part \<open>world\<close> records that history (\<open>io\<close>) and the set of kernel resources the driver
  holds (\<open>kres\<close>).  Giving back a resource that is not held is a panic.
\<close>

datatype dma_id = DMA_EVQ | DMA_DATA_EVQ | DMA_TX_DESC | DMA_RX_DESC | DMA_TX_BUF | DMA_RX_BUF | DMA_MCDI

datatype kres =
    KTag dma_id | KMem dma_id | KMap dma_id
  | KBar2 | KBar4 | KMsix | KIrq | KIntr | KBusMaster | KCdev
  | KHandle nat | KVmObject nat

datatype io =
    RegRead u64
  | RegWrite u64 u32
  | McPrewrite "nat \<Rightarrow> u8"
  | McPostread
  | EvqPostread dma_id
  | EvqZero dma_id nat
  | TxDescStore nat u64
  | RxDescStore nat u64
  | RxBufPostread
  | CopyIn nat nat
  | CopyOut nat nat
  | PciRead
  | Delay nat
  | Call string
  | Grab kres
  | Release kres
  | VmLookup u64
  | VmRemove u64 u64

record env =
  reg_val :: "io list \<Rightarrow> u64 \<Rightarrow> u32"
  mc_mem :: "io list \<Rightarrow> nat \<Rightarrow> u8 option"
  evq_mem :: "io list \<Rightarrow> dma_id \<Rightarrow> nat \<Rightarrow> u64 option"
  rxb_mem :: "io list \<Rightarrow> nat \<Rightarrow> u8 option"
  pci_command :: "io list \<Rightarrow> u16"
  pci_vendor :: u16
  pci_device :: u16
  tag_create :: "io list \<Rightarrow> dma_id \<Rightarrow> int"
  mem_alloc :: "io list \<Rightarrow> dma_id \<Rightarrow> int \<times> u64"
  map_load :: "io list \<Rightarrow> dma_id \<Rightarrow> int \<times> u64 list \<times> int"
  alloc_resource :: "io list \<Rightarrow> kres \<Rightarrow> (u64 \<times> u64) option"
  msix_count :: "io list \<Rightarrow> int"
  alloc_msix :: "io list \<Rightarrow> int \<times> int"
  setup_intr :: "io list \<Rightarrow> int"
  vasprintf_ok :: "io list \<Rightarrow> bool"
  copyin :: "io list \<Rightarrow> cap \<Rightarrow> nat \<Rightarrow> int \<times> nat \<times> (nat \<Rightarrow> u8)"
  copyout :: "io list \<Rightarrow> nat \<Rightarrow> nat \<Rightarrow> int"
  kernel_root_sealcap :: cap
  has_vmspace :: "io list \<Rightarrow> bool"
  vm_map_lookup :: "io list \<Rightarrow> u64 \<Rightarrow> int"
  vm_map_remove :: "io list \<Rightarrow> u64 \<Rightarrow> u64 \<Rightarrow> int"
  pager_allocate :: "io list \<Rightarrow> bool"
  pmap_kextract :: "u64 \<Rightarrow> u64"

text \<open>
  \<open>mc_mem K h i\<close> is \<open>Some b\<close> when the MC has written byte \<open>b\<close> at mailbox offset \<open>i\<close> by the time the
  history is \<open>h\<close>; likewise for event rings and the receive buffer.
\<close>

definition dma_in :: "(nat \<Rightarrow> 'v option) \<Rightarrow> (nat \<Rightarrow> 'v) \<Rightarrow> nat \<Rightarrow> 'v" where
  "dma_in w m i = (case w i of None \<Rightarrow> m i | Some v \<Rightarrow> v)"

record world =
  io :: "io list"
  kres :: "kres set"

definition emit :: "io \<Rightarrow> 'a world_scheme \<Rightarrow> 'a world_scheme" where
  "emit e s = s\<lparr>io := e # io s\<rparr>"

definition grab :: "kres \<Rightarrow> 'a world_scheme \<Rightarrow> 'a world_scheme" where
  "grab r s = (emit (Grab r) s)\<lparr>kres := insert r (kres s)\<rparr>"

definition release :: "kres \<Rightarrow> 'a world_scheme \<Rightarrow> 'a world_scheme option" where
  "release r s = (if r \<in> kres s then Some ((emit (Release r) s)\<lparr>kres := kres s - {r}\<rparr>) else None)"

text \<open>\<open>SFC7120_READ_REG\<close> and \<open>SFC7120_WRITE_REG\<close>: 32-bit accesses at a byte offset of BAR2.\<close>

definition SFC7120_READ_REG :: "env \<Rightarrow> u64 \<Rightarrow> 'a world_scheme \<Rightarrow> u32 \<times> 'a world_scheme" where
  "SFC7120_READ_REG K off s = (reg_val K (io s) off, emit (RegRead off) s)"

definition SFC7120_WRITE_REG :: "u64 \<Rightarrow> u32 \<Rightarrow> 'a world_scheme \<Rightarrow> 'a world_scheme" where
  "SFC7120_WRITE_REG off v s = emit (RegWrite off v) s"

lemma emit_simps [simp]:
  "io (emit e s) = e # io s" "kres (emit e s) = kres s" "world.more (emit e s) = world.more s"
  by (simp_all add: emit_def)

lemma grab_simps [simp]:
  "io (grab r s) = Grab r # io s" "kres (grab r s) = insert r (kres s)"
  "world.more (grab r s) = world.more s"
  by (simp_all add: grab_def emit_def)

lemma WRITE_REG_simps [simp]:
  "io (SFC7120_WRITE_REG off v s) = RegWrite off v # io s"
  "kres (SFC7120_WRITE_REG off v s) = kres s"
  "world.more (SFC7120_WRITE_REG off v s) = world.more s"
  by (simp_all add: SFC7120_WRITE_REG_def)

lemma release_held: "r \<in> kres s \<Longrightarrow> release r s = Some ((emit (Release r) s)\<lparr>kres := kres s - {r}\<rparr>)"
  by (simp add: release_def)

text \<open>Mappings hold a pager handle and a VM object each; everything else belongs to the device.\<close>

fun session_res :: "kres \<Rightarrow> bool" where
  "session_res (KHandle i) = True"
| "session_res (KVmObject i) = True"
| "session_res _ = False"

definition dev_res :: "kres set \<Rightarrow> kres set" where
  "dev_res R = {r \<in> R. \<not> session_res r}"

lemma dev_res_session [simp]:
  "session_res r \<Longrightarrow> dev_res (insert r R) = dev_res R" "session_res r \<Longrightarrow> dev_res (R - {r}) = dev_res R"
  by (auto simp: dev_res_def)

text \<open>The register writes of a history, oldest first.\<close>

fun reg_writes :: "io list \<Rightarrow> (u64 \<times> u32) list" where
  "reg_writes [] = []"
| "reg_writes (RegWrite off v # h) = reg_writes h @ [(off, v)]"
| "reg_writes (_ # h) = reg_writes h"

text \<open>A concrete environment in which every kernel service succeeds, the device is a Solarflare
  7120 that answers \<open>0xeb14face\<close> on every register and never writes memory.  Theorems with
  hypotheses are exercised in it and in variants of it.\<close>

definition quiet_env :: env where
  "quiet_env = \<lparr>
     reg_val = (\<lambda>_ _. 0xeb14face), mc_mem = (\<lambda>_ _. None), evq_mem = (\<lambda>_ _ _. None), rxb_mem = (\<lambda>_ _. None),
     pci_command = (\<lambda>_. 6), pci_vendor = 0x1924, pci_device = 0x0903,
     tag_create = (\<lambda>_ _. 0), mem_alloc = (\<lambda>_ _. (0, 0x10000)), map_load = (\<lambda>_ _. (0, [0x40000000], 0)),
     alloc_resource = (\<lambda>_ _. Some (0, 0x80000000)), msix_count = (\<lambda>_. 1), alloc_msix = (\<lambda>_. (0, 1)),
     setup_intr = (\<lambda>_. 0), vasprintf_ok = (\<lambda>_. True), copyin = (\<lambda>_ _ n. (0, n, \<lambda>_. 0)), copyout = (\<lambda>_ _ _. 0),
     kernel_root_sealcap = \<lparr>cap_tag = True, cap_base = 0x4000, cap_len = 0x4000, cap_addr = 0x4000,
                            cap_perms = {PERM_SEAL, PERM_UNSEAL}, cap_otype = 0\<rparr>,
     has_vmspace = (\<lambda>_. True), vm_map_lookup = (\<lambda>_ _. 0), vm_map_remove = (\<lambda>_ _ _. 0),
     pager_allocate = (\<lambda>_. True), pmap_kextract = (\<lambda>a. a) \<rparr>"

end
