(* ===== verification/Capio.thy ===== *)
theory Capio
  imports Kernel
begin

text \<open>
  The CAPIO framework, \<open>capio.c\<close>: the sealed-capability token a process obtains with
  \<open>CAPIO_ATTACH\<close> and presents on every later call, the table of shared memory regions, the
  \<open>mmap\<close> entry point and the device pager behind it.

  The C code casts the driver's softc to a header \<open>{dev, capio_sc}\<close>; here a driver's state
  extends the record \<open>capio_header\<close>, and the framework's functions are polymorphic in the
  extension.  The driver's callbacks are a record \<open>capio_ops\<close>, and \<open>capio_driver\<close> is the
  contract they must keep.  A capability or lock fault, or any other panic, is \<open>None\<close>.
\<close>

section \<open>Data\<close>

record slice_def =
  slice_offset :: u64
  slice_name :: string
  slice_read_only :: bool
  slice_length :: u64

record shared_mem_region =
  sm_type :: int
  sm_is_physical :: bool
  sm_addr :: u64
  sm_paddr :: u64
  sm_offset :: u64
  sm_len :: u64
  sm_mapped :: bool
  sm_is_sliced :: bool
  sm_slices :: "slice_def list"
  sm_slice_def_len :: nat

record capio_softc =
  sealing_key :: cap
  original_cap :: cap
  sealed_cap :: cap
  cap_mtx :: mtx
  cap_mapped :: bool
  shared_mem_regs :: "shared_mem_region list"

record capio_header = world +
  capio_sc :: capio_softc

record ('r, 'o, 's) capio_ops =
  op_ioctl :: "'r \<Rightarrow> 's \<Rightarrow> (int \<times> 'o \<times> 's) option"
  op_is_dying :: "'s \<Rightarrow> (bool \<times> 's) option"
  op_get_buffer_size :: "int \<Rightarrow> 's \<Rightarrow> (u64 \<times> 's) option"

record cap_req =
  req_user_cap :: cap
  req_sealed_cap :: cap

datatype 'r capio_cmd = CAPIO_ATTACH | CAPIO_GOODBYE | DriverCmd 'r

text \<open>Updates of the embedded \<open>capio_softc\<close>.\<close>

definition capio_upd :: "(capio_softc \<Rightarrow> capio_softc) \<Rightarrow> 'a capio_header_scheme \<Rightarrow> 'a capio_header_scheme" where
  "capio_upd f s = s\<lparr>capio_sc := f (capio_sc s)\<rparr>"

definition CAP_LOCK :: "'a capio_header_scheme \<Rightarrow> 'a capio_header_scheme option" where
  "CAP_LOCK s = do { m \<leftarrow> mtx_lock (cap_mtx (capio_sc s)); Some (capio_upd (cap_mtx_update (\<lambda>_. m)) s) }"

definition CAP_UNLOCK :: "'a capio_header_scheme \<Rightarrow> 'a capio_header_scheme option" where
  "CAP_UNLOCK s = do { m \<leftarrow> mtx_unlock (cap_mtx (capio_sc s)); Some (capio_upd (cap_mtx_update (\<lambda>_. m)) s) }"

text \<open>A C loop over the region table that stops at the first match.\<close>

fun upd_first :: "('a \<Rightarrow> bool) \<Rightarrow> ('a \<Rightarrow> 'a) \<Rightarrow> 'a list \<Rightarrow> 'a list" where
  "upd_first p f [] = []"
| "upd_first p f (x # xs) = (if p x then f x # xs else x # upd_first p f xs)"

section \<open>Callbacks registered with modmap\<close>

definition capio_vaddr_callback ::
  "u64 \<Rightarrow> u64 \<Rightarrow> int \<Rightarrow> 'a capio_header_scheme \<Rightarrow> (int \<times> 'a capio_header_scheme) option" where
  "capio_vaddr_callback vaddr sz map_type s = do {
     s \<leftarrow> CAP_LOCK s;
     let regs = shared_mem_regs (capio_sc s);
     let region_found = list_ex (\<lambda>r. sm_type r = map_type) regs;
     let s = capio_upd (shared_mem_regs_update (\<lambda>_.
               upd_first (\<lambda>r. sm_type r = map_type) (\<lambda>r. r\<lparr>sm_offset := vaddr, sm_len := sz\<rparr>) regs)) s;
     s \<leftarrow> CAP_UNLOCK s;
     Some (if region_found then 0 else EINVAL, s) }"

definition capio_slice_length_callback ::
  "int \<Rightarrow> 'a capio_header_scheme \<Rightarrow> ((u64 \<times> nat) \<times> 'a capio_header_scheme) option" where
  "capio_slice_length_callback map_type s = do {
     s \<leftarrow> CAP_LOCK s;
     let sizes = (case find (\<lambda>r. sm_type r = map_type) (shared_mem_regs (capio_sc s)) of
                    None \<Rightarrow> (0, 0) | Some r \<Rightarrow> (sm_len r, sm_slice_def_len r));
     s \<leftarrow> CAP_UNLOCK s;
     Some (sizes, s) }"

section \<open>Initialisation\<close>

definition create_sealing_key :: "env \<Rightarrow> nat \<Rightarrow> cap" where
  "create_sealing_key K i =
     (if i \<ge> cap_base (kernel_root_sealcap K) then null_cap
      else cheri_setbounds
             (cheri_setaddress (kernel_root_sealcap K) (cap_base (kernel_root_sealcap K) + i)) 1)"

definition init_capio_sc ::
  "env \<Rightarrow> shared_mem_region list \<Rightarrow> 'a capio_header_scheme \<Rightarrow> 'a capio_header_scheme option" where
  "init_capio_sc K smem s = do {
     m \<leftarrow> mtx_init (cap_mtx (capio_sc s));
     Some (capio_upd (\<lambda>c. c\<lparr>cap_mtx := m, sealing_key := create_sealing_key K 0x1234,
                            shared_mem_regs := smem\<rparr>) s) }"

definition capio_destroy :: "'a capio_header_scheme \<Rightarrow> 'a capio_header_scheme option" where
  "capio_destroy s = do {
     m \<leftarrow> mtx_destroy (cap_mtx (capio_sc s));
     Some (capio_upd (cap_mtx_update (\<lambda>_. m)) s) }"

text \<open>\<open>make_dev_capio\<close>: format the name, create the node, register the modmap callbacks.
  The result says whether a node was created.\<close>

definition make_dev_capio :: "env \<Rightarrow> 'a world_scheme \<Rightarrow> bool \<times> 'a world_scheme" where
  "make_dev_capio K s =
     (if vasprintf_ok K (io s)
      then (True, emit (Call ''modmap_register_slice_callback'')
                    (emit (Call ''modmap_register_vaddr_callback'') (grab KCdev s)))
      else (False, emit (Call ''vasprintf'') s))"

section \<open>The token\<close>

definition check_cap_token :: "capio_softc \<Rightarrow> cap \<Rightarrow> int" where
  "check_cap_token sc cap_token =
     (if is_null (sealed_cap sc) then EINVAL
      else if is_null cap_token then EINVAL
      else if \<not> cheri_ptr_equal_exact (cheri_unseal cap_token (sealing_key sc)) (original_cap sc)
           then EPERM
      else 0)"

text \<open>\<open>KERN_SUCCESS\<close> is 0 and \<open>KERN_INVALID_ADDRESS\<close> is 1.\<close>

definition delete_mapping_from_user ::
  "env \<Rightarrow> u64 \<Rightarrow> u64 \<Rightarrow> 'a world_scheme \<Rightarrow> int \<times> 'a world_scheme" where
  "delete_mapping_from_user K offset len s =
     (if \<not> has_vmspace K (io s) then (0, s)
      else if vm_map_lookup K (io s) offset \<noteq> 0 then (0, emit (VmLookup offset) s)
      else let s = emit (VmLookup offset) s;
               error = vm_map_remove K (io s) offset (offset + len);
               s = emit (VmRemove offset (offset + len)) s
           in (if error = 0 \<or> error = 1 then 0 else EIO, s))"

fun revoke_regions ::
  "env \<Rightarrow> nat list \<Rightarrow> int \<Rightarrow> 'a capio_header_scheme \<Rightarrow> (int \<times> 'a capio_header_scheme) option" where
  "revoke_regions K [] error s = Some (error, s)"
| "revoke_regions K (i # is) error s = do {
     s \<leftarrow> CAP_LOCK s;
     let smem = shared_mem_regs (capio_sc s) ! i;
     s \<leftarrow> CAP_UNLOCK s;
     if sm_offset smem \<noteq> 0 then do {
       let (error, s) = delete_mapping_from_user K (sm_offset smem) (sm_len smem) s;
       if error = 0 then do {
         s \<leftarrow> CAP_LOCK s;
         let s = capio_upd (shared_mem_regs_update (\<lambda>rs. rs[i := (rs ! i)\<lparr>sm_offset := 0\<rparr>])) s;
         s \<leftarrow> CAP_UNLOCK s;
         revoke_regions K is error s }
       else revoke_regions K is error s }
     else revoke_regions K is error s }"

definition revoke_cap_token ::
  "env \<Rightarrow> 'a capio_header_scheme \<Rightarrow> (int \<times> 'a capio_header_scheme) option" where
  "revoke_cap_token K s = do {
     s \<leftarrow> CAP_LOCK s;
     let s = capio_upd (\<lambda>c. c\<lparr>original_cap := null_cap, sealed_cap := null_cap\<rparr>) s;
     s \<leftarrow> CAP_UNLOCK s;
     revoke_regions K [0..<length (shared_mem_regs (capio_sc s))] 0 s }"

text \<open>\<open>set_cap_token\<close> writes the sealed capability back into the request on success.\<close>

definition set_cap_token ::
  "cap_req \<Rightarrow> 'a capio_header_scheme \<Rightarrow> (int \<times> cap_req \<times> 'a capio_header_scheme) option" where
  "set_cap_token req s = do {
     s \<leftarrow> CAP_LOCK s;
     if is_null (req_user_cap req) \<or> \<not> is_null (sealed_cap (capio_sc s)) then do {
       s \<leftarrow> CAP_UNLOCK s;
       Some (EINVAL, req, s) }
     else do {
       let s = capio_upd (\<lambda>c. c\<lparr>original_cap := req_user_cap req,
                                sealed_cap := cheri_seal (req_user_cap req) (sealing_key c)\<rparr>) s;
       let req = req\<lparr>req_sealed_cap := sealed_cap (capio_sc s)\<rparr>;
       s \<leftarrow> CAP_UNLOCK s;
       Some (0, req, s) } }"

definition grant_access ::
  "cap_req \<Rightarrow> 'a capio_header_scheme \<Rightarrow> (int \<times> cap_req \<times> 'a capio_header_scheme) option" where
  "grant_access req s = do {
     (_, req, s) \<leftarrow> set_cap_token req s;
     Some (0, req, s) }"

definition revoke_access ::
  "env \<Rightarrow> 'a capio_header_scheme \<Rightarrow> (int \<times> 'a capio_header_scheme) option" where
  "revoke_access K s = revoke_cap_token K s"

section \<open>The device pager\<close>

definition capio_pager_ctor ::
  "int \<Rightarrow> 'a capio_header_scheme \<Rightarrow> (int \<times> 'a capio_header_scheme) option" where
  "capio_pager_ctor htype s = do {
     s \<leftarrow> CAP_LOCK s;
     let s = capio_upd (\<lambda>c. c\<lparr>cap_mapped := True,
                shared_mem_regs := map (\<lambda>r. if sm_type r = htype then r\<lparr>sm_mapped := True\<rparr> else r)
                                     (shared_mem_regs c)\<rparr>) s;
     s \<leftarrow> CAP_UNLOCK s;
     Some (0, s) }"

definition capio_pager_dtor ::
  "nat \<Rightarrow> int \<Rightarrow> 'a capio_header_scheme \<Rightarrow> 'a capio_header_scheme option" where
  "capio_pager_dtor hid htype s = do {
     s \<leftarrow> CAP_LOCK s;
     let regs = map (\<lambda>r. if sm_type r = htype then r\<lparr>sm_mapped := False\<rparr> else r)
                  (shared_mem_regs (capio_sc s));
     let no_mapped = list_all (\<lambda>r. \<not> sm_mapped r) regs;
     let s = capio_upd (\<lambda>c. c\<lparr>shared_mem_regs := regs,
                              cap_mapped := (if no_mapped then False else cap_mapped c)\<rparr>) s;
     s \<leftarrow> CAP_UNLOCK s;
     release (KHandle hid) s }"

datatype memattr = VM_MEMATTR_DEFAULT | VM_MEMATTR_DEVICE

text \<open>The page a fault installs: its physical address and memory attribute; \<open>None\<close> is
  \<open>VM_PAGER_BAD\<close>.\<close>

definition capio_pager_fault ::
  "env \<Rightarrow> int \<Rightarrow> u64 \<Rightarrow> capio_softc \<Rightarrow> (u64 \<times> memattr) option" where
  "capio_pager_fault K htype offset sc =
     (case find (\<lambda>r. sm_type r = htype) (shared_mem_regs sc) of
        None \<Rightarrow> None
      | Some smem \<Rightarrow>
          Some (if sm_is_physical smem then (sm_paddr smem + offset, VM_MEMATTR_DEVICE)
                else (pmap_kextract K (sm_addr smem + offset), VM_MEMATTR_DEFAULT)))"

section \<open>mmap\<close>

record vm_object =
  obj_id :: nat
  obj_handle :: nat
  obj_type :: int
  obj_size :: u64
  obj_memattr :: memattr

record map_reply =
  mr_is_sliced :: bool
  mr_slices :: "slice_def list"
  mr_slice_def_length :: nat
  mr_object :: vm_object

text \<open>
  \<open>nprot_cap\<close> says whether the protection asks for capability loads or stores.  The handle is
  \<open>malloc\<close>ed with \<open>M_WAITOK\<close>, which does not fail.  \<open>cdev_pager_allocate\<close> checks its arguments
  (\<open>pager_allocate\<close>), runs the constructor, which always returns 0, and creates the object; both
  the handle and the object are kernel resources.
\<close>

definition mmap_region ::
  "int \<Rightarrow> 'a capio_header_scheme \<Rightarrow> (bool \<times> bool \<times> slice_def list \<times> nat \<times> memattr)" where
  "mmap_region map_type s =
     (case find (\<lambda>r. sm_type r = map_type) (shared_mem_regs (capio_sc s)) of
        None \<Rightarrow> (False, False, [], 0, VM_MEMATTR_DEFAULT)
      | Some smem \<Rightarrow> (sm_mapped smem, sm_is_sliced smem, sm_slices smem, sm_slice_def_len smem,
                      if sm_is_physical smem then VM_MEMATTR_DEVICE else VM_MEMATTR_DEFAULT))"

definition capio_mmap_single_extra ::
  "env \<Rightarrow> ('r, 'o, 'a capio_header_scheme) capio_ops \<Rightarrow> cap_req option \<Rightarrow> int \<Rightarrow> u64 \<Rightarrow> u64 \<Rightarrow> bool
   \<Rightarrow> 'a capio_header_scheme \<Rightarrow> ((int + map_reply) \<times> 'a capio_header_scheme) option" where
  "capio_mmap_single_extra K ops extra map_type offset sz nprot_cap s =
     (case extra of
        None \<Rightarrow> Some (Inl EINVAL, s)
      | Some req \<Rightarrow>
          if check_cap_token (capio_sc s) (req_sealed_cap req) \<noteq> 0
          then Some (Inl (check_cap_token (capio_sc s) (req_sealed_cap req)), s)
          else if nprot_cap then Some (Inl EINVAL, s)
          else do {
            s \<leftarrow> CAP_LOCK s;
            s \<leftarrow> CAP_UNLOCK s;
            if offset \<noteq> 0 then Some (Inl EINVAL, s)
            else do {
              (dying, s) \<leftarrow> op_is_dying ops s;
              if dying then Some (Inl ENXIO, s)
              else if \<not> cap_tag (req_user_cap req) then Some (Inl EINVAL, s)
              else do {
                (buffer_size, s) \<leftarrow> op_get_buffer_size ops map_type s;
                if sz \<noteq> buffer_size then Some (Inl EINVAL, s)
                else do {
                  s \<leftarrow> CAP_LOCK s;
                  let (mapped, is_sliced, slice_def, slice_def_len, mem_attributes) = mmap_region map_type s;
                  s \<leftarrow> CAP_UNLOCK s;
                  if mapped then Some (Inl EINVAL, s)
                  else do {
                    let hid = length (io s);
                    let s = grab (KHandle hid) s;
                    if \<not> pager_allocate K (io s) then Some (Inl ENXIO, s)
                    else do {
                      (_, s) \<leftarrow> capio_pager_ctor map_type s;
                      let oid = length (io s);
                      let s = grab (KVmObject oid) s;
                      (dying, s) \<leftarrow> op_is_dying ops s;
                      if dying then Some (Inl ENXIO, s)
                      else Some (Inr \<lparr>mr_is_sliced = is_sliced, mr_slices = slice_def,
                                      mr_slice_def_length = slice_def_len,
                                      mr_object = \<lparr>obj_id = oid, obj_handle = hid, obj_type = map_type,
                                                   obj_size = buffer_size, obj_memattr = mem_attributes\<rparr>\<rparr>, s)
                    } } } } } })"

section \<open>ioctl\<close>

definition capio_ioctl_handler ::
  "env \<Rightarrow> ('r, 'o, 'a capio_header_scheme) capio_ops \<Rightarrow> 'r capio_cmd \<Rightarrow> cap_req
   \<Rightarrow> 'a capio_header_scheme \<Rightarrow> (int \<times> (cap_req + 'o) \<times> 'a capio_header_scheme) option" where
  "capio_ioctl_handler K ops cmd cap_req s =
     (if cmd \<noteq> CAPIO_ATTACH \<and> check_cap_token (capio_sc s) (req_sealed_cap cap_req) \<noteq> 0
      then Some (EPERM, Inl cap_req, s)
      else case cmd of
        CAPIO_ATTACH \<Rightarrow> do {
          (error, cap_req, s) \<leftarrow> set_cap_token cap_req s;
          Some (error, Inl cap_req, s) }
      | CAPIO_GOODBYE \<Rightarrow> do {
          (error, s) \<leftarrow> revoke_cap_token K s;
          Some (error, Inl cap_req, s) }
      | DriverCmd r \<Rightarrow> do {
          (error, out, s) \<leftarrow> op_ioctl ops r s;
          Some (error, Inr out, s) })"

section \<open>Locking\<close>

definition cap_unlocked :: "'a capio_header_scheme \<Rightarrow> bool" where
  "cap_unlocked s \<longleftrightarrow> cap_mtx (capio_sc s) = MtxFree"

lemma capio_upd_simps [simp]:
  "capio_sc (capio_upd f s) = f (capio_sc s)"
  "io (capio_upd f s) = io s" "kres (capio_upd f s) = kres s"
  "capio_header.more (capio_upd f s) = capio_header.more s"
  by (simp_all add: capio_upd_def)

lemma capio_upd_upd [simp]: "capio_upd f (capio_upd g s) = capio_upd (\<lambda>c. f (g c)) s"
  by (simp add: capio_upd_def)

lemma capio_upd_id: "f (capio_sc s) = capio_sc s \<Longrightarrow> capio_upd f s = s"
  by (simp add: capio_upd_def)

lemma capio_upd_cong: "f (capio_sc s) = g (capio_sc s) \<Longrightarrow> capio_upd f s = capio_upd g s"
  by (simp add: capio_upd_def)

lemma capio_sc_emit [simp]: "capio_sc (emit e s) = capio_sc s"
  by (simp add: emit_def)

lemma capio_sc_grab [simp]: "capio_sc (grab r s) = capio_sc s"
  by (simp add: grab_def)

lemma mtx_lock_Some [simp]: "mtx_lock m = Some m' \<longleftrightarrow> m = MtxFree \<and> m' = MtxOwned"
  by (cases m) auto

lemma mtx_unlock_Some [simp]: "mtx_unlock m = Some m' \<longleftrightarrow> m = MtxOwned \<and> m' = MtxFree"
  by (cases m) auto

lemma CAP_LOCK_eq:
  "cap_unlocked s \<Longrightarrow> CAP_LOCK s = Some (capio_upd (cap_mtx_update (\<lambda>_. MtxOwned)) s)"
  by (simp add: CAP_LOCK_def cap_unlocked_def)

text \<open>The shape of every critical section of the file: take the lock, change fields other than
  the mutex, release it.\<close>

lemma CAP_UNLOCK_eq:
  assumes "cap_unlocked s" "\<And>c. cap_mtx (f c) = cap_mtx c"
    "\<And>c m. f (c\<lparr>cap_mtx := m\<rparr>) = (f c)\<lparr>cap_mtx := m\<rparr>"
  shows "CAP_UNLOCK (capio_upd (\<lambda>c. f (c\<lparr>cap_mtx := MtxOwned\<rparr>)) s) = Some (capio_upd f s)"
proof -
  have "(f (capio_sc s))\<lparr>cap_mtx := MtxFree\<rparr> = f (capio_sc s)"
    using assms(1) assms(2) [of "capio_sc s"] by (simp add: cap_unlocked_def)
  then have "capio_upd (\<lambda>c. (f (c\<lparr>cap_mtx := MtxOwned\<rparr>))\<lparr>cap_mtx := MtxFree\<rparr>) s = capio_upd f s"
    by (intro capio_upd_cong) (simp add: assms(3))
  then show ?thesis
    using assms(2) by (simp add: CAP_UNLOCK_def)
qed

lemma CAP_LOCK_UNLOCK:
  "cap_unlocked s \<Longrightarrow>
   CAP_UNLOCK (capio_upd (cap_mtx_update (\<lambda>_. MtxOwned)) s) = Some s"
  by (simp add: CAP_UNLOCK_def cap_unlocked_def capio_upd_id)

lemma cap_unlocked_upd: "(\<And>c. cap_mtx (f c) = cap_mtx c) \<Longrightarrow> cap_unlocked s \<Longrightarrow> cap_unlocked (capio_upd f s)"
  by (simp add: cap_unlocked_def)

lemma cap_unlocked_world [simp]:
  "cap_unlocked (emit e s) = cap_unlocked s" "cap_unlocked (grab r s) = cap_unlocked s"
  by (simp_all add: cap_unlocked_def)

lemmas cap_lock_simps = CAP_LOCK_eq CAP_UNLOCK_eq CAP_LOCK_UNLOCK cap_unlocked_upd

section \<open>What each operation does, from an unlocked state\<close>

lemma set_cap_token_eq:
  assumes "cap_unlocked s"
  shows "set_cap_token req s =
    (if is_null (req_user_cap req) \<or> \<not> is_null (sealed_cap (capio_sc s)) then Some (EINVAL, req, s)
     else let t = cheri_seal (req_user_cap req) (sealing_key (capio_sc s)) in
       Some (0, req\<lparr>req_sealed_cap := t\<rparr>,
             capio_upd (\<lambda>c. c\<lparr>original_cap := req_user_cap req, sealed_cap := t\<rparr>) s))"
proof -
  let ?f = "\<lambda>c. c\<lparr>original_cap := req_user_cap req,
                   sealed_cap := cheri_seal (req_user_cap req) (sealing_key c)\<rparr>"
  have u: "CAP_UNLOCK (capio_upd (\<lambda>c. ?f (c\<lparr>cap_mtx := MtxOwned\<rparr>)) s) = Some (capio_upd ?f s)"
    by (rule CAP_UNLOCK_eq) (simp_all add: assms)
  have e: "capio_upd ?f s = capio_upd (\<lambda>c. c\<lparr>original_cap := req_user_cap req,
      sealed_cap := cheri_seal (req_user_cap req) (sealing_key (capio_sc s))\<rparr>) s"
    by (rule capio_upd_cong) simp
  show ?thesis
    using u by (simp add: set_cap_token_def CAP_LOCK_eq [OF assms] CAP_LOCK_UNLOCK [OF assms] Let_def e)
qed

lemma capio_vaddr_callback_eq:
  assumes "cap_unlocked s"
  shows "capio_vaddr_callback vaddr sz ty s =
    Some (if list_ex (\<lambda>r. sm_type r = ty) (shared_mem_regs (capio_sc s)) then 0 else EINVAL,
      capio_upd (shared_mem_regs_update (upd_first (\<lambda>r. sm_type r = ty)
        (\<lambda>r. r\<lparr>sm_offset := vaddr, sm_len := sz\<rparr>))) s)"
proof -
  let ?f = "shared_mem_regs_update (upd_first (\<lambda>r. sm_type r = ty) (\<lambda>r. r\<lparr>sm_offset := vaddr, sm_len := sz\<rparr>))"
  have u: "CAP_UNLOCK (capio_upd (\<lambda>c. ?f (c\<lparr>cap_mtx := MtxOwned\<rparr>)) s) = Some (capio_upd ?f s)"
    by (rule CAP_UNLOCK_eq) (simp_all add: assms)
  have e: "capio_upd (\<lambda>c. c\<lparr>cap_mtx := MtxOwned, shared_mem_regs := upd_first (\<lambda>r. sm_type r = ty)
      (\<lambda>r. r\<lparr>sm_offset := vaddr, sm_len := sz\<rparr>) (shared_mem_regs (capio_sc s))\<rparr>) s
    = capio_upd (\<lambda>c. ?f (c\<lparr>cap_mtx := MtxOwned\<rparr>)) s"
    by (rule capio_upd_cong) simp
  show ?thesis
    using u by (simp add: capio_vaddr_callback_def CAP_LOCK_eq [OF assms] Let_def e)
qed

lemma capio_slice_length_callback_eq:
  assumes "cap_unlocked s"
  shows "capio_slice_length_callback ty s =
    Some (case find (\<lambda>r. sm_type r = ty) (shared_mem_regs (capio_sc s)) of
            None \<Rightarrow> (0, 0) | Some r \<Rightarrow> (sm_len r, sm_slice_def_len r), s)"
  by (simp add: capio_slice_length_callback_def CAP_LOCK_eq [OF assms] CAP_LOCK_UNLOCK [OF assms] Let_def)

definition set_mapped :: "int \<Rightarrow> bool \<Rightarrow> shared_mem_region list \<Rightarrow> shared_mem_region list" where
  "set_mapped ty b = map (\<lambda>r. if sm_type r = ty then r\<lparr>sm_mapped := b\<rparr> else r)"

lemma capio_pager_ctor_eq:
  assumes "cap_unlocked s"
  shows "capio_pager_ctor ty s =
    Some (0, capio_upd (\<lambda>c. c\<lparr>cap_mapped := True, shared_mem_regs := set_mapped ty True (shared_mem_regs c)\<rparr>) s)"
proof -
  let ?f = "\<lambda>c. c\<lparr>cap_mapped := True, shared_mem_regs := set_mapped ty True (shared_mem_regs c)\<rparr>"
  have u: "CAP_UNLOCK (capio_upd (\<lambda>c. ?f (c\<lparr>cap_mtx := MtxOwned\<rparr>)) s) = Some (capio_upd ?f s)"
    by (rule CAP_UNLOCK_eq) (simp_all add: assms)
  show ?thesis
    using u by (simp add: capio_pager_ctor_def CAP_LOCK_eq [OF assms] Let_def set_mapped_def)
qed

lemma capio_pager_dtor_eq:
  assumes "cap_unlocked s"
  shows "capio_pager_dtor hid ty s = release (KHandle hid)
    (capio_upd (\<lambda>c. c\<lparr>shared_mem_regs := set_mapped ty False (shared_mem_regs c),
       cap_mapped := (if list_all (\<lambda>r. \<not> sm_mapped r) (set_mapped ty False (shared_mem_regs c))
                      then False else cap_mapped c)\<rparr>) s)"
proof -
  let ?f = "\<lambda>c. c\<lparr>shared_mem_regs := set_mapped ty False (shared_mem_regs c),
       cap_mapped := (if list_all (\<lambda>r. \<not> sm_mapped r) (set_mapped ty False (shared_mem_regs c))
                      then False else cap_mapped c)\<rparr>"
  have u: "CAP_UNLOCK (capio_upd (\<lambda>c. ?f (c\<lparr>cap_mtx := MtxOwned\<rparr>)) s) = Some (capio_upd ?f s)"
    by (rule CAP_UNLOCK_eq) (simp_all add: assms)
  have e: "capio_pager_dtor hid ty s = do {
      s' \<leftarrow> CAP_UNLOCK (capio_upd (\<lambda>c. ?f (c\<lparr>cap_mtx := MtxOwned\<rparr>)) s); release (KHandle hid) s' }"
    unfolding capio_pager_dtor_def CAP_LOCK_eq [OF assms] Let_def set_mapped_def [symmetric]
    by (simp, rule arg_cong [where f = "\<lambda>x. Option.bind (CAP_UNLOCK x) (release (KHandle hid))"])
       (rule capio_upd_cong, simp)
  show ?thesis unfolding e u by simp
qed

text \<open>The loop of \<open>revoke_cap_token\<close>: it never blocks, keeps the lock free, and touches nothing of
  the region table but offsets.\<close>

definition same_region :: "shared_mem_region \<Rightarrow> shared_mem_region \<Rightarrow> bool" where
  "same_region r r' \<longleftrightarrow> r'\<lparr>sm_offset := 0\<rparr> = r\<lparr>sm_offset := 0\<rparr> \<and> sm_offset r' \<in> {sm_offset r, 0}"

abbreviation same_regions :: "shared_mem_region list \<Rightarrow> shared_mem_region list \<Rightarrow> bool" where
  "same_regions \<equiv> list_all2 same_region"

lemma same_region_refl [simp]: "same_region r r"
  by (simp add: same_region_def)

lemma same_region_clear [simp]: "same_region r (r\<lparr>sm_offset := 0\<rparr>)"
  by (simp add: same_region_def)

lemma same_region_trans: "same_region a b \<Longrightarrow> same_region b c \<Longrightarrow> same_region a c"
  by (auto simp: same_region_def)

lemma same_regionD:
  assumes "same_region r r'"
  shows "sm_mapped r' = sm_mapped r" "sm_type r' = sm_type r" "sm_len r' = sm_len r"
    "sm_slice_def_len r' = sm_slice_def_len r"
proof -
  have e: "r'\<lparr>sm_offset := 0\<rparr> = r\<lparr>sm_offset := 0\<rparr>" using assms by (simp add: same_region_def)
  show "sm_mapped r' = sm_mapped r" using arg_cong [OF e, of sm_mapped] by simp
  show "sm_type r' = sm_type r" using arg_cong [OF e, of sm_type] by simp
  show "sm_len r' = sm_len r" using arg_cong [OF e, of sm_len] by simp
  show "sm_slice_def_len r' = sm_slice_def_len r" using arg_cong [OF e, of sm_slice_def_len] by simp
qed

lemma same_regions_refl [simp]: "same_regions rs rs"
  by (simp add: list_all2_conv_all_nth)

lemma same_regions_trans: "same_regions a b \<Longrightarrow> same_regions b c \<Longrightarrow> same_regions a c"
  using list_all2_trans [of same_region same_region same_region a b c] same_region_trans by blast

lemma same_regions_clear: "same_regions rs (rs[i := (rs ! i)\<lparr>sm_offset := 0\<rparr>])"
  by (cases "i < length rs")
     (auto simp: list_all2_conv_all_nth nth_list_update list_update_beyond)

lemma same_regions_fields:
  "same_regions rs rs' \<Longrightarrow> map sm_mapped rs' = map sm_mapped rs \<and> map sm_type rs' = map sm_type rs
     \<and> map sm_len rs' = map sm_len rs"
  by (induction rule: list_all2_induct) (auto dest: same_regionD)

lemma delete_mapping_frame [simp]:
  "capio_sc (snd (delete_mapping_from_user K a l s)) = capio_sc s"
  "kres (snd (delete_mapping_from_user K a l s)) = kres s"
  "capio_header.more (snd (delete_mapping_from_user K a l s)) = capio_header.more s"
  by (simp_all add: delete_mapping_from_user_def Let_def emit_def)

definition revoked :: "'a capio_header_scheme \<Rightarrow> 'a capio_header_scheme \<Rightarrow> bool" where
  "revoked s s' \<longleftrightarrow>
     (capio_sc s')\<lparr>shared_mem_regs := []\<rparr> = (capio_sc s)\<lparr>shared_mem_regs := []\<rparr>
     \<and> same_regions (shared_mem_regs (capio_sc s)) (shared_mem_regs (capio_sc s'))
     \<and> kres s' = kres s \<and> capio_header.more s' = capio_header.more s"

lemma revoked_refl: "revoked s s"
  by (simp add: revoked_def)

lemma revoked_trans: "revoked a b \<Longrightarrow> revoked b c \<Longrightarrow> revoked a c"
  unfolding revoked_def by (auto intro: same_regions_trans)

lemma revokedD:
  assumes "revoked s s'"
  shows "cap_mtx (capio_sc s') = cap_mtx (capio_sc s)" "sealed_cap (capio_sc s') = sealed_cap (capio_sc s)"
    "original_cap (capio_sc s') = original_cap (capio_sc s)" "sealing_key (capio_sc s') = sealing_key (capio_sc s)"
    "cap_mapped (capio_sc s') = cap_mapped (capio_sc s)"
proof -
  have e: "(capio_sc s')\<lparr>shared_mem_regs := []\<rparr> = (capio_sc s)\<lparr>shared_mem_regs := []\<rparr>"
    using assms by (simp add: revoked_def)
  show "cap_mtx (capio_sc s') = cap_mtx (capio_sc s)" using arg_cong [OF e, of cap_mtx] by simp
  show "sealed_cap (capio_sc s') = sealed_cap (capio_sc s)" using arg_cong [OF e, of sealed_cap] by simp
  show "original_cap (capio_sc s') = original_cap (capio_sc s)" using arg_cong [OF e, of original_cap] by simp
  show "sealing_key (capio_sc s') = sealing_key (capio_sc s)" using arg_cong [OF e, of sealing_key] by simp
  show "cap_mapped (capio_sc s') = cap_mapped (capio_sc s)" using arg_cong [OF e, of cap_mapped] by simp
qed

lemma revoked_unlocked: "revoked s s' \<Longrightarrow> cap_unlocked s \<Longrightarrow> cap_unlocked s'"
  by (simp add: cap_unlocked_def revokedD)

lemma revoke_regions_total:
  "cap_unlocked s \<Longrightarrow> \<exists>e s'. revoke_regions K is err s = Some (e, s') \<and> revoked s s'"
proof (induction "is" arbitrary: err s)
  case Nil
  then show ?case by (simp add: revoked_refl)
next
  case (Cons i js)
  note u = Cons.prems
  let ?r = "shared_mem_regs (capio_sc s) ! i"
  let ?d = "delete_mapping_from_user K (sm_offset ?r) (sm_len ?r) s"
  let ?f = "shared_mem_regs_update (\<lambda>rs. rs[i := (rs ! i)\<lparr>sm_offset := 0\<rparr>])"
  have ud: "cap_unlocked (snd ?d)" using u by (simp add: cap_unlocked_def)
  have rd: "revoked s (snd ?d)" by (simp add: revoked_def)
  have unl: "CAP_UNLOCK (capio_upd (\<lambda>c. ?f (c\<lparr>cap_mtx := MtxOwned\<rparr>)) (snd ?d)) = Some (capio_upd ?f (snd ?d))"
    by (rule CAP_UNLOCK_eq) (simp_all add: ud)
  have rc: "revoked s (capio_upd ?f (snd ?d))"
    by (simp add: revoked_def same_regions_clear)
  consider "sm_offset ?r = 0" | "sm_offset ?r \<noteq> 0" "fst ?d = 0" | "sm_offset ?r \<noteq> 0" "fst ?d \<noteq> 0"
    by blast
  then show ?case
  proof cases
    case 1
    then show ?thesis
      using Cons.IH [OF u, of err] by (simp add: CAP_LOCK_eq [OF u] CAP_LOCK_UNLOCK [OF u])
  next
    case 2
    obtain e s' where "revoke_regions K js 0 (capio_upd ?f (snd ?d)) = Some (e, s')"
        "revoked (capio_upd ?f (snd ?d)) s'"
      using Cons.IH [OF cap_unlocked_upd [OF _ ud, of ?f], of 0] by auto
    then show ?thesis
      using 2 unl rc by (auto simp: CAP_LOCK_eq [OF u] CAP_LOCK_UNLOCK [OF u] CAP_LOCK_eq [OF ud]
          Let_def split_beta intro: revoked_trans)
  next
    case 3
    obtain e s' where "revoke_regions K js (fst ?d) (snd ?d) = Some (e, s')" "revoked (snd ?d) s'"
      using Cons.IH [OF ud] by blast
    then show ?thesis
      using 3 rd by (auto simp: CAP_LOCK_eq [OF u] CAP_LOCK_UNLOCK [OF u] Let_def split_beta
          intro: revoked_trans)
  qed
qed

definition drop_token :: "capio_softc \<Rightarrow> capio_softc" where
  "drop_token c = c\<lparr>original_cap := null_cap, sealed_cap := null_cap\<rparr>"

lemma revoke_cap_token_total:
  assumes "cap_unlocked s"
  obtains e s' where "revoke_cap_token K s = Some (e, s')" "revoked (capio_upd drop_token s) s'"
    "cap_unlocked s'"
proof -
  have u: "CAP_UNLOCK (capio_upd (\<lambda>c. drop_token (c\<lparr>cap_mtx := MtxOwned\<rparr>)) s)
      = Some (capio_upd drop_token s)"
    by (rule CAP_UNLOCK_eq) (simp_all add: assms drop_token_def)
  have un: "cap_unlocked (capio_upd drop_token s)"
    using assms by (simp add: cap_unlocked_def drop_token_def)
  obtain e s' where r: "revoke_regions K [0..<length (shared_mem_regs (capio_sc s))] 0
      (capio_upd drop_token s) = Some (e, s')" "revoked (capio_upd drop_token s) s'"
    using revoke_regions_total [OF un] by blast
  have "revoke_cap_token K s = Some (e, s')"
    using u r by (simp add: revoke_cap_token_def CAP_LOCK_eq [OF assms] drop_token_def)
  with r show thesis using that revoked_unlocked [OF r(2) un] by blast
qed

section \<open>The session invariant\<close>

text \<open>
  Between calls the lock is free, a session is either absent (both stored capabilities null) or
  holds a non-null capability with its sealed form, and the device-wide \<open>mapped\<close> flag is set
  whenever some region is mapped.
\<close>

definition session_inv :: "capio_softc \<Rightarrow> bool" where
  "session_inv c \<longleftrightarrow>
     cap_mtx c = MtxFree
     \<and> (if is_null (sealed_cap c) then is_null (original_cap c)
        else sealed_cap c = cheri_seal (original_cap c) (sealing_key c) \<and> \<not> is_null (original_cap c))
     \<and> (list_ex sm_mapped (shared_mem_regs c) \<longrightarrow> cap_mapped c)"

lemma session_inv_unlocked: "session_inv (capio_sc s) \<Longrightarrow> cap_unlocked s"
  by (simp add: session_inv_def cap_unlocked_def)

lemma set_cap_token_total:
  assumes "cap_unlocked s"
  obtains e req' s' where "set_cap_token req s = Some (e, req', s')"
    "capio_header.more s' = capio_header.more s" "kres s' = kres s"
  using set_cap_token_eq [OF assms, of req]
  by (cases "is_null (req_user_cap req) \<or> \<not> is_null (sealed_cap (capio_sc s))") (auto simp: Let_def)

lemma is_null_seal [simp]: "is_null (cheri_seal c k) = is_null c"
  by (rule morello.seal_keeps_null)

lemma is_null_null_cap [simp]: "is_null null_cap"
  by (simp add: is_null_def null_cap_def)

lemma session_inv_set_token:
  assumes "session_inv (capio_sc s)" "set_cap_token req s = Some (e, req', s')"
  shows "session_inv (capio_sc s')"
  using assms(1) assms(2) [unfolded set_cap_token_eq [OF session_inv_unlocked [OF assms(1)]]]
  by (auto simp: session_inv_def Let_def split: if_splits)

lemma list_ex_mapped: "list_ex sm_mapped rs = (True \<in> set (map sm_mapped rs))"
  by (induction rs) auto

lemma session_inv_revoke:
  assumes "session_inv (capio_sc s)" "revoke_cap_token K s = Some (e, s')"
  shows "session_inv (capio_sc s')" "is_null (sealed_cap (capio_sc s'))"
    "kres s' = kres s" "capio_header.more s' = capio_header.more s"
proof -
  obtain e' s'' where r: "revoke_cap_token K s = Some (e', s'')" "revoked (capio_upd drop_token s) s''"
      "cap_unlocked s''"
    using revoke_cap_token_total [OF session_inv_unlocked [OF assms(1)]] by blast
  then have r: "revoked (capio_upd drop_token s) s'" "cap_unlocked s'" using assms(2) by auto
  show n: "is_null (sealed_cap (capio_sc s'))"
    using revokedD(2) [OF r(1)] by (simp add: drop_token_def)
  have "map sm_mapped (shared_mem_regs (capio_sc s')) = map sm_mapped (shared_mem_regs (capio_sc s))"
    using r(1) by (auto simp: revoked_def drop_token_def dest: same_regions_fields)
  with r n assms(1) show "session_inv (capio_sc s')"
    using revokedD [OF r(1)] by (simp add: session_inv_def cap_unlocked_def drop_token_def list_ex_mapped)
  show "kres s' = kres s" "capio_header.more s' = capio_header.more s"
    using r(1) by (auto simp: revoked_def)
qed

lemma set_mapped_True_ex: "list_ex sm_mapped rs \<Longrightarrow> list_ex sm_mapped (set_mapped ty True rs)"
  by (induction rs) (auto simp: set_mapped_def)

lemma set_mapped_False_ex: "list_ex sm_mapped (set_mapped ty False rs) \<Longrightarrow> list_ex sm_mapped rs"
  by (induction rs) (auto simp: set_mapped_def split: if_splits)

lemma not_list_all_mapped: "list_all (\<lambda>r. \<not> sm_mapped r) rs = (\<not> list_ex sm_mapped rs)"
  by (induction rs) auto

lemma session_inv_ctor:
  assumes "session_inv (capio_sc s)" "capio_pager_ctor ty s = Some (e, s')"
  shows "session_inv (capio_sc s')"
  using assms capio_pager_ctor_eq [OF session_inv_unlocked [OF assms(1)], of ty]
  by (auto simp: session_inv_def)

lemma capio_sc_release: "release r s = Some s' \<Longrightarrow> capio_sc s' = capio_sc s"
  by (auto simp: release_def emit_def split: if_splits)

lemma session_inv_dtor:
  assumes "session_inv (capio_sc s)" "capio_pager_dtor hid ty s = Some s'"
  shows "session_inv (capio_sc s')"
    "cap_mapped (capio_sc s') = list_ex sm_mapped (shared_mem_regs (capio_sc s'))"
  using assms capio_pager_dtor_eq [OF session_inv_unlocked [OF assms(1)], of hid ty]
  by (auto simp: session_inv_def not_list_all_mapped split: if_splits
      dest: set_mapped_False_ex dest!: capio_sc_release)

lemma upd_first_map: "(\<And>x. g (f x) = g x) \<Longrightarrow> map g (upd_first p f xs) = map g xs"
  by (induction xs) auto

lemma session_inv_vaddr:
  assumes "session_inv (capio_sc s)" "capio_vaddr_callback va sz ty s = Some (e, s')"
  shows "session_inv (capio_sc s')"
  using assms capio_vaddr_callback_eq [OF session_inv_unlocked [OF assms(1)], of va sz ty]
  by (auto simp: session_inv_def list_ex_mapped upd_first_map simp del: set_map)

lemma CAP_critical_nop [simp]:
  "cap_unlocked s \<Longrightarrow> (CAP_LOCK s \<bind> (\<lambda>s. CAP_UNLOCK s \<bind> f)) = f s"
  by (simp add: CAP_LOCK_eq CAP_LOCK_UNLOCK)

lemma mmap_region_upd [simp]:
  "(\<And>c. shared_mem_regs (f c) = shared_mem_regs c) \<Longrightarrow> mmap_region ty (capio_upd f s) = mmap_region ty s"
  by (simp add: mmap_region_def)

text \<open>What a granted mapping means: the caller showed the session's token and a valid capability,
  asked for no capability permissions and offset 0, and the region was not mapped before and is now.\<close>

definition mmap_granted ::
  "capio_softc \<Rightarrow> cap_req option \<Rightarrow> int \<Rightarrow> u64 \<Rightarrow> bool \<Rightarrow> capio_softc \<Rightarrow> map_reply \<Rightarrow> bool" where
  "mmap_granted c extra ty off pc c' m \<longleftrightarrow>
     (\<exists>req. extra = Some req \<and> check_cap_token c (req_sealed_cap req) = 0 \<and> cap_tag (req_user_cap req))
     \<and> off = 0 \<and> \<not> pc
     \<and> (\<forall>r. find (\<lambda>r. sm_type r = ty) (shared_mem_regs c) = Some r \<longrightarrow> \<not> sm_mapped r)
     \<and> shared_mem_regs c' = set_mapped ty True (shared_mem_regs c) \<and> cap_mapped c'
     \<and> obj_type (mr_object m) = ty"

section \<open>The driver contract\<close>

text \<open>
  What the framework needs of the driver behind it: from states the driver considers well-formed
  its callbacks return, keep the driver well-formed and do not touch the CAPIO state; and the
  framework's own changes (its state, the history, the resources of mappings) keep it well-formed.
\<close>

locale capio_driver =
  fixes ops :: "('r, 'o, 'a capio_header_scheme) capio_ops"
    and ok :: "'a capio_header_scheme \<Rightarrow> bool"
  assumes ioctl_ok: "ok s \<Longrightarrow> \<exists>e out s'. op_ioctl ops r s = Some (e, out, s') \<and> ok s' \<and> capio_sc s' = capio_sc s"
    and dying_ok: "ok s \<Longrightarrow> \<exists>b s'. op_is_dying ops s = Some (b, s') \<and> ok s' \<and> capio_sc s' = capio_sc s"
    and size_ok: "ok s \<Longrightarrow> \<exists>n s'. op_get_buffer_size ops ty s = Some (n, s') \<and> ok s' \<and> capio_sc s' = capio_sc s"
    and ok_capio: "ok s \<Longrightarrow> dev_res R = dev_res (kres s) \<Longrightarrow> ok (s\<lparr>io := h, kres := R, capio_sc := c\<rparr>)"
begin

lemma ok_more:
  assumes a: "ok s" "capio_header.more s' = capio_header.more s" "dev_res (kres s') = dev_res (kres s)"
  shows "ok s'"
proof -
  have e: "s\<lparr>io := io s', kres := kres s', capio_sc := capio_sc s'\<rparr> = s'"
    using a(2) by (cases s, cases s') simp
  show ?thesis using ok_capio [where h = "io s'" and R = "kres s'" and c = "capio_sc s'", OF a(1,3)] by (simp only: e)
qed

lemma revoke_ok:
  assumes "ok s" "session_inv (capio_sc s)"
  obtains e s' where "revoke_cap_token K s = Some (e, s')" "ok s'"
proof -
  obtain e s' where r: "revoke_cap_token K s = Some (e, s')" "revoked (capio_upd drop_token s) s'"
    by (rule revoke_cap_token_total [OF session_inv_unlocked [OF assms(2)]])
  then have "ok s'" by (intro ok_more [OF assms(1)]) (simp_all add: revoked_def)
  with r(1) show thesis by (rule that)
qed

lemma ioctl_handler_step:
  assumes "ok s" "session_inv (capio_sc s)"
  shows "\<exists>e out s'. capio_ioctl_handler K ops cmd req s = Some (e, out, s') \<and> ok s' \<and> session_inv (capio_sc s')"
proof (cases "cmd \<noteq> CAPIO_ATTACH \<and> check_cap_token (capio_sc s) (req_sealed_cap req) \<noteq> 0")
  case True
  with assms show ?thesis by (simp add: capio_ioctl_handler_def)
next
  case pass: False
  note u = session_inv_unlocked [OF assms(2)]
  show ?thesis
  proof (cases cmd)
    case CAPIO_ATTACH
    obtain e req' s' where t: "set_cap_token req s = Some (e, req', s')"
        "capio_header.more s' = capio_header.more s" "kres s' = kres s"
      by (rule set_cap_token_total [OF u])
    with CAPIO_ATTACH show ?thesis
      by (simp add: capio_ioctl_handler_def ok_more [OF assms(1)] session_inv_set_token [OF assms(2) t(1)])
  next
    case CAPIO_GOODBYE
    obtain e s' where r: "revoke_cap_token K s = Some (e, s')" "ok s'" by (rule revoke_ok [OF assms])
    with CAPIO_GOODBYE pass show ?thesis
      by (simp add: capio_ioctl_handler_def session_inv_revoke [OF assms(2) r(1)])
  next
    case (DriverCmd r)
    with pass ioctl_ok [OF assms(1), of r] assms(2) show ?thesis
      by (auto simp: capio_ioctl_handler_def)
  qed
qed

text \<open>\<open>mmap\<close> returns from every well-formed state, keeps the invariant on every path, and hands out
  an object only past all of its checks.\<close>

lemma mmap_step:
  assumes "ok s" "session_inv (capio_sc s)"
  obtains r s' where "capio_mmap_single_extra K ops extra ty off sz pc s = Some (r, s')"
    "ok s'" "session_inv (capio_sc s')"
    "\<And>m. r = Inr m \<Longrightarrow> mmap_granted (capio_sc s) extra ty off pc (capio_sc s') m"
proof -
  obtain b1 s1 where d1: "op_is_dying ops s = Some (b1, s1)" "ok s1" "capio_sc s1 = capio_sc s"
    using dying_ok [OF assms(1)] by blast
  obtain n s2 where g: "op_get_buffer_size ops ty s1 = Some (n, s2)" "ok s2" "capio_sc s2 = capio_sc s"
    using size_ok [OF d1(2), of ty] d1(3) by auto
  have u: "cap_unlocked s" "cap_unlocked s2"
    using session_inv_unlocked [OF assms(2)] g(3) by (simp_all add: cap_unlocked_def)
  let ?h = "grab (KHandle (length (io s2))) s2"
  let ?c = "capio_upd (\<lambda>c. c\<lparr>cap_mapped := True, shared_mem_regs := set_mapped ty True (shared_mem_regs c)\<rparr>) ?h"
  have ct: "capio_pager_ctor ty ?h = Some (0, ?c)"
    by (rule capio_pager_ctor_eq) (simp add: u)
  let ?o = "grab (KVmObject (length (io ?c))) ?c"
  have oko: "ok ?o" "ok ?h"
    by (rule ok_more [OF g(2)]; simp add: grab_def emit_def capio_upd_def)+
  obtain b3 s3 where d3: "op_is_dying ops ?o = Some (b3, s3)" "ok s3" "capio_sc s3 = capio_sc ?o"
    using dying_ok [OF oko(1)] by blast
  have inv3: "session_inv (capio_sc s3)"
    using assms(2) g(3) d3(3) by (simp add: session_inv_def)
  have gr: "mmap_granted (capio_sc s) (Some req) ty 0 False ((capio_sc s)\<lparr>cap_mapped := True,
      shared_mem_regs := set_mapped ty True (shared_mem_regs (capio_sc s))\<rparr>) m"
    if "check_cap_token (capio_sc s) (req_sealed_cap req) = 0" "cap_tag (req_user_cap req)"
      "\<not> fst (mmap_region ty s2)" "obj_type (mr_object m) = ty" for req m
    using that g(3) by (auto simp: mmap_granted_def mmap_region_def split: option.splits)
  have "\<exists>r s'. capio_mmap_single_extra K ops extra ty off sz pc s = Some (r, s') \<and> ok s'
      \<and> session_inv (capio_sc s') \<and> (\<forall>m. r = Inr m \<longrightarrow> mmap_granted (capio_sc s) extra ty off pc (capio_sc s') m)"
    using assms g(2,3) d1(2,3) d3(2,3) oko inv3
    by (cases extra)
       (auto simp: capio_mmap_single_extra_def u d1(1) g(1) CAP_LOCK_eq CAP_LOCK_UNLOCK ct [simplified] d3(1) [simplified]
          Let_def split_beta intro!: gr)
  then show thesis using that by blast
qed

end

section \<open>The life of a session\<close>

text \<open>
  The framework's entry points as one step relation: system calls, the pager destructor when an
  object dies, and the two modmap callbacks.  \<open>capio_run\<close> is its reflexive-transitive closure.
\<close>

inductive capio_step ::
  "env \<Rightarrow> ('r, 'o, 'a capio_header_scheme) capio_ops \<Rightarrow> 'a capio_header_scheme \<Rightarrow> 'a capio_header_scheme \<Rightarrow> bool"
  for K ops where
  Ioctl: "capio_ioctl_handler K ops cmd req s = Some (e, out, s') \<Longrightarrow> capio_step K ops s s'"
| Mmap: "capio_mmap_single_extra K ops extra ty off sz pc s = Some (r, s') \<Longrightarrow> capio_step K ops s s'"
| Dtor: "capio_pager_dtor hid ty s = Some s' \<Longrightarrow> capio_step K ops s s'"
| Vaddr: "capio_vaddr_callback va sz ty s = Some (e, s') \<Longrightarrow> capio_step K ops s s'"
| Slices: "capio_slice_length_callback ty s = Some (r, s') \<Longrightarrow> capio_step K ops s s'"

inductive capio_run ::
  "env \<Rightarrow> ('r, 'o, 'a capio_header_scheme) capio_ops \<Rightarrow> 'a capio_header_scheme \<Rightarrow> 'a capio_header_scheme \<Rightarrow> bool"
  for K ops where
  Start: "capio_run K ops s s"
| Step: "capio_run K ops s s' \<Longrightarrow> capio_step K ops s' s'' \<Longrightarrow> capio_run K ops s s''"

inductive_cases capio_stepE: "capio_step K ops s s'"

context capio_driver
begin

lemma capio_step_inv:
  assumes "capio_step K ops s s'" "ok s" "session_inv (capio_sc s)"
  shows "ok s' \<and> session_inv (capio_sc s')"
  using assms(1)
proof cases
  case (Ioctl cmd req e out)
  then show ?thesis using ioctl_handler_step [OF assms(2,3), of K cmd req] by auto
next
  case (Mmap extra ty off sz pc r)
  show ?thesis
    by (rule mmap_step [OF assms(2,3), of K extra ty off sz pc]) (use Mmap in auto)
next
  case (Dtor hid ty)
  have "capio_header.more s' = capio_header.more s" "dev_res (kres s') = dev_res (kres s)"
    using Dtor capio_pager_dtor_eq [OF session_inv_unlocked [OF assms(3)], of hid ty]
    by (auto simp: release_def emit_def split: if_splits)
  then show ?thesis using ok_more [OF assms(2)] session_inv_dtor(1) [OF assms(3) Dtor] by simp
next
  case (Vaddr va sz ty e)
  have "capio_header.more s' = capio_header.more s" "dev_res (kres s') = dev_res (kres s)"
    using Vaddr capio_vaddr_callback_eq [OF session_inv_unlocked [OF assms(3)], of va sz ty] by auto
  then show ?thesis using ok_more [OF assms(2)] session_inv_vaddr [OF assms(3) Vaddr] by simp
next
  case (Slices ty r)
  then show ?thesis
    using assms(2,3) capio_slice_length_callback_eq [OF session_inv_unlocked [OF assms(3)], of ty] by auto
qed

lemma capio_run_inv:
  "capio_run K ops s s' \<Longrightarrow> ok s \<Longrightarrow> session_inv (capio_sc s) \<Longrightarrow> ok s' \<and> session_inv (capio_sc s')"
  by (induction rule: capio_run.induct) (auto dest: capio_step_inv)

end

section \<open>Properties of the token\<close>

lemma check_cap_token_session:
  assumes "session_inv c" "\<not> is_null (sealed_cap c)" "sealing_key_ok (sealing_key c)" "sealable (original_cap c)"
  shows "check_cap_token c t = (if t = sealed_cap c then 0 else if is_null t then EINVAL else EPERM)"
proof -
  have "(cheri_unseal t (sealing_key c) = original_cap c) = (t = sealed_cap c)"
    using assms morello.token_iff [of "sealing_key c" "original_cap c" t]
    by (simp add: session_inv_def sealable_def)
  with assms(2) show ?thesis
    by (auto simp: check_cap_token_def cheri_ptr_equal_exact_def)
qed

lemma handler_refuses:
  "cmd \<noteq> CAPIO_ATTACH \<Longrightarrow> check_cap_token (capio_sc s) (req_sealed_cap req) \<noteq> 0 \<Longrightarrow>
   capio_ioctl_handler K ops cmd req s = Some (EPERM, Inl req, s)"
  by (simp add: capio_ioctl_handler_def)

text \<open>A freshly initialised instance, the capability a process offers, and the session it opens.\<close>

definition ex_region :: "int \<Rightarrow> shared_mem_region" where
  "ex_region ty = \<lparr>sm_type = ty, sm_is_physical = False, sm_addr = 0x10000, sm_paddr = 0, sm_offset = 0,
     sm_len = 0x1000, sm_mapped = False, sm_is_sliced = False, sm_slices = [], sm_slice_def_len = 0\<rparr>"

definition ex_capio :: capio_softc where
  "ex_capio = \<lparr>sealing_key = create_sealing_key quiet_env 0x1234, original_cap = null_cap, sealed_cap = null_cap,
     cap_mtx = MtxFree, cap_mapped = False, shared_mem_regs = [ex_region 3, ex_region 4]\<rparr>"

definition ex_user_cap :: cap where
  "ex_user_cap = \<lparr>cap_tag = True, cap_base = 0x5000, cap_len = 16, cap_addr = 0x5000,
     cap_perms = {PERM_LOAD, PERM_STORE}, cap_otype = 0\<rparr>"

definition ex_token :: cap where
  "ex_token = ex_user_cap\<lparr>cap_otype := 0x5234\<rparr>"

definition ex_open :: capio_softc where
  "ex_open = ex_capio\<lparr>original_cap := ex_user_cap, sealed_cap := ex_token\<rparr>"

definition ex_header :: "capio_softc \<Rightarrow> capio_header" where
  "ex_header c = \<lparr>io = [], kres = {}, capio_sc = c\<rparr>"

definition idle_ops :: "(unit, unit, capio_header) capio_ops" where
  "idle_ops = \<lparr>op_ioctl = (\<lambda>_ s. Some (EINVAL, (), s)), op_is_dying = (\<lambda>s. Some (False, s)),
     op_get_buffer_size = (\<lambda>_ s. Some (0x1000, s))\<rparr>"

lemmas ex_capio_simps = ex_header_def ex_open_def ex_token_def ex_user_cap_def ex_capio_def ex_region_def
  create_sealing_key_def quiet_env_def cheri_setaddress_def cheri_setbounds_def cheri_seal_def can_seal_def
  can_unseal_def in_bounds_def null_cap_def is_null_def sealable_def sealing_key_ok_def

lemma ex_open_session:
  "session_inv ex_open" "\<not> is_null (sealed_cap ex_open)" "sealing_key_ok (sealing_key ex_open)"
  "sealable (original_cap ex_open)" "session_inv ex_capio" "cap_unlocked (ex_header c) = (cap_mtx c = MtxFree)"
  "sealing_key_ok (sealing_key ex_capio)" "cap_mtx ex_open = MtxFree"
  by (simp_all add: ex_capio_simps session_inv_def cap_unlocked_def)

lemma ex_header_simps [simp]: "capio_sc (ex_header c) = c" "kres (ex_header c) = {}" "io (ex_header c) = []"
  by (simp_all add: ex_header_def)

lemma ex_attach:
  "capio_ioctl_handler quiet_env idle_ops CAPIO_ATTACH \<lparr>req_user_cap = ex_user_cap, req_sealed_cap = c\<rparr> (ex_header ex_capio)
    = Some (0, Inl \<lparr>req_user_cap = ex_user_cap, req_sealed_cap = ex_token\<rparr>, ex_header ex_open)"
  by (simp add: capio_ioctl_handler_def set_cap_token_eq cap_unlocked_def ex_capio_simps capio_upd_def Let_def)

lemma ex_token_ok: "check_cap_token ex_open ex_token = 0"
  by (simp add: check_cap_token_session ex_open_session) (simp add: ex_open_def)





text \<open>The device is exclusive: \<open>CAPIO_ATTACH\<close> while a session is open returns \<open>EINVAL\<close> and changes
  nothing, whatever capability is offered; the token of the open session stays valid.\<close>

theorem attach_exclusive:
  assumes "cap_unlocked s" "\<not> is_null (sealed_cap (capio_sc s))"
  shows "capio_ioctl_handler K ops CAPIO_ATTACH req s = Some (EINVAL, Inl req, s)"
  using set_cap_token_eq [OF assms(1), of req] assms(2) by (simp add: capio_ioctl_handler_def)

theorem attach_exclusive_witness:
  "capio_ioctl_handler quiet_env idle_ops CAPIO_ATTACH \<lparr>req_user_cap = ex_user_cap, req_sealed_cap = null_cap\<rparr> (ex_header ex_open)
     = Some (EINVAL, Inl \<lparr>req_user_cap = ex_user_cap, req_sealed_cap = null_cap\<rparr>, ex_header ex_open)"
  by (rule attach_exclusive) (simp_all add: ex_open_session session_inv_unlocked)

text \<open>C21 \<open>CAPIO_GOODBYE\<close> with the token always returns and ends the session: afterwards every token,
  the old one included, is refused by \<open>ioctl\<close> and \<open>mmap\<close>, a new \<open>CAPIO_ATTACH\<close> succeeds, and the
  region lengths that \<open>capio_slice_length_callback\<close> reports are as before.\<close>

theorem goodbye_ends_session:
  assumes "session_inv (capio_sc s)" "check_cap_token (capio_sc s) (req_sealed_cap req) = 0"
  shows "\<exists>e s'. capio_ioctl_handler K ops CAPIO_GOODBYE req s = Some (e, Inl req, s')
    \<and> (\<forall>t. check_cap_token (capio_sc s') t = EINVAL)
    \<and> (\<forall>req'. \<not> is_null (req_user_cap req') \<longrightarrow>
         (\<exists>out s''. capio_ioctl_handler K ops CAPIO_ATTACH req' s' = Some (0, Inl out, s'')))
    \<and> map sm_len (shared_mem_regs (capio_sc s')) = map sm_len (shared_mem_regs (capio_sc s))
    \<and> kres s' = kres s"
proof -
  obtain e s' where r: "revoke_cap_token K s = Some (e, s')" "revoked (capio_upd drop_token s) s'"
      "cap_unlocked s'"
    using revoke_cap_token_total [OF session_inv_unlocked [OF assms(1)]] by blast
  note inv = session_inv_revoke [OF assms(1) r(1)]
  have "capio_ioctl_handler K ops CAPIO_GOODBYE req s = Some (e, Inl req, s')"
    using assms(2) r(1) by (simp add: capio_ioctl_handler_def)
  moreover have "\<forall>t. check_cap_token (capio_sc s') t = EINVAL"
    using inv(2) by (simp add: check_cap_token_def)
  moreover have "\<exists>out s''. capio_ioctl_handler K ops CAPIO_ATTACH req' s' = Some (0, Inl out, s'')"
    if "\<not> is_null (req_user_cap req')" for req'
    using that inv(2) by (simp add: capio_ioctl_handler_def set_cap_token_eq [OF r(3)] Let_def)
  moreover have "map sm_len (shared_mem_regs (capio_sc s')) = map sm_len (shared_mem_regs (capio_sc s))"
    using r(2) by (auto simp: revoked_def drop_token_def dest: same_regions_fields)
  ultimately show ?thesis using inv(3) by blast
qed

theorem goodbye_ends_session_witness:
  "\<exists>e s'. capio_ioctl_handler quiet_env idle_ops CAPIO_GOODBYE \<lparr>req_user_cap = ex_user_cap, req_sealed_cap = ex_token\<rparr>
            (ex_header ex_open) = Some (e, Inl \<lparr>req_user_cap = ex_user_cap, req_sealed_cap = ex_token\<rparr>, s')
    \<and> check_cap_token (capio_sc s') ex_token = EINVAL"
  using goodbye_ends_session [of "ex_header ex_open" "\<lparr>req_user_cap = ex_user_cap, req_sealed_cap = ex_token\<rparr>" quiet_env idle_ops]
    ex_token_ok ex_open_session(1)
  by auto

text \<open>C40 A session opened with an untagged (forged) capability has no secret: \<open>check_cap_token\<close> accepts
  the very bits the caller passed as \<open>user_cap\<close>, so the token is not unforgeable there.\<close>

theorem untagged_session_forgeable:
  assumes "cap_unlocked s" "is_null (sealed_cap (capio_sc s))"
    "\<not> is_null (req_user_cap req)" "\<not> cap_tag (req_user_cap req)"
  shows "\<exists>req' s'. capio_ioctl_handler K ops CAPIO_ATTACH req s = Some (0, Inl req', s')
    \<and> check_cap_token (capio_sc s') (req_user_cap req) = 0"
proof -
  have "cheri_unseal (req_user_cap req) k = req_user_cap req" for k
    using assms(4) by (simp add: cheri_unseal_def)
  then show ?thesis
    using assms by (simp add: capio_ioctl_handler_def set_cap_token_eq Let_def check_cap_token_def
        cheri_ptr_equal_exact_def)
qed

theorem untagged_session_forgeable_witness:
  "\<exists>req' s'. capio_ioctl_handler quiet_env idle_ops CAPIO_ATTACH
       \<lparr>req_user_cap = ex_user_cap\<lparr>cap_tag := False\<rparr>, req_sealed_cap = null_cap\<rparr> (ex_header ex_capio) = Some (0, Inl req', s')
    \<and> check_cap_token (capio_sc s') (ex_user_cap\<lparr>cap_tag := False\<rparr>) = 0"
  using untagged_session_forgeable [of "ex_header ex_capio" "\<lparr>req_user_cap = ex_user_cap\<lparr>cap_tag := False\<rparr>, req_sealed_cap = null_cap\<rparr>"
      quiet_env idle_ops]
  by (simp add: ex_capio_simps cap_unlocked_def)

section \<open>Properties of revocation and of the region table\<close>

lemma delete_mapping_ok:
  assumes "\<forall>h a b. vm_map_remove K h a b \<in> {0, 1}"
  shows "fst (delete_mapping_from_user K a l s) = 0"
  using assms by (simp add: delete_mapping_from_user_def Let_def)

lemma revoked_zero:
  assumes "revoked s s'" "i < length (shared_mem_regs (capio_sc s))" "sm_offset (shared_mem_regs (capio_sc s) ! i) = 0"
  shows "sm_offset (shared_mem_regs (capio_sc s') ! i) = 0"
  using assms by (auto simp: revoked_def list_all2_conv_all_nth same_region_def)

lemma revoked_length: "revoked s s' \<Longrightarrow> length (shared_mem_regs (capio_sc s')) = length (shared_mem_regs (capio_sc s))"
  unfolding revoked_def by (auto dest: list_all2_lengthD)

lemma check_cap_token_regs [simp]:
  "check_cap_token (c\<lparr>shared_mem_regs := rs\<rparr>) t = check_cap_token c t"
  "check_cap_token (c\<lparr>cap_mapped := b\<rparr>) t = check_cap_token c t"
  by (simp_all add: check_cap_token_def)

lemma session_inv_regs:
  "session_inv c \<Longrightarrow> \<not> list_ex sm_mapped rs \<Longrightarrow> session_inv (c\<lparr>shared_mem_regs := rs\<rparr>)"
  "session_inv c \<Longrightarrow> session_inv (c\<lparr>cap_mapped := True, shared_mem_regs := rs\<rparr>)"
  by (simp_all add: session_inv_def)

lemma revoke_regions_clears:
  assumes K: "\<forall>h a b. vm_map_remove K h a b \<in> {0, 1}"
  shows "cap_unlocked s \<Longrightarrow> set js \<subseteq> {..<length (shared_mem_regs (capio_sc s))} \<Longrightarrow>
    \<exists>s'. revoke_regions K js 0 s = Some (0, s') \<and> revoked s s'
       \<and> (\<forall>i \<in> set js. sm_offset (shared_mem_regs (capio_sc s') ! i) = 0)"
proof (induction js arbitrary: s)
  case Nil
  then show ?case by (simp add: revoked_refl)
next
  case (Cons i js)
  note u = Cons.prems(1)
  let ?r = "shared_mem_regs (capio_sc s) ! i"
  let ?d = "snd (delete_mapping_from_user K (sm_offset ?r) (sm_len ?r) s)"
  let ?f = "shared_mem_regs_update (\<lambda>rs. rs[i := (rs ! i)\<lparr>sm_offset := 0\<rparr>])"
  let ?n = "if sm_offset ?r = 0 then s else capio_upd ?f ?d"
  have ud: "cap_unlocked ?d" using u by (simp add: cap_unlocked_def)
  note d = delete_mapping_ok [OF K]
  have unl: "CAP_UNLOCK (capio_upd (\<lambda>c. ?f (c\<lparr>cap_mtx := MtxOwned\<rparr>)) ?d) = Some (capio_upd ?f ?d)"
    by (rule CAP_UNLOCK_eq) (simp_all add: ud)
  have step: "revoke_regions K (i # js) 0 s = revoke_regions K js 0 ?n"
    using unl by (simp add: CAP_LOCK_eq [OF u] CAP_LOCK_UNLOCK [OF u] CAP_LOCK_eq [OF ud] Let_def split_beta d)
  have rn: "revoked s ?n" by (simp add: revoked_def same_regions_clear)
  have zn: "sm_offset (shared_mem_regs (capio_sc ?n) ! i) = 0" using Cons.prems(2) by simp
  define n where "n = ?n"
  note n = step [folded n_def] rn [folded n_def] zn [folded n_def]
  have len: "set (i # js) \<subseteq> {..<length (shared_mem_regs (capio_sc n))}"
    using Cons.prems(2) revoked_length [OF n(2)] by simp
  obtain s' where s': "revoke_regions K js 0 n = Some (0, s')" "revoked n s'"
      "\<forall>i \<in> set js. sm_offset (shared_mem_regs (capio_sc s') ! i) = 0"
    using Cons.IH [OF revoked_unlocked [OF n(2) u]] len by auto
  have "sm_offset (shared_mem_regs (capio_sc s') ! i) = 0"
    using revoked_zero [OF s'(2) _ n(3)] len by simp
  with s' n(1) revoked_trans [OF n(2) s'(2)] show ?case by (simp del: revoke_regions.simps)
qed

text \<open>When every unmapping the kernel is asked for works or finds the mapping gone already,
  \<open>CAPIO_GOODBYE\<close> returns 0 and no region keeps a user address: all mappings are forgotten.\<close>

theorem goodbye_clears_mappings:
  assumes "session_inv (capio_sc s)" "check_cap_token (capio_sc s) (req_sealed_cap req) = 0"
    "\<forall>h a b. vm_map_remove K h a b \<in> {0, 1}"
  shows "\<exists>s'. capio_ioctl_handler K ops CAPIO_GOODBYE req s = Some (0, Inl req, s')
    \<and> list_all (\<lambda>r. sm_offset r = 0) (shared_mem_regs (capio_sc s'))"
proof -
  note u = session_inv_unlocked [OF assms(1)]
  have un: "cap_unlocked (capio_upd drop_token s)"
    using u by (simp add: cap_unlocked_def drop_token_def)
  have lu: "CAP_UNLOCK (capio_upd (\<lambda>c. drop_token (c\<lparr>cap_mtx := MtxOwned\<rparr>)) s) = Some (capio_upd drop_token s)"
    by (rule CAP_UNLOCK_eq) (simp_all add: u drop_token_def)
  let ?n = "length (shared_mem_regs (capio_sc s))"
  obtain s' where r: "revoke_regions K [0..<?n] 0 (capio_upd drop_token s) = Some (0, s')"
      "revoked (capio_upd drop_token s) s'"
      "\<forall>i \<in> set [0..<?n]. sm_offset (shared_mem_regs (capio_sc s') ! i) = 0"
    using revoke_regions_clears [OF assms(3) un, of "[0..<?n]"]
    by (auto simp: drop_token_def lessThan_atLeast0)
  have "revoke_cap_token K s = Some (0, s')"
    using lu r(1) by (simp add: revoke_cap_token_def CAP_LOCK_eq [OF u] drop_token_def)
  moreover have "list_all (\<lambda>r. sm_offset r = 0) (shared_mem_regs (capio_sc s'))"
    using r(3) revoked_length [OF r(2)] by (simp add: list_all_length drop_token_def)
  ultimately show ?thesis using assms(2) by (simp add: capio_ioctl_handler_def)
qed

theorem goodbye_clears_mappings_witness:
  "\<exists>s'. capio_ioctl_handler quiet_env idle_ops CAPIO_GOODBYE \<lparr>req_user_cap = ex_user_cap, req_sealed_cap = ex_token\<rparr>
          (ex_header (ex_open\<lparr>shared_mem_regs := [(ex_region 3)\<lparr>sm_offset := 0x7000\<rparr>]\<rparr>))
        = Some (0, Inl \<lparr>req_user_cap = ex_user_cap, req_sealed_cap = ex_token\<rparr>, s')
      \<and> list_all (\<lambda>r. sm_offset r = 0) (shared_mem_regs (capio_sc s'))"
proof (rule goodbye_clears_mappings)
  show "\<forall>h a b. vm_map_remove quiet_env h a b \<in> {0, 1}" by (simp add: quiet_env_def)
qed (simp_all add: ex_open_session(1) ex_token_ok session_inv_regs(1) ex_region_def)

text \<open>The value \<open>CAPIO_GOODBYE\<close> returns is that of the last region whose unmapping was tried: an
  earlier failure is masked.  With an environment that fails to unmap the first region's range,
  the call returns 0 and that region still records its user address.\<close>

theorem goodbye_masks_errors:
  "\<exists>K s'. capio_ioctl_handler K idle_ops CAPIO_GOODBYE \<lparr>req_user_cap = ex_user_cap, req_sealed_cap = ex_token\<rparr>
          (ex_header (ex_open\<lparr>shared_mem_regs := [(ex_region 3)\<lparr>sm_offset := 0x7000\<rparr>, (ex_region 4)\<lparr>sm_offset := 0x9000\<rparr>]\<rparr>))
        = Some (0, Inl \<lparr>req_user_cap = ex_user_cap, req_sealed_cap = ex_token\<rparr>, s')
      \<and> map sm_offset (shared_mem_regs (capio_sc s')) = [0x7000, 0]"
proof (intro exI [of _ "quiet_env\<lparr>vm_map_remove := \<lambda>h a b. if a = 0x7000 then 5 else 0\<rparr>"])
  let ?K = "quiet_env\<lparr>vm_map_remove := \<lambda>h a b. if a = 0x7000 then 5 else 0\<rparr>"
  let ?c = "ex_open\<lparr>shared_mem_regs := [(ex_region 3)\<lparr>sm_offset := 0x7000\<rparr>, (ex_region 4)\<lparr>sm_offset := 0x9000\<rparr>]\<rparr>"
  have "check_cap_token ?c ex_token = 0" using ex_token_ok by simp
  then show "\<exists>s'. capio_ioctl_handler ?K idle_ops CAPIO_GOODBYE \<lparr>req_user_cap = ex_user_cap, req_sealed_cap = ex_token\<rparr>
      (ex_header ?c) = Some (0, Inl \<lparr>req_user_cap = ex_user_cap, req_sealed_cap = ex_token\<rparr>, s')
      \<and> map sm_offset (shared_mem_regs (capio_sc s')) = [0x7000, 0]"
    by (simp add: capio_ioctl_handler_def revoke_cap_token_def CAP_LOCK_def CAP_UNLOCK_def capio_upd_def
        ex_open_session(8) ex_header_def upt_rec delete_mapping_from_user_def quiet_env_def emit_def ex_region_def Let_def)
qed

text \<open>When the pager destroys the object of a region, that region is unmapped, every other region
  keeps its flag, the device-wide flag says exactly whether some region is still mapped, and the
  handle is given back.\<close>

theorem pager_dtor_exact:
  assumes "session_inv (capio_sc s)" "KHandle hid \<in> kres s"
  shows "\<exists>s'. capio_pager_dtor hid ty s = Some s'
    \<and> map sm_mapped (shared_mem_regs (capio_sc s'))
        = map (\<lambda>r. sm_type r \<noteq> ty \<and> sm_mapped r) (shared_mem_regs (capio_sc s))
    \<and> cap_mapped (capio_sc s') = list_ex sm_mapped (shared_mem_regs (capio_sc s'))
    \<and> kres s' = kres s - {KHandle hid}"
proof -
  obtain s' where s': "capio_pager_dtor hid ty s = Some s'"
    using assms by (simp add: capio_pager_dtor_eq session_inv_unlocked release_def)
  then have "shared_mem_regs (capio_sc s') = set_mapped ty False (shared_mem_regs (capio_sc s))"
      "kres s' = kres s - {KHandle hid}"
    using assms by (auto simp: capio_pager_dtor_eq session_inv_unlocked release_def emit_def split: if_splits)
  then show ?thesis
    using s' session_inv_dtor(2) [OF assms(1) s'] by (auto simp: set_mapped_def)
qed

theorem pager_dtor_exact_witness:
  "\<exists>s'. capio_pager_dtor 7 3 ((ex_header (ex_open\<lparr>cap_mapped := True, shared_mem_regs := [(ex_region 3)\<lparr>sm_mapped := True\<rparr>]\<rparr>))
          \<lparr>kres := {KHandle 7}\<rparr>) = Some s'
      \<and> \<not> cap_mapped (capio_sc s') \<and> kres s' = {}"
  using pager_dtor_exact [of "(ex_header (ex_open\<lparr>cap_mapped := True, shared_mem_regs := [(ex_region 3)\<lparr>sm_mapped := True\<rparr>]\<rparr>))
          \<lparr>kres := {KHandle 7}\<rparr>" 7 3] session_inv_regs(2) [OF ex_open_session(1)]
  by (simp add: ex_header_def) (auto simp: ex_region_def list_ex_mapped)

end
