(* ===== verification/Mmio.thy ===== *)
theory Mmio
  imports Capio
begin

text \<open>
  Register map, queue geometry, region and slice numbering, and the slice manifest that bounds
  what userspace can reach of BAR2: \<open>sfc7120_mmio.h\<close>, \<open>sfc7120_mmio.c\<close>, \<open>sfc7120_uapi.h\<close>,
  \<open>sfc7120_tables.c\<close>.
\<close>

section \<open>Queue geometry and numbering (\<open>sfc7120_uapi.h\<close>)\<close>

abbreviation (input) SFC7120_NUM_TX_DESC :: nat where "SFC7120_NUM_TX_DESC \<equiv> 512"
abbreviation (input) SFC7120_NUM_RX_DESC :: nat where "SFC7120_NUM_RX_DESC \<equiv> 512"
abbreviation (input) SFC7120_NUM_EVQ_ENTRY :: nat where "SFC7120_NUM_EVQ_ENTRY \<equiv> 512"
abbreviation (input) SFC7120_TX_BUFFER_SIZE :: nat where "SFC7120_TX_BUFFER_SIZE \<equiv> 2048"
abbreviation (input) SFC7120_RX_BUFFER_SIZE :: nat where "SFC7120_RX_BUFFER_SIZE \<equiv> 2048"
abbreviation (input) SFC7120_EVQ_ENTRY_SIZE :: nat where "SFC7120_EVQ_ENTRY_SIZE \<equiv> 8"
abbreviation (input) SFC7120_TX_DESC_SIZE :: nat where "SFC7120_TX_DESC_SIZE \<equiv> 8"
abbreviation (input) SFC7120_RX_DESC_SIZE :: nat where "SFC7120_RX_DESC_SIZE \<equiv> 8"

datatype sfc7120_vm_map_type =
    SFC7120_TX_BUFFER | SFC7120_RX_BUFFER | SFC7120_MMIO_REGION
  | SFC7120_TX_DESC_RING | SFC7120_RX_DESC_RING | SFC7120_EVQ_RING

definition map_types :: "sfc7120_vm_map_type list" where
  "map_types = [SFC7120_TX_BUFFER, SFC7120_RX_BUFFER, SFC7120_MMIO_REGION,
                SFC7120_TX_DESC_RING, SFC7120_RX_DESC_RING, SFC7120_EVQ_RING]"

fun map_type_code :: "sfc7120_vm_map_type \<Rightarrow> int" where
  "map_type_code SFC7120_TX_BUFFER = 0"
| "map_type_code SFC7120_RX_BUFFER = 1"
| "map_type_code SFC7120_MMIO_REGION = 2"
| "map_type_code SFC7120_TX_DESC_RING = 3"
| "map_type_code SFC7120_RX_DESC_RING = 4"
| "map_type_code SFC7120_EVQ_RING = 5"

abbreviation (input) SFC7120_REGION_COUNT :: nat where "SFC7120_REGION_COUNT \<equiv> 6"

datatype sfc7120_mmio_slice_idx =
    SFC7120_SLICE_MC_DOORBELL | SFC7120_SLICE_DATA_EVQ_RPTR_DBL | SFC7120_SLICE_RX_DESC_DBL
  | SFC7120_SLICE_TX_DESC_DBL | SFC7120_SLICE_HW_REV_ID

fun slice_idx :: "sfc7120_mmio_slice_idx \<Rightarrow> nat" where
  "slice_idx SFC7120_SLICE_MC_DOORBELL = 0"
| "slice_idx SFC7120_SLICE_DATA_EVQ_RPTR_DBL = 1"
| "slice_idx SFC7120_SLICE_RX_DESC_DBL = 2"
| "slice_idx SFC7120_SLICE_TX_DESC_DBL = 3"
| "slice_idx SFC7120_SLICE_HW_REV_ID = 4"

section \<open>Registers (\<open>sfc7120_mmio.h\<close>)\<close>

abbreviation (input) SFC7120_REG_MCDB :: u64 where "SFC7120_REG_MCDB \<equiv> 0x0200"
abbreviation (input) SFC7120_REG_BIU_HW_REV_ID :: u64 where "SFC7120_REG_BIU_HW_REV_ID \<equiv> 0x0000"
abbreviation (input) SFC7120_VI_WINDOW_SHIFT :: nat where "SFC7120_VI_WINDOW_SHIFT \<equiv> 13"
abbreviation (input) SFC7120_REG_EVQ_RPTR_DBL :: u64 where "SFC7120_REG_EVQ_RPTR_DBL \<equiv> 0x0400"
abbreviation (input) SFC7120_REG_RX_DESC_DBL :: u64 where "SFC7120_REG_RX_DESC_DBL \<equiv> 0x0830"
abbreviation (input) SFC7120_REG_TX_DESC_DBL :: u64 where "SFC7120_REG_TX_DESC_DBL \<equiv> 0x0a10"
abbreviation (input) SFC7120_EVQ_RPTR_MASK :: u32 where "SFC7120_EVQ_RPTR_MASK \<equiv> 0x7fff"
abbreviation (input) SFC7120_DATA_EVQ_INSTANCE :: u32 where "SFC7120_DATA_EVQ_INSTANCE \<equiv> 1"
abbreviation (input) SFC7120_RXQ_INSTANCE :: u32 where "SFC7120_RXQ_INSTANCE \<equiv> 0"
abbreviation (input) SFC7120_TXQ_INSTANCE :: u32 where "SFC7120_TXQ_INSTANCE \<equiv> 0"

definition SFC7120_VI_WINDOW :: "u32 \<Rightarrow> u64" where
  "SFC7120_VI_WINDOW inst = push_bit SFC7120_VI_WINDOW_SHIFT (ucast inst)"

definition SFC7120_REG_TX_WPTR_DBL :: u64 where
  "SFC7120_REG_TX_WPTR_DBL = SFC7120_REG_TX_DESC_DBL + 8"

definition SFC7120_REG_DATA_EVQ_RPTR_DBL :: u64 where
  "SFC7120_REG_DATA_EVQ_RPTR_DBL = SFC7120_VI_WINDOW SFC7120_DATA_EVQ_INSTANCE + SFC7120_REG_EVQ_RPTR_DBL"

definition SFC7120_REG_DATA_RX_DESC_DBL :: u64 where
  "SFC7120_REG_DATA_RX_DESC_DBL = SFC7120_VI_WINDOW SFC7120_RXQ_INSTANCE + SFC7120_REG_RX_DESC_DBL"

definition SFC7120_REG_DATA_TX_DESC_DBL :: u64 where
  "SFC7120_REG_DATA_TX_DESC_DBL = SFC7120_VI_WINDOW SFC7120_TXQ_INSTANCE + SFC7120_REG_TX_DESC_DBL"

definition SFC7120_REG_DATA_TX_WPTR_DBL :: u64 where
  "SFC7120_REG_DATA_TX_WPTR_DBL = SFC7120_REG_DATA_TX_DESC_DBL + 8"

text \<open>The registers only the kernel uses (\<open>sfc7120_mcdi.c\<close>).\<close>

abbreviation (input) EF10_REG_BIU_HW_REV_ID :: u64 where "EF10_REG_BIU_HW_REV_ID \<equiv> 0x0000"
abbreviation (input) EF10_REG_BIU_MC_SFT_STATUS :: u64 where "EF10_REG_BIU_MC_SFT_STATUS \<equiv> 0x0010"
abbreviation (input) EF10_REG_MC_DB_LWRD :: u64 where "EF10_REG_MC_DB_LWRD \<equiv> 0x0200"
abbreviation (input) EF10_REG_MC_DB_HWRD :: u64 where "EF10_REG_MC_DB_HWRD \<equiv> 0x0204"
abbreviation (input) EF10_REG_BIU_HW_REV_ID_RESET :: u32 where "EF10_REG_BIU_HW_REV_ID_RESET \<equiv> 0xeb14face"

lemma reg_values [simp]:
  "SFC7120_REG_DATA_EVQ_RPTR_DBL = 0x2400" "SFC7120_REG_DATA_RX_DESC_DBL = 0x0830"
  "SFC7120_REG_DATA_TX_DESC_DBL = 0x0a10" "SFC7120_REG_DATA_TX_WPTR_DBL = 0x0a18"
  "SFC7120_REG_TX_WPTR_DBL = 0x0a18"
  by (simp_all add: SFC7120_REG_DATA_EVQ_RPTR_DBL_def SFC7120_REG_DATA_RX_DESC_DBL_def
      SFC7120_REG_DATA_TX_DESC_DBL_def SFC7120_REG_DATA_TX_WPTR_DBL_def SFC7120_REG_TX_WPTR_DBL_def
      SFC7120_VI_WINDOW_def)

text \<open>\<open>sfc7120_dump_regs\<close> reads the identity register; what it prints is whether the read is live.\<close>

definition sfc7120_dump_regs :: "env \<Rightarrow> 'a world_scheme \<Rightarrow> bool \<times> 'a world_scheme" where
  "sfc7120_dump_regs K s =
     (let (hw_rev_id, s) = SFC7120_READ_REG K SFC7120_REG_BIU_HW_REV_ID s
      in (hw_rev_id = 0xeb14face, s))"

section \<open>The slice manifest (\<open>sfc7120_tables.c\<close>)\<close>

definition sfc7120_reg_slices :: "slice_def list" where
  "sfc7120_reg_slices =
    [ \<lparr>slice_offset = SFC7120_REG_MCDB, slice_name = ''MC_DOORBELL'', slice_read_only = False, slice_length = 4\<rparr>,
      \<lparr>slice_offset = SFC7120_REG_DATA_EVQ_RPTR_DBL, slice_name = ''DATA_EVQ_RPTR_DBL'', slice_read_only = False, slice_length = 4\<rparr>,
      \<lparr>slice_offset = SFC7120_REG_DATA_RX_DESC_DBL, slice_name = ''RX_DESC_DBL'', slice_read_only = False, slice_length = 4\<rparr>,
      \<lparr>slice_offset = SFC7120_REG_DATA_TX_DESC_DBL, slice_name = ''TX_DESC_DBL'', slice_read_only = False, slice_length = 12\<rparr>,
      \<lparr>slice_offset = SFC7120_REG_BIU_HW_REV_ID, slice_name = ''HW_REV_ID'', slice_read_only = True, slice_length = 4\<rparr> ]"

definition SFC7120_MMIO_SLICE_COUNT :: nat where
  "SFC7120_MMIO_SLICE_COUNT = length sfc7120_reg_slices"

text \<open>The byte offsets of BAR2 a slice covers, and where an access through slice capability \<open>i\<close>
  at byte \<open>o\<close> lands: outside its bounds it traps.\<close>

definition slice_bytes :: "slice_def \<Rightarrow> nat set" where
  "slice_bytes d = {unat (slice_offset d) ..< unat (slice_offset d) + unat (slice_length d)}"

definition slice_store :: "slice_def list \<Rightarrow> nat \<Rightarrow> nat \<Rightarrow> u64 option" where
  "slice_store ds i b =
     (if i < length ds \<and> \<not> slice_read_only (ds ! i) \<and> b + 4 \<le> unat (slice_length (ds ! i))
      then Some (slice_offset (ds ! i) + of_nat b) else None)"

definition writable_offsets :: "slice_def list \<Rightarrow> nat set" where
  "writable_offsets ds = (\<Union>d \<in> set (filter (\<lambda>d. \<not> slice_read_only d) ds). slice_bytes d)"

section \<open>Ring steps\<close>

definition evq_next :: "nat \<Rightarrow> nat" where
  "evq_next i = (i + 1) AND (SFC7120_NUM_EVQ_ENTRY - 1)"

definition tx_next :: "nat \<Rightarrow> nat" where
  "tx_next i = (i + 1) AND (SFC7120_NUM_TX_DESC - 1)"

definition rx_next :: "nat \<Rightarrow> nat" where
  "rx_next i = (i + 1) AND (SFC7120_NUM_RX_DESC - 1)"

interpretation evq_ring: ring 512 evq_next
  by unfold_locales (simp_all add: evq_next_def and_511)

interpretation tx_ring: ring 512 tx_next
  by unfold_locales (simp_all add: tx_next_def and_511)

interpretation rx_ring: ring 512 rx_next
  by unfold_locales (simp_all add: rx_next_def and_511)

section \<open>What the manifest exposes\<close>

lemma slice_bytes_values:
  "map slice_bytes sfc7120_reg_slices =
     [{0x200..<0x204}, {0x2400..<0x2404}, {0x830..<0x834}, {0xa10..<0xa1c}, {0..<4}]"
  by (simp add: sfc7120_reg_slices_def slice_bytes_def)

text \<open>The slices of the manifest are pairwise disjoint, dword-aligned, a whole number of dwords
  long and lie within the first two 8 KB VI windows, and their order is the index that
  \<open>sfc7120_mmio_slice_idx_t\<close> gives to userspace.\<close>

theorem slice_manifest_wf:
  "length sfc7120_reg_slices = SFC7120_MMIO_SLICE_COUNT
   \<and> (\<forall>i < SFC7120_MMIO_SLICE_COUNT. \<forall>j < i. slice_bytes (sfc7120_reg_slices ! i) \<inter> slice_bytes (sfc7120_reg_slices ! j) = {})
   \<and> list_all (\<lambda>d. unat (slice_offset d) mod 4 = 0 \<and> unat (slice_length d) mod 4 = 0 \<and> 0 < unat (slice_length d)
        \<and> slice_bytes d \<subseteq> {..<2 * 2 ^ SFC7120_VI_WINDOW_SHIFT}) sfc7120_reg_slices
   \<and> slice_offset (sfc7120_reg_slices ! slice_idx SFC7120_SLICE_MC_DOORBELL) = EF10_REG_MC_DB_LWRD
   \<and> slice_offset (sfc7120_reg_slices ! slice_idx SFC7120_SLICE_DATA_EVQ_RPTR_DBL) = SFC7120_REG_DATA_EVQ_RPTR_DBL
   \<and> slice_offset (sfc7120_reg_slices ! slice_idx SFC7120_SLICE_RX_DESC_DBL) = SFC7120_REG_DATA_RX_DESC_DBL
   \<and> slice_offset (sfc7120_reg_slices ! slice_idx SFC7120_SLICE_TX_DESC_DBL) = SFC7120_REG_DATA_TX_DESC_DBL
   \<and> slice_offset (sfc7120_reg_slices ! slice_idx SFC7120_SLICE_HW_REV_ID) = SFC7120_REG_BIU_HW_REV_ID"
proof -
  have five: "SFC7120_MMIO_SLICE_COUNT = 5"
    by (simp add: SFC7120_MMIO_SLICE_COUNT_def sfc7120_reg_slices_def)
  have disjoint: "slice_bytes (sfc7120_reg_slices ! i) \<inter> slice_bytes (sfc7120_reg_slices ! j) = {}" if "i < 5" "j < i" for i j
  proof -
    let ?B = "map slice_bytes sfc7120_reg_slices"
    have nth: "slice_bytes (sfc7120_reg_slices ! k) = ?B ! k" if "k < 5" for k
      using that five by (simp add: SFC7120_MMIO_SLICE_COUNT_def)
    have "(i, j) \<in> set [(1,0),(2,0),(2,1),(3,0),(3,1),(3,2),(4,0),(4,1),(4,2),(4,3)]"
      using that by simp presburger
    moreover have "list_all (\<lambda>(i, j). ?B ! i \<inter> ?B ! j = {})
        [(1,0),(2,0),(2,1),(3,0),(3,1),(3,2),(4,0),(4,1),(4,2),(4,3)]"
      unfolding slice_bytes_values by simp
    ultimately have "?B ! i \<inter> ?B ! j = {}" unfolding list_all_iff by blast
    then show ?thesis using nth [of i] nth [of j] that by simp
  qed
  show ?thesis
    unfolding five
  proof (intro conjI allI impI, goal_cases)
    case (2 i j)
    then show ?case by (rule disjoint)
  qed (auto simp: sfc7120_reg_slices_def slice_bytes_def)
qed

theorem slice_manifest_wf_witness:
  "slice_bytes (sfc7120_reg_slices ! slice_idx SFC7120_SLICE_TX_DESC_DBL)
     \<inter> slice_bytes (sfc7120_reg_slices ! slice_idx SFC7120_SLICE_RX_DESC_DBL) = {}"
proof -
  have "slice_idx SFC7120_SLICE_TX_DESC_DBL < SFC7120_MMIO_SLICE_COUNT"
    by (simp add: SFC7120_MMIO_SLICE_COUNT_def sfc7120_reg_slices_def)
  with slice_manifest_wf show ?thesis by simp
qed


end
