(* ===== verification/Softc.thy ===== *)
theory Softc
  imports Mmio
begin

text \<open>
  The driver's per-instance state, \<open>sfc7120_softc_t\<close> of \<open>sfc7120.h\<close>, as an extension of the CAPIO
  header.  Each of the seven DMA buffers is described by its tag, its kernel address (0 is NULL)
  and its bus address; the contents of rings and buffers are functions from index to entry.
  Accesses to them go through the checked accessors below: an access through a NULL pointer or
  past the end of the allocation is a capability fault, \<open>None\<close>.  Bus tags and handles, selinfo and
  the fields no function reads (\<open>tx_tail\<close>, \<open>tx_descriptors_free\<close>, the buffer info pointers, the task
  queue, \<open>mapped\<close> flags) are left out, and so is console output.
\<close>

record dmabuf =
  dm_tag :: bool
  dm_vaddr :: u64
  dm_paddr :: u64

definition no_dmabuf :: dmabuf where
  "no_dmabuf = \<lparr>dm_tag = False, dm_vaddr = 0, dm_paddr = 0\<rparr>"

record sfc7120_softc = capio_header +
  mem_resource :: "(u64 \<times> u64) option"
  mac_addr :: "u8 list"
  msix_bar_resource :: bool
  msix_nvec :: int
  irq_resource :: bool
  irq_handle :: bool
  intr_initialized :: bool
  dma :: "dma_id \<Rightarrow> dmabuf"
  evq_ring :: "nat \<Rightarrow> u64"
  evq_read_ptr :: nat
  data_evq_ring :: "nat \<Rightarrow> u64"
  data_evq_read_ptr :: nat
  tx_desc_ring :: "nat \<Rightarrow> u64"
  tx_buffer :: "nat \<Rightarrow> u8"
  tx_head :: nat
  rx_received :: bool
  rx_mtx :: mtx
  rx_desc_ring :: "nat \<Rightarrow> u64"
  rx_buffer :: "nat \<Rightarrow> u8"
  rx_head :: nat
  device_attached :: bool
  cdev :: bool
  sc_mtx :: mtx
  dying :: bool
  mcdi_buf :: "nat \<Rightarrow> u8"
  mcdi_mtx :: mtx
  mcdi_seq :: u8
  mcdi_new_epoch :: bool
  mcdi_initialized :: bool
  mcdi_prev_reboot_status :: u32
  mcdi_func_flags :: u32
  vi_base :: u32
  vi_count :: u32
  mcdi_cap_flags1 :: u32
  mcdi_caps_valid :: bool
  fw_version :: "u32 \<times> u32"
  drv_attached :: bool
  vis_allocated :: bool
  evq_initialized :: bool
  data_evq_initialized :: bool
  vadaptor_allocated :: bool
  rxq_initialized :: bool
  txq_initialized :: bool
  phy_supported_cap_mask :: u32
  phy_adv_cap_mask :: u32
  phy_media_type :: u32
  link_up :: bool
  full_duplex :: bool
  link_speed_mbps :: u32
  link_fcntl :: u32
  mac_configured :: bool
  link_configured :: bool
  rx_filter_handle :: u64
  rx_filter_inserted :: bool

type_synonym softc = sfc7120_softc

text \<open>The zero-filled softc a device instance starts with.\<close>

definition zero_softc :: softc where
  "zero_softc = \<lparr>
     io = [], kres = {},
     capio_sc = \<lparr>sealing_key = null_cap, original_cap = null_cap, sealed_cap = null_cap,
                 cap_mtx = MtxAbsent, cap_mapped = False, shared_mem_regs = []\<rparr>,
     mem_resource = None, mac_addr = replicate 6 0,
     msix_bar_resource = False, msix_nvec = 0, irq_resource = False, irq_handle = False,
     intr_initialized = False, dma = (\<lambda>_. no_dmabuf),
     evq_ring = (\<lambda>_. 0), evq_read_ptr = 0, data_evq_ring = (\<lambda>_. 0), data_evq_read_ptr = 0,
     tx_desc_ring = (\<lambda>_. 0), tx_buffer = (\<lambda>_. 0), tx_head = 0,
     rx_received = False, rx_mtx = MtxAbsent,
     rx_desc_ring = (\<lambda>_. 0), rx_buffer = (\<lambda>_. 0), rx_head = 0,
     device_attached = False, cdev = False, sc_mtx = MtxAbsent, dying = False,
     mcdi_buf = (\<lambda>_. 0), mcdi_mtx = MtxAbsent, mcdi_seq = 0, mcdi_new_epoch = False,
     mcdi_initialized = False, mcdi_prev_reboot_status = 0, mcdi_func_flags = 0,
     vi_base = 0, vi_count = 0, mcdi_cap_flags1 = 0, mcdi_caps_valid = False, fw_version = (0, 0),
     drv_attached = False, vis_allocated = False, evq_initialized = False,
     data_evq_initialized = False, vadaptor_allocated = False, rxq_initialized = False,
     txq_initialized = False, phy_supported_cap_mask = 0, phy_adv_cap_mask = 0, phy_media_type = 0,
     link_up = False, full_duplex = False, link_speed_mbps = 0, link_fcntl = 0,
     mac_configured = False, link_configured = False, rx_filter_handle = 0, rx_filter_inserted = False \<rparr>"

definition dma_mapped :: "dma_id \<Rightarrow> softc \<Rightarrow> bool" where
  "dma_mapped d s \<longleftrightarrow> dm_vaddr (dma s d) \<noteq> 0"

section \<open>Locks\<close>

definition SFC7120_LOCK :: "softc \<Rightarrow> softc option" where
  "SFC7120_LOCK s = do { m \<leftarrow> mtx_lock (sc_mtx s); Some (s\<lparr>sc_mtx := m\<rparr>) }"

definition SFC7120_UNLOCK :: "softc \<Rightarrow> softc option" where
  "SFC7120_UNLOCK s = do { m \<leftarrow> mtx_unlock (sc_mtx s); Some (s\<lparr>sc_mtx := m\<rparr>) }"

definition SFC7120_RX_LOCK :: "softc \<Rightarrow> softc option" where
  "SFC7120_RX_LOCK s = do { m \<leftarrow> mtx_lock (rx_mtx s); Some (s\<lparr>rx_mtx := m\<rparr>) }"

definition SFC7120_RX_UNLOCK :: "softc \<Rightarrow> softc option" where
  "SFC7120_RX_UNLOCK s = do { m \<leftarrow> mtx_unlock (rx_mtx s); Some (s\<lparr>rx_mtx := m\<rparr>) }"

definition SFC7120_MCDI_LOCK :: "softc \<Rightarrow> softc option" where
  "SFC7120_MCDI_LOCK s = do { m \<leftarrow> mtx_lock (mcdi_mtx s); Some (s\<lparr>mcdi_mtx := m\<rparr>) }"

definition SFC7120_MCDI_UNLOCK :: "softc \<Rightarrow> softc option" where
  "SFC7120_MCDI_UNLOCK s = do { m \<leftarrow> mtx_unlock (mcdi_mtx s); Some (s\<lparr>mcdi_mtx := m\<rparr>) }"

lemma lock_eqs [simp]:
  "sc_mtx s = MtxFree \<Longrightarrow> SFC7120_LOCK s = Some (s\<lparr>sc_mtx := MtxOwned\<rparr>)"
  "sc_mtx s = MtxOwned \<Longrightarrow> SFC7120_UNLOCK s = Some (s\<lparr>sc_mtx := MtxFree\<rparr>)"
  "rx_mtx s = MtxFree \<Longrightarrow> SFC7120_RX_LOCK s = Some (s\<lparr>rx_mtx := MtxOwned\<rparr>)"
  "rx_mtx s = MtxOwned \<Longrightarrow> SFC7120_RX_UNLOCK s = Some (s\<lparr>rx_mtx := MtxFree\<rparr>)"
  "mcdi_mtx s = MtxFree \<Longrightarrow> SFC7120_MCDI_LOCK s = Some (s\<lparr>mcdi_mtx := MtxOwned\<rparr>)"
  "mcdi_mtx s = MtxOwned \<Longrightarrow> SFC7120_MCDI_UNLOCK s = Some (s\<lparr>mcdi_mtx := MtxFree\<rparr>)"
  by (simp_all add: SFC7120_LOCK_def SFC7120_UNLOCK_def SFC7120_RX_LOCK_def SFC7120_RX_UNLOCK_def
      SFC7120_MCDI_LOCK_def SFC7120_MCDI_UNLOCK_def)

text \<open>Normal form of updates: the history and the held resources innermost.\<close>

lemma io_inner [simp]:
  "(mem_resource_update f1 (s :: softc))\<lparr>io := h\<rparr> = mem_resource_update f1 (s\<lparr>io := h\<rparr>)"
  "(mac_addr_update f2 (s :: softc))\<lparr>io := h\<rparr> = mac_addr_update f2 (s\<lparr>io := h\<rparr>)"
  "(msix_bar_resource_update f3 (s :: softc))\<lparr>io := h\<rparr> = msix_bar_resource_update f3 (s\<lparr>io := h\<rparr>)"
  "(msix_nvec_update f4 (s :: softc))\<lparr>io := h\<rparr> = msix_nvec_update f4 (s\<lparr>io := h\<rparr>)"
  "(irq_resource_update f5 (s :: softc))\<lparr>io := h\<rparr> = irq_resource_update f5 (s\<lparr>io := h\<rparr>)"
  "(irq_handle_update f6 (s :: softc))\<lparr>io := h\<rparr> = irq_handle_update f6 (s\<lparr>io := h\<rparr>)"
  "(intr_initialized_update f7 (s :: softc))\<lparr>io := h\<rparr> = intr_initialized_update f7 (s\<lparr>io := h\<rparr>)"
  "(dma_update f8 (s :: softc))\<lparr>io := h\<rparr> = dma_update f8 (s\<lparr>io := h\<rparr>)"
  "(evq_ring_update f9 (s :: softc))\<lparr>io := h\<rparr> = evq_ring_update f9 (s\<lparr>io := h\<rparr>)"
  "(evq_read_ptr_update f10 (s :: softc))\<lparr>io := h\<rparr> = evq_read_ptr_update f10 (s\<lparr>io := h\<rparr>)"
  "(data_evq_ring_update f11 (s :: softc))\<lparr>io := h\<rparr> = data_evq_ring_update f11 (s\<lparr>io := h\<rparr>)"
  "(data_evq_read_ptr_update f12 (s :: softc))\<lparr>io := h\<rparr> = data_evq_read_ptr_update f12 (s\<lparr>io := h\<rparr>)"
  "(tx_desc_ring_update f13 (s :: softc))\<lparr>io := h\<rparr> = tx_desc_ring_update f13 (s\<lparr>io := h\<rparr>)"
  "(tx_buffer_update f14 (s :: softc))\<lparr>io := h\<rparr> = tx_buffer_update f14 (s\<lparr>io := h\<rparr>)"
  "(tx_head_update f15 (s :: softc))\<lparr>io := h\<rparr> = tx_head_update f15 (s\<lparr>io := h\<rparr>)"
  "(rx_received_update f16 (s :: softc))\<lparr>io := h\<rparr> = rx_received_update f16 (s\<lparr>io := h\<rparr>)"
  "(rx_mtx_update f17 (s :: softc))\<lparr>io := h\<rparr> = rx_mtx_update f17 (s\<lparr>io := h\<rparr>)"
  "(rx_desc_ring_update f18 (s :: softc))\<lparr>io := h\<rparr> = rx_desc_ring_update f18 (s\<lparr>io := h\<rparr>)"
  "(rx_buffer_update f19 (s :: softc))\<lparr>io := h\<rparr> = rx_buffer_update f19 (s\<lparr>io := h\<rparr>)"
  "(rx_head_update f20 (s :: softc))\<lparr>io := h\<rparr> = rx_head_update f20 (s\<lparr>io := h\<rparr>)"
  "(device_attached_update f21 (s :: softc))\<lparr>io := h\<rparr> = device_attached_update f21 (s\<lparr>io := h\<rparr>)"
  "(cdev_update f22 (s :: softc))\<lparr>io := h\<rparr> = cdev_update f22 (s\<lparr>io := h\<rparr>)"
  "(sc_mtx_update f23 (s :: softc))\<lparr>io := h\<rparr> = sc_mtx_update f23 (s\<lparr>io := h\<rparr>)"
  "(dying_update f24 (s :: softc))\<lparr>io := h\<rparr> = dying_update f24 (s\<lparr>io := h\<rparr>)"
  "(mcdi_buf_update f25 (s :: softc))\<lparr>io := h\<rparr> = mcdi_buf_update f25 (s\<lparr>io := h\<rparr>)"
  "(mcdi_mtx_update f26 (s :: softc))\<lparr>io := h\<rparr> = mcdi_mtx_update f26 (s\<lparr>io := h\<rparr>)"
  "(mcdi_seq_update f27 (s :: softc))\<lparr>io := h\<rparr> = mcdi_seq_update f27 (s\<lparr>io := h\<rparr>)"
  "(mcdi_new_epoch_update f28 (s :: softc))\<lparr>io := h\<rparr> = mcdi_new_epoch_update f28 (s\<lparr>io := h\<rparr>)"
  "(mcdi_initialized_update f29 (s :: softc))\<lparr>io := h\<rparr> = mcdi_initialized_update f29 (s\<lparr>io := h\<rparr>)"
  "(mcdi_prev_reboot_status_update f30 (s :: softc))\<lparr>io := h\<rparr> = mcdi_prev_reboot_status_update f30 (s\<lparr>io := h\<rparr>)"
  "(mcdi_func_flags_update f31 (s :: softc))\<lparr>io := h\<rparr> = mcdi_func_flags_update f31 (s\<lparr>io := h\<rparr>)"
  "(vi_base_update f32 (s :: softc))\<lparr>io := h\<rparr> = vi_base_update f32 (s\<lparr>io := h\<rparr>)"
  "(vi_count_update f33 (s :: softc))\<lparr>io := h\<rparr> = vi_count_update f33 (s\<lparr>io := h\<rparr>)"
  "(mcdi_cap_flags1_update f34 (s :: softc))\<lparr>io := h\<rparr> = mcdi_cap_flags1_update f34 (s\<lparr>io := h\<rparr>)"
  "(mcdi_caps_valid_update f35 (s :: softc))\<lparr>io := h\<rparr> = mcdi_caps_valid_update f35 (s\<lparr>io := h\<rparr>)"
  "(fw_version_update f36 (s :: softc))\<lparr>io := h\<rparr> = fw_version_update f36 (s\<lparr>io := h\<rparr>)"
  "(drv_attached_update f37 (s :: softc))\<lparr>io := h\<rparr> = drv_attached_update f37 (s\<lparr>io := h\<rparr>)"
  "(vis_allocated_update f38 (s :: softc))\<lparr>io := h\<rparr> = vis_allocated_update f38 (s\<lparr>io := h\<rparr>)"
  "(evq_initialized_update f39 (s :: softc))\<lparr>io := h\<rparr> = evq_initialized_update f39 (s\<lparr>io := h\<rparr>)"
  "(data_evq_initialized_update f40 (s :: softc))\<lparr>io := h\<rparr> = data_evq_initialized_update f40 (s\<lparr>io := h\<rparr>)"
  "(vadaptor_allocated_update f41 (s :: softc))\<lparr>io := h\<rparr> = vadaptor_allocated_update f41 (s\<lparr>io := h\<rparr>)"
  "(rxq_initialized_update f42 (s :: softc))\<lparr>io := h\<rparr> = rxq_initialized_update f42 (s\<lparr>io := h\<rparr>)"
  "(txq_initialized_update f43 (s :: softc))\<lparr>io := h\<rparr> = txq_initialized_update f43 (s\<lparr>io := h\<rparr>)"
  "(phy_supported_cap_mask_update f44 (s :: softc))\<lparr>io := h\<rparr> = phy_supported_cap_mask_update f44 (s\<lparr>io := h\<rparr>)"
  "(phy_adv_cap_mask_update f45 (s :: softc))\<lparr>io := h\<rparr> = phy_adv_cap_mask_update f45 (s\<lparr>io := h\<rparr>)"
  "(phy_media_type_update f46 (s :: softc))\<lparr>io := h\<rparr> = phy_media_type_update f46 (s\<lparr>io := h\<rparr>)"
  "(link_up_update f47 (s :: softc))\<lparr>io := h\<rparr> = link_up_update f47 (s\<lparr>io := h\<rparr>)"
  "(full_duplex_update f48 (s :: softc))\<lparr>io := h\<rparr> = full_duplex_update f48 (s\<lparr>io := h\<rparr>)"
  "(link_speed_mbps_update f49 (s :: softc))\<lparr>io := h\<rparr> = link_speed_mbps_update f49 (s\<lparr>io := h\<rparr>)"
  "(link_fcntl_update f50 (s :: softc))\<lparr>io := h\<rparr> = link_fcntl_update f50 (s\<lparr>io := h\<rparr>)"
  "(mac_configured_update f51 (s :: softc))\<lparr>io := h\<rparr> = mac_configured_update f51 (s\<lparr>io := h\<rparr>)"
  "(link_configured_update f52 (s :: softc))\<lparr>io := h\<rparr> = link_configured_update f52 (s\<lparr>io := h\<rparr>)"
  "(rx_filter_handle_update f53 (s :: softc))\<lparr>io := h\<rparr> = rx_filter_handle_update f53 (s\<lparr>io := h\<rparr>)"
  "(rx_filter_inserted_update f54 (s :: softc))\<lparr>io := h\<rparr> = rx_filter_inserted_update f54 (s\<lparr>io := h\<rparr>)"
  by simp_all

lemma kres_inner [simp]:
  "(mem_resource_update f55 (s :: softc))\<lparr>kres := R\<rparr> = mem_resource_update f55 (s\<lparr>kres := R\<rparr>)"
  "(mac_addr_update f56 (s :: softc))\<lparr>kres := R\<rparr> = mac_addr_update f56 (s\<lparr>kres := R\<rparr>)"
  "(msix_bar_resource_update f57 (s :: softc))\<lparr>kres := R\<rparr> = msix_bar_resource_update f57 (s\<lparr>kres := R\<rparr>)"
  "(msix_nvec_update f58 (s :: softc))\<lparr>kres := R\<rparr> = msix_nvec_update f58 (s\<lparr>kres := R\<rparr>)"
  "(irq_resource_update f59 (s :: softc))\<lparr>kres := R\<rparr> = irq_resource_update f59 (s\<lparr>kres := R\<rparr>)"
  "(irq_handle_update f60 (s :: softc))\<lparr>kres := R\<rparr> = irq_handle_update f60 (s\<lparr>kres := R\<rparr>)"
  "(intr_initialized_update f61 (s :: softc))\<lparr>kres := R\<rparr> = intr_initialized_update f61 (s\<lparr>kres := R\<rparr>)"
  "(dma_update f62 (s :: softc))\<lparr>kres := R\<rparr> = dma_update f62 (s\<lparr>kres := R\<rparr>)"
  "(evq_ring_update f63 (s :: softc))\<lparr>kres := R\<rparr> = evq_ring_update f63 (s\<lparr>kres := R\<rparr>)"
  "(evq_read_ptr_update f64 (s :: softc))\<lparr>kres := R\<rparr> = evq_read_ptr_update f64 (s\<lparr>kres := R\<rparr>)"
  "(data_evq_ring_update f65 (s :: softc))\<lparr>kres := R\<rparr> = data_evq_ring_update f65 (s\<lparr>kres := R\<rparr>)"
  "(data_evq_read_ptr_update f66 (s :: softc))\<lparr>kres := R\<rparr> = data_evq_read_ptr_update f66 (s\<lparr>kres := R\<rparr>)"
  "(tx_desc_ring_update f67 (s :: softc))\<lparr>kres := R\<rparr> = tx_desc_ring_update f67 (s\<lparr>kres := R\<rparr>)"
  "(tx_buffer_update f68 (s :: softc))\<lparr>kres := R\<rparr> = tx_buffer_update f68 (s\<lparr>kres := R\<rparr>)"
  "(tx_head_update f69 (s :: softc))\<lparr>kres := R\<rparr> = tx_head_update f69 (s\<lparr>kres := R\<rparr>)"
  "(rx_received_update f70 (s :: softc))\<lparr>kres := R\<rparr> = rx_received_update f70 (s\<lparr>kres := R\<rparr>)"
  "(rx_mtx_update f71 (s :: softc))\<lparr>kres := R\<rparr> = rx_mtx_update f71 (s\<lparr>kres := R\<rparr>)"
  "(rx_desc_ring_update f72 (s :: softc))\<lparr>kres := R\<rparr> = rx_desc_ring_update f72 (s\<lparr>kres := R\<rparr>)"
  "(rx_buffer_update f73 (s :: softc))\<lparr>kres := R\<rparr> = rx_buffer_update f73 (s\<lparr>kres := R\<rparr>)"
  "(rx_head_update f74 (s :: softc))\<lparr>kres := R\<rparr> = rx_head_update f74 (s\<lparr>kres := R\<rparr>)"
  "(device_attached_update f75 (s :: softc))\<lparr>kres := R\<rparr> = device_attached_update f75 (s\<lparr>kres := R\<rparr>)"
  "(cdev_update f76 (s :: softc))\<lparr>kres := R\<rparr> = cdev_update f76 (s\<lparr>kres := R\<rparr>)"
  "(sc_mtx_update f77 (s :: softc))\<lparr>kres := R\<rparr> = sc_mtx_update f77 (s\<lparr>kres := R\<rparr>)"
  "(dying_update f78 (s :: softc))\<lparr>kres := R\<rparr> = dying_update f78 (s\<lparr>kres := R\<rparr>)"
  "(mcdi_buf_update f79 (s :: softc))\<lparr>kres := R\<rparr> = mcdi_buf_update f79 (s\<lparr>kres := R\<rparr>)"
  "(mcdi_mtx_update f80 (s :: softc))\<lparr>kres := R\<rparr> = mcdi_mtx_update f80 (s\<lparr>kres := R\<rparr>)"
  "(mcdi_seq_update f81 (s :: softc))\<lparr>kres := R\<rparr> = mcdi_seq_update f81 (s\<lparr>kres := R\<rparr>)"
  "(mcdi_new_epoch_update f82 (s :: softc))\<lparr>kres := R\<rparr> = mcdi_new_epoch_update f82 (s\<lparr>kres := R\<rparr>)"
  "(mcdi_initialized_update f83 (s :: softc))\<lparr>kres := R\<rparr> = mcdi_initialized_update f83 (s\<lparr>kres := R\<rparr>)"
  "(mcdi_prev_reboot_status_update f84 (s :: softc))\<lparr>kres := R\<rparr> = mcdi_prev_reboot_status_update f84 (s\<lparr>kres := R\<rparr>)"
  "(mcdi_func_flags_update f85 (s :: softc))\<lparr>kres := R\<rparr> = mcdi_func_flags_update f85 (s\<lparr>kres := R\<rparr>)"
  "(vi_base_update f86 (s :: softc))\<lparr>kres := R\<rparr> = vi_base_update f86 (s\<lparr>kres := R\<rparr>)"
  "(vi_count_update f87 (s :: softc))\<lparr>kres := R\<rparr> = vi_count_update f87 (s\<lparr>kres := R\<rparr>)"
  "(mcdi_cap_flags1_update f88 (s :: softc))\<lparr>kres := R\<rparr> = mcdi_cap_flags1_update f88 (s\<lparr>kres := R\<rparr>)"
  "(mcdi_caps_valid_update f89 (s :: softc))\<lparr>kres := R\<rparr> = mcdi_caps_valid_update f89 (s\<lparr>kres := R\<rparr>)"
  "(fw_version_update f90 (s :: softc))\<lparr>kres := R\<rparr> = fw_version_update f90 (s\<lparr>kres := R\<rparr>)"
  "(drv_attached_update f91 (s :: softc))\<lparr>kres := R\<rparr> = drv_attached_update f91 (s\<lparr>kres := R\<rparr>)"
  "(vis_allocated_update f92 (s :: softc))\<lparr>kres := R\<rparr> = vis_allocated_update f92 (s\<lparr>kres := R\<rparr>)"
  "(evq_initialized_update f93 (s :: softc))\<lparr>kres := R\<rparr> = evq_initialized_update f93 (s\<lparr>kres := R\<rparr>)"
  "(data_evq_initialized_update f94 (s :: softc))\<lparr>kres := R\<rparr> = data_evq_initialized_update f94 (s\<lparr>kres := R\<rparr>)"
  "(vadaptor_allocated_update f95 (s :: softc))\<lparr>kres := R\<rparr> = vadaptor_allocated_update f95 (s\<lparr>kres := R\<rparr>)"
  "(rxq_initialized_update f96 (s :: softc))\<lparr>kres := R\<rparr> = rxq_initialized_update f96 (s\<lparr>kres := R\<rparr>)"
  "(txq_initialized_update f97 (s :: softc))\<lparr>kres := R\<rparr> = txq_initialized_update f97 (s\<lparr>kres := R\<rparr>)"
  "(phy_supported_cap_mask_update f98 (s :: softc))\<lparr>kres := R\<rparr> = phy_supported_cap_mask_update f98 (s\<lparr>kres := R\<rparr>)"
  "(phy_adv_cap_mask_update f99 (s :: softc))\<lparr>kres := R\<rparr> = phy_adv_cap_mask_update f99 (s\<lparr>kres := R\<rparr>)"
  "(phy_media_type_update f100 (s :: softc))\<lparr>kres := R\<rparr> = phy_media_type_update f100 (s\<lparr>kres := R\<rparr>)"
  "(link_up_update f101 (s :: softc))\<lparr>kres := R\<rparr> = link_up_update f101 (s\<lparr>kres := R\<rparr>)"
  "(full_duplex_update f102 (s :: softc))\<lparr>kres := R\<rparr> = full_duplex_update f102 (s\<lparr>kres := R\<rparr>)"
  "(link_speed_mbps_update f103 (s :: softc))\<lparr>kres := R\<rparr> = link_speed_mbps_update f103 (s\<lparr>kres := R\<rparr>)"
  "(link_fcntl_update f104 (s :: softc))\<lparr>kres := R\<rparr> = link_fcntl_update f104 (s\<lparr>kres := R\<rparr>)"
  "(mac_configured_update f105 (s :: softc))\<lparr>kres := R\<rparr> = mac_configured_update f105 (s\<lparr>kres := R\<rparr>)"
  "(link_configured_update f106 (s :: softc))\<lparr>kres := R\<rparr> = link_configured_update f106 (s\<lparr>kres := R\<rparr>)"
  "(rx_filter_handle_update f107 (s :: softc))\<lparr>kres := R\<rparr> = rx_filter_handle_update f107 (s\<lparr>kres := R\<rparr>)"
  "(rx_filter_inserted_update f108 (s :: softc))\<lparr>kres := R\<rparr> = rx_filter_inserted_update f108 (s\<lparr>kres := R\<rparr>)"
  by simp_all

section \<open>Interactions never change the softc itself\<close>

lemma softc_emit: "emit e (s :: softc) = s\<lparr>io := e # io s\<rparr>"
  by (simp add: emit_def)

lemma softc_write_reg: "SFC7120_WRITE_REG off v (s :: softc) = s\<lparr>io := RegWrite off v # io s\<rparr>"
  by (simp add: SFC7120_WRITE_REG_def emit_def)

lemma softc_read_reg: "SFC7120_READ_REG K off (s :: softc) = (reg_val K (io s) off, s\<lparr>io := RegRead off # io s\<rparr>)"
  by (simp add: SFC7120_READ_REG_def emit_def)

lemmas softc_io = softc_emit softc_write_reg softc_read_reg

section \<open>An instance in service\<close>

text \<open>The softc of an attached instance with every queue up, as a concrete input for the theorems:
  mailbox at bus address \<open>0x40000000\<close>, the other buffers above it, no session open.\<close>

definition live_softc :: softc where
  "live_softc = zero_softc\<lparr>
     kres := {r. \<not> session_res r},
     capio_sc := \<lparr>sealing_key = null_cap, original_cap = null_cap, sealed_cap = null_cap,
                 cap_mtx = MtxFree, cap_mapped = False, shared_mem_regs = []\<rparr>,
     mem_resource := Some (0xd0000000, 0x800000), mac_addr := [0x00, 0x0f, 0x53, 0x01, 0x02, 0x03],
     msix_bar_resource := True, msix_nvec := 1, irq_resource := True, irq_handle := True, intr_initialized := True,
     dma := (\<lambda>d. \<lparr>dm_tag = True, dm_vaddr = 0x10000,
                  dm_paddr = (case d of DMA_MCDI \<Rightarrow> 0x40000000 | DMA_EVQ \<Rightarrow> 0x40001000 | DMA_DATA_EVQ \<Rightarrow> 0x40002000
                    | DMA_TX_DESC \<Rightarrow> 0x40003000 | DMA_RX_DESC \<Rightarrow> 0x40004000 | DMA_TX_BUF \<Rightarrow> 0x40100000 | DMA_RX_BUF \<Rightarrow> 0x40200000)\<rparr>),
     rx_mtx := MtxFree, device_attached := True, cdev := True, sc_mtx := MtxFree,
     mcdi_mtx := MtxFree, mcdi_initialized := True,
     drv_attached := True, vis_allocated := True, evq_initialized := True, data_evq_initialized := True,
     vadaptor_allocated := True, rxq_initialized := True, txq_initialized := True, rx_filter_inserted := True\<rparr>"

lemma zero_softc_fields:
  "kres zero_softc = {}" "io zero_softc = []" "dma zero_softc = (\<lambda>_. no_dmabuf)" "mcdi_initialized zero_softc = False"
  "mcdi_mtx zero_softc = MtxAbsent" "sc_mtx zero_softc = MtxAbsent" "rx_mtx zero_softc = MtxAbsent"
  by (simp_all add: zero_softc_def)

lemma live_softc_fields:
  "kres live_softc = {r. \<not> session_res r}" "io live_softc = []" "mcdi_initialized live_softc" "mcdi_mtx live_softc = MtxFree"
  "mcdi_new_epoch live_softc = False" "mcdi_seq live_softc = 0" "mcdi_buf live_softc = (\<lambda>_. 0)"
  "sc_mtx live_softc = MtxFree" "rx_mtx live_softc = MtxFree" "mem_resource live_softc = Some (0xd0000000, 0x800000)"
  "data_evq_read_ptr live_softc = 0" "evq_read_ptr live_softc = 0" "tx_head live_softc = 0" "rx_head live_softc = 0"
  "dma_mapped d live_softc" "dm_paddr (dma live_softc DMA_MCDI) = 0x40000000" "dm_tag (dma live_softc d)"
  "dm_paddr (dma live_softc d) \<noteq> 0" "dm_vaddr (dma live_softc d) = 0x10000" "dying live_softc = False"
  "evq_ring live_softc = (\<lambda>_. 0)" "data_evq_ring live_softc = (\<lambda>_. 0)"
  by (simp_all add: live_softc_def zero_softc_def dma_mapped_def split: dma_id.split)

end
