(* ===== verification/Dma.thy ===== *)
theory Dma
  imports Softc
begin

text \<open>
  Coherent DMA buffers: \<open>sfc7120_alloc_dmabuf\<close>, \<open>sfc7120_free_dmabuf\<close> and the six buffers of
  \<open>sfc7120_alloc_dma_resources\<close> (\<open>sfc7120.c\<close>).  A buffer holds three kernel resources, its tag, its
  memory and its loaded map; \<open>dma_inv\<close> says that the softc's fields record exactly what is held.
\<close>

section \<open>Allocation and release of one buffer\<close>

definition sfc7120_dma_cb :: "u64 list \<Rightarrow> int \<Rightarrow> u64" where
  "sfc7120_dma_cb segs error = (if error \<noteq> 0 \<or> length segs < 1 then 0 else segs ! 0)"

definition dma_upd :: "dma_id \<Rightarrow> (dmabuf \<Rightarrow> dmabuf) \<Rightarrow> softc \<Rightarrow> softc" where
  "dma_upd d f s = s\<lparr>dma := (dma s)(d := f (dma s d))\<rparr>"

text \<open>\<open>BUS_DMA_ZERO\<close>: the memory of a new buffer reads as zero.\<close>

fun dma_zero :: "dma_id \<Rightarrow> softc \<Rightarrow> softc" where
  "dma_zero DMA_EVQ s = s\<lparr>evq_ring := \<lambda>_. 0\<rparr>"
| "dma_zero DMA_DATA_EVQ s = s\<lparr>data_evq_ring := \<lambda>_. 0\<rparr>"
| "dma_zero DMA_TX_DESC s = s\<lparr>tx_desc_ring := \<lambda>_. 0\<rparr>"
| "dma_zero DMA_RX_DESC s = s\<lparr>rx_desc_ring := \<lambda>_. 0\<rparr>"
| "dma_zero DMA_TX_BUF s = s\<lparr>tx_buffer := \<lambda>_. 0\<rparr>"
| "dma_zero DMA_RX_BUF s = s\<lparr>rx_buffer := \<lambda>_. 0\<rparr>"
| "dma_zero DMA_MCDI s = s\<lparr>mcdi_buf := \<lambda>_. 0\<rparr>"

text \<open>\<open>bus_dmamap_load\<close>: the return code and the address the callback stored; the map is loaded when
  the call and its callback report no error.\<close>

definition dmamap_load :: "env \<Rightarrow> dma_id \<Rightarrow> softc \<Rightarrow> int \<times> u64 \<times> softc" where
  "dmamap_load K d s =
     (case map_load K (io s) d of (rc, segs, cberr) \<Rightarrow>
        (rc, if rc = 0 then sfc7120_dma_cb segs cberr else 0,
         if rc = 0 \<and> cberr = 0 then grab (KMap d) s else emit (Call ''bus_dmamap_load'') s))"

definition sfc7120_alloc_dmabuf :: "env \<Rightarrow> dma_id \<Rightarrow> softc \<Rightarrow> (int \<times> softc) option" where
  "sfc7120_alloc_dmabuf K d s = do {
     let error = tag_create K (io s) d;
     if error \<noteq> 0 then Some (error, emit (Call ''bus_dma_tag_create'') s)
     else do {
       let s = dma_upd d (\<lambda>b. b\<lparr>dm_tag := True\<rparr>) (grab (KTag d) s);
       let (error, va) = mem_alloc K (io s) d;
       if error \<noteq> 0 then do {
         s \<leftarrow> release (KTag d) (emit (Call ''bus_dmamem_alloc'') s);
         Some (error, dma_upd d (\<lambda>b. b\<lparr>dm_tag := False\<rparr>) s) }
       else do {
         let s = dma_zero d (dma_upd d (\<lambda>b. b\<lparr>dm_vaddr := va, dm_paddr := 0\<rparr>) (grab (KMem d) s));
         let (error, pa, s) = dmamap_load K d s;
         let s = dma_upd d (\<lambda>b. b\<lparr>dm_paddr := pa\<rparr>) s;
         if error \<noteq> 0 \<or> pa = 0 then do {
           s \<leftarrow> release (KMem d) s;
           s \<leftarrow> release (KTag d) s;
           Some (if error \<noteq> 0 then error else ENOMEM,
                 dma_upd d (\<lambda>b. b\<lparr>dm_vaddr := 0, dm_tag := False\<rparr>) s) }
         else Some (0, s) } } }"

definition sfc7120_free_dmabuf :: "dma_id \<Rightarrow> softc \<Rightarrow> softc option" where
  "sfc7120_free_dmabuf d s = do {
     s \<leftarrow> (if dm_paddr (dma s d) \<noteq> 0 then do {
             s \<leftarrow> release (KMap d) s; Some (dma_upd d (\<lambda>b. b\<lparr>dm_paddr := 0\<rparr>) s) } else Some s);
     s \<leftarrow> (if dm_vaddr (dma s d) \<noteq> 0 then do {
             s \<leftarrow> release (KMem d) s; Some (dma_upd d (\<lambda>b. b\<lparr>dm_vaddr := 0\<rparr>) s) } else Some s);
     if dm_tag (dma s d) then do {
       s \<leftarrow> release (KTag d) s; Some (dma_upd d (\<lambda>b. b\<lparr>dm_tag := False\<rparr>) s) } else Some s }"

section \<open>The six buffers\<close>

text \<open>\<open>free_dmabufs\<close> is the fall-through chain of the \<open>fail_*\<close> labels, given the buffers it frees in
  order; \<open>memset(ring, 0xff, ...)\<close> primes an event ring.\<close>

fun free_dmabufs :: "dma_id list \<Rightarrow> softc \<Rightarrow> softc option" where
  "free_dmabufs [] s = Some s"
| "free_dmabufs (d # ds) s = do { s \<leftarrow> sfc7120_free_dmabuf d s; free_dmabufs ds s }"

definition fail_free :: "int \<Rightarrow> dma_id list \<Rightarrow> softc \<Rightarrow> (int \<times> softc) option" where
  "fail_free error ds s = do { s \<leftarrow> free_dmabufs ds s; Some (error, s) }"

definition sfc7120_alloc_dma_resources :: "env \<Rightarrow> softc \<Rightarrow> (int \<times> softc) option" where
  "sfc7120_alloc_dma_resources K s = do {
     (error, s) \<leftarrow> sfc7120_alloc_dmabuf K DMA_EVQ s;
     if error \<noteq> 0 then Some (error, s)
     else do {
     let s = s\<lparr>evq_ring := \<lambda>_. 0xffffffffffffffff\<rparr>;
     (error, s) \<leftarrow> sfc7120_alloc_dmabuf K DMA_DATA_EVQ s;
     if error \<noteq> 0 then fail_free error [DMA_EVQ] s
     else do {
     let s = s\<lparr>data_evq_ring := \<lambda>_. 0xffffffffffffffff\<rparr>;
     (error, s) \<leftarrow> sfc7120_alloc_dmabuf K DMA_TX_DESC s;
     if error \<noteq> 0 then fail_free error [DMA_DATA_EVQ, DMA_EVQ] s
     else do {
     (error, s) \<leftarrow> sfc7120_alloc_dmabuf K DMA_RX_DESC s;
     if error \<noteq> 0 then fail_free error [DMA_TX_DESC, DMA_DATA_EVQ, DMA_EVQ] s
     else do {
     (error, s) \<leftarrow> sfc7120_alloc_dmabuf K DMA_TX_BUF s;
     if error \<noteq> 0 then fail_free error [DMA_RX_DESC, DMA_TX_DESC, DMA_DATA_EVQ, DMA_EVQ] s
     else do {
     (error, s) \<leftarrow> sfc7120_alloc_dmabuf K DMA_RX_BUF s;
     if error \<noteq> 0 then fail_free error [DMA_TX_BUF, DMA_RX_DESC, DMA_TX_DESC, DMA_DATA_EVQ, DMA_EVQ] s
     else Some (0, s) } } } } } }"

definition sfc7120_free_dma_resources :: "softc \<Rightarrow> softc option" where
  "sfc7120_free_dma_resources s = do {
     s \<leftarrow> sfc7120_free_dmabuf DMA_RX_BUF s;
     s \<leftarrow> sfc7120_free_dmabuf DMA_TX_BUF s;
     s \<leftarrow> sfc7120_free_dmabuf DMA_RX_DESC s;
     s \<leftarrow> sfc7120_free_dmabuf DMA_TX_DESC s;
     s \<leftarrow> sfc7120_free_dmabuf DMA_DATA_EVQ s;
     sfc7120_free_dmabuf DMA_EVQ s }"

section \<open>What is held\<close>

text \<open>The documented behaviour of busdma the driver relies on: a successful allocation returns a
  non-null pointer, and a load that reports no error reports a segment at a non-zero address.\<close>

definition bus_dma_ok :: "env \<Rightarrow> bool" where
  "bus_dma_ok K \<longleftrightarrow>
     (\<forall>h d va. mem_alloc K h d = (0, va) \<longrightarrow> va \<noteq> 0)
     \<and> (\<forall>h d segs. map_load K h d = (0, segs, 0) \<longrightarrow> segs \<noteq> [] \<and> hd segs \<noteq> 0)"

definition dmabuf_res :: "dma_id \<Rightarrow> kres set" where
  "dmabuf_res d = {KTag d, KMem d, KMap d}"

definition dmabuf_held :: "dmabuf \<Rightarrow> dma_id \<Rightarrow> kres set" where
  "dmabuf_held b d = (if dm_tag b then {KTag d} else {}) \<union> (if dm_vaddr b \<noteq> 0 then {KMem d} else {})
                     \<union> (if dm_paddr b \<noteq> 0 then {KMap d} else {})"

definition dma_inv :: "softc \<Rightarrow> bool" where
  "dma_inv s \<longleftrightarrow> (\<forall>d. dmabuf_held (dma s d) d = kres s \<inter> dmabuf_res d)"

text \<open>The part of the state no DMA operation touches, and the one relation every operation of this
  theory satisfies: only history, held resources, buffer descriptors and buffer contents change.\<close>

definition dma_frame :: "softc \<Rightarrow> softc" where
  "dma_frame s = s\<lparr>io := [], kres := {}, dma := (\<lambda>_. no_dmabuf), evq_ring := (\<lambda>_. 0), data_evq_ring := (\<lambda>_. 0),
     tx_desc_ring := (\<lambda>_. 0), tx_buffer := (\<lambda>_. 0), rx_desc_ring := (\<lambda>_. 0), rx_buffer := (\<lambda>_. 0), mcdi_buf := (\<lambda>_. 0)\<rparr>"

lemma dma_frame_simps [simp]:
  "dma_frame (emit e s) = dma_frame s" "dma_frame (grab r s) = dma_frame s"
  "dma_frame (dma_upd d f s) = dma_frame s" "dma_frame (dma_zero d s) = dma_frame s"
  "dma_frame (s\<lparr>kres := R\<rparr>) = dma_frame s" "dma_frame (s\<lparr>io := h\<rparr>) = dma_frame s"
  "dma_frame (s\<lparr>evq_ring := q\<rparr>) = dma_frame s" "dma_frame (s\<lparr>data_evq_ring := q\<rparr>) = dma_frame s"
  by (cases d; simp add: dma_frame_def emit_def grab_def dma_upd_def)+

lemma dma_upd_simps [simp]:
  "kres (dma_upd d f s) = kres s" "io (dma_upd d f s) = io s"
  "dma (dma_upd d f s) = (dma s)(d := f (dma s d))"
  by (simp_all add: dma_upd_def)

lemma dma_zero_simps [simp]:
  "kres (dma_zero d s) = kres s" "io (dma_zero d s) = io s" "dma (dma_zero d s) = dma s"
  by (cases d; simp)+

lemma dma_world [simp]:
  "dma (emit e s) = dma s" "dma (grab r s) = dma s"
  by (simp_all add: emit_def grab_def)

lemma release_softc:
  "r \<in> kres s \<Longrightarrow> \<exists>s'. release r s = Some s' \<and> kres s' = kres s - {r} \<and> dma s' = dma s \<and> dma_frame s' = dma_frame s"
  by (simp add: release_def emit_def dma_frame_def)

lemma free_dmabuf_total:
  assumes "dma_inv s"
  shows "\<exists>s'. sfc7120_free_dmabuf d s = Some s' \<and> kres s' = kres s - dmabuf_res d
    \<and> dma s' = (dma s)(d := no_dmabuf) \<and> dma_frame s' = dma_frame s"
proof -
  have h: "dmabuf_held (dma s d) d = kres s \<inter> dmabuf_res d" using assms by (simp add: dma_inv_def)
  have t: "KTag d \<in> kres s \<longleftrightarrow> dm_tag (dma s d)" "KMem d \<in> kres s \<longleftrightarrow> dm_vaddr (dma s d) \<noteq> 0"
      "KMap d \<in> kres s \<longleftrightarrow> dm_paddr (dma s d) \<noteq> 0"
    using h by (auto simp: dmabuf_held_def dmabuf_res_def set_eq_iff split: if_splits)
  have e: "kres s - dmabuf_res d = kres s - dmabuf_held (dma s d) d"
    using h by auto
  have fin: "dma s d\<lparr>dm_tag := False, dm_vaddr := 0, dm_paddr := 0\<rparr> = no_dmabuf"
    by (simp add: no_dmabuf_def)
  have triv: "dm_paddr (dma s d) = 0 \<Longrightarrow> dm_vaddr (dma s d) = 0 \<Longrightarrow> \<not> dm_tag (dma s d) \<Longrightarrow> (dma s)(d := no_dmabuf) = dma s"
    using fin by (intro fun_upd_idem) (simp add: no_dmabuf_def)
  show ?thesis
    unfolding e
    by (cases "dm_paddr (dma s d) = 0"; cases "dm_vaddr (dma s d) = 0"; cases "dm_tag (dma s d)")
       (auto simp: sfc7120_free_dmabuf_def release_def t triv dmabuf_held_def emit_def dma_upd_def
          dma_frame_def no_dmabuf_def intro!: dmabuf.equality ext split: if_splits)
qed

lemma dma_inv_change:
  assumes "dma_inv s" "dma s' = (dma s)(d := b)" "kres s' - dmabuf_res d = kres s - dmabuf_res d"
    "dmabuf_held b d = kres s' \<inter> dmabuf_res d"
  shows "dma_inv s'"
proof -
  have "kres s' \<inter> dmabuf_res e = kres s \<inter> dmabuf_res e" if "e \<noteq> d" for e
    using assms(3) that by (auto simp: dmabuf_res_def set_eq_iff)
  then show ?thesis using assms by (auto simp: dma_inv_def)
qed

lemma free_dmabuf_inv:
  assumes "dma_inv s" "sfc7120_free_dmabuf d s = Some s'"
  shows "dma_inv s'"
proof -
  obtain t where "sfc7120_free_dmabuf d s = Some t" "kres t = kres s - dmabuf_res d" "dma t = (dma s)(d := no_dmabuf)"
    using free_dmabuf_total [OF assms(1)] by blast
  then show ?thesis
    using assms by (intro dma_inv_change [of s s' d no_dmabuf]) (auto simp: dmabuf_held_def no_dmabuf_def)
qed

text \<open>A buffer is allocated completely or not at all.\<close>

definition alloc_dmabuf_post :: "dma_id \<Rightarrow> softc \<Rightarrow> int \<Rightarrow> softc \<Rightarrow> bool" where
  "alloc_dmabuf_post d s e s' \<longleftrightarrow>
     dma_inv s' \<and> dma_frame s' = dma_frame s
     \<and> (if e = 0 then dma_mapped d s' \<and> dm_paddr (dma s' d) \<noteq> 0 \<and> kres s' = kres s \<union> dmabuf_res d
           \<and> (\<forall>d'. d' \<noteq> d \<longrightarrow> dma s' d' = dma s d')
        else kres s' = kres s \<and> dma s' = dma s)"

lemma alloc_dmabuf_total:
  assumes K: "bus_dma_ok K" and inv: "dma_inv s" and none: "dma s d = no_dmabuf"
  shows "\<exists>e s'. sfc7120_alloc_dmabuf K d s = Some (e, s') \<and> alloc_dmabuf_post d s e s'"
proof -
  have free: "kres s \<inter> dmabuf_res d = {}"
    using inv [unfolded dma_inv_def, rule_format, of d] none by (simp add: dmabuf_held_def no_dmabuf_def)
  then have nr: "KTag d \<notin> kres s" "KMem d \<notin> kres s" "KMap d \<notin> kres s" by (auto simp: dmabuf_res_def)
  let ?s1 = "dma_upd d (\<lambda>b. b\<lparr>dm_tag := True\<rparr>) (grab (KTag d) s)"
  obtain e2 va where a: "mem_alloc K (io ?s1) d = (e2, va)" by fastforce
  let ?s2 = "dma_zero d (dma_upd d (\<lambda>b. b\<lparr>dm_vaddr := va, dm_paddr := 0\<rparr>) (grab (KMem d) ?s1))"
  obtain e3 segs ce where l: "map_load K (io ?s2) d = (e3, segs, ce)" using prod_cases3 by blast
  have va: "e2 = 0 \<Longrightarrow> va \<noteq> 0" using K a by (auto simp: bus_dma_ok_def)
  have "segs \<noteq> [] \<and> hd segs \<noteq> 0" if "e3 = 0" "ce = 0"
    using K l that unfolding bus_dma_ok_def by blast
  then have pa: "e3 = 0 \<Longrightarrow> ce = 0 \<Longrightarrow> sfc7120_dma_cb segs ce \<noteq> 0"
    by (cases segs) (auto simp: sfc7120_dma_cb_def)
  have pa': "sfc7120_dma_cb segs ce \<noteq> 0 \<Longrightarrow> ce = 0" by (auto simp: sfc7120_dma_cb_def split: if_splits)
  have post: "alloc_dmabuf_post d s e s'"
    if "e \<noteq> 0" "kres s' = kres s" "dma s' = dma s" "dma_frame s' = dma_frame s" for e s'
    using that inv by (simp add: alloc_dmabuf_post_def dma_inv_def)
  consider "tag_create K (io s) d \<noteq> 0" | "tag_create K (io s) d = 0" "e2 \<noteq> 0"
    | "tag_create K (io s) d = 0" "e2 = 0" "e3 \<noteq> 0 \<or> ce \<noteq> 0"
    | "tag_create K (io s) d = 0" "e2 = 0" "e3 = 0" "ce = 0" by blast
  then show ?thesis
  proof cases
    case 1
    then show ?thesis by (auto simp: sfc7120_alloc_dmabuf_def Let_def intro!: post)
  next
    case 2
    have "(dma s)(d := no_dmabuf\<lparr>dm_tag := True, dm_tag := False\<rparr>) = dma s"
      using none by (auto simp: no_dmabuf_def)
    then show ?thesis
      using 2 a nr none by (auto simp: sfc7120_alloc_dmabuf_def Let_def release_def intro!: post)
  next
    case 3
    have z: "(dma s)(d := no_dmabuf\<lparr>dm_tag := True, dm_vaddr := va, dm_paddr := 0, dm_paddr := 0, dm_vaddr := 0, dm_tag := False\<rparr>) = dma s"
      using none by (auto simp: no_dmabuf_def)
    have p: "(if e3 = 0 then sfc7120_dma_cb segs ce else 0) = 0" using 3(3) pa' by auto
    show ?thesis
      using 3 a l nr none z p
      by (auto simp: sfc7120_alloc_dmabuf_def Let_def release_def dmamap_load_def intro!: post)
  next
    case 4
    let ?b = "\<lparr>dm_tag = True, dm_vaddr = va, dm_paddr = sfc7120_dma_cb segs ce\<rparr>"
    let ?s' = "dma_upd d (\<lambda>b. b\<lparr>dm_paddr := sfc7120_dma_cb segs ce\<rparr>) (grab (KMap d) ?s2)"
    have d': "dma ?s' = (dma s)(d := ?b)" using none by (simp add: no_dmabuf_def)
    have k': "kres ?s' = kres s \<union> dmabuf_res d" by (auto simp: dmabuf_res_def)
    have "dma_inv ?s'"
      by (rule dma_inv_change [OF inv d']) (use k' va [OF 4(2)] pa [OF 4(3,4)] in \<open>auto simp: dmabuf_held_def dmabuf_res_def\<close>)
    moreover have "sfc7120_alloc_dmabuf K d s = Some (0, ?s')"
      using 4 a l pa by (simp add: sfc7120_alloc_dmabuf_def Let_def dmamap_load_def)
    ultimately show ?thesis
      using k' d' va [OF 4(2)] pa [OF 4(3,4)] by (auto simp: alloc_dmabuf_post_def dma_mapped_def)
  qed
qed

section \<open>All or nothing for the six buffers\<close>

definition res_of :: "dma_id list \<Rightarrow> kres set" where
  "res_of ds = (\<Union>d \<in> set ds. dmabuf_res d)"

definition allocated :: "dma_id list \<Rightarrow> softc \<Rightarrow> softc \<Rightarrow> bool" where
  "allocated ds s0 s \<longleftrightarrow>
     dma_inv s \<and> dma_frame s = dma_frame s0 \<and> kres s = kres s0 \<union> res_of ds
     \<and> (\<forall>d. d \<notin> set ds \<longrightarrow> dma s d = dma s0 d)
     \<and> (\<forall>d \<in> set ds. dma_mapped d s \<and> dm_paddr (dma s d) \<noteq> 0)"

definition restored :: "softc \<Rightarrow> softc \<Rightarrow> bool" where
  "restored s0 s \<longleftrightarrow> dma_inv s \<and> dma_frame s = dma_frame s0 \<and> kres s = kres s0 \<and> dma s = dma s0"

lemma free_dmabufs_total:
  "dma_inv s \<Longrightarrow> \<exists>s'. free_dmabufs ds s = Some s' \<and> kres s' = kres s - res_of ds
     \<and> dma s' = (\<lambda>d. if d \<in> set ds then no_dmabuf else dma s d) \<and> dma_frame s' = dma_frame s \<and> dma_inv s'"
proof (induction ds arbitrary: s)
  case Nil
  then show ?case by (simp add: res_of_def)
next
  case (Cons d ds)
  obtain s1 where s1: "sfc7120_free_dmabuf d s = Some s1" "kres s1 = kres s - dmabuf_res d"
      "dma s1 = (dma s)(d := no_dmabuf)" "dma_frame s1 = dma_frame s"
    using free_dmabuf_total [OF Cons.prems] by blast
  obtain s2 where "free_dmabufs ds s1 = Some s2" "kres s2 = kres s1 - res_of ds"
      "dma s2 = (\<lambda>d. if d \<in> set ds then no_dmabuf else dma s1 d)" "dma_frame s2 = dma_frame s1" "dma_inv s2"
    using Cons.IH [OF free_dmabuf_inv [OF Cons.prems s1(1)]] by blast
  with s1 show ?case by (auto simp: res_of_def)
qed

lemma dma_inv_free: "dma_inv s \<Longrightarrow> dma s d = no_dmabuf \<Longrightarrow> kres s \<inter> dmabuf_res d = {}"
  unfolding dma_inv_def by (drule spec [of _ d]) (simp add: dmabuf_held_def no_dmabuf_def)

lemma allocated_Nil: "dma_inv s \<Longrightarrow> allocated [] s s"
  by (simp add: allocated_def res_of_def)

lemma dma_inv_ring [simp]:
  "dma_inv (s\<lparr>evq_ring := q\<rparr>) = dma_inv s" "dma_inv (s\<lparr>data_evq_ring := q\<rparr>) = dma_inv s"
  by (simp_all add: dma_inv_def)

lemma allocated_ring [simp]:
  "allocated ds s0 (s\<lparr>evq_ring := q\<rparr>) = allocated ds s0 s"
  "allocated ds s0 (s\<lparr>data_evq_ring := q\<rparr>) = allocated ds s0 s"
  by (simp_all add: allocated_def dma_mapped_def)

lemma fail_free_restores:
  assumes "allocated ds s0 s" "dma_inv s0" "\<forall>d \<in> set ds. dma s0 d = no_dmabuf"
    "dma_inv s'" "kres s' = kres s" "dma s' = dma s" "dma_frame s' = dma_frame s"
  shows "\<exists>s''. fail_free e ds s' = Some (e, s'') \<and> restored s0 s''"
proof -
  obtain t where t: "free_dmabufs ds s' = Some t" "kres t = kres s' - res_of ds"
      "dma t = (\<lambda>d. if d \<in> set ds then no_dmabuf else dma s' d)" "dma_frame t = dma_frame s'" "dma_inv t"
    using free_dmabufs_total [OF assms(4)] by blast
  have "kres s0 \<inter> res_of ds = {}"
    using dma_inv_free [OF assms(2)] assms(3) by (auto simp: res_of_def)
  then have "kres t = kres s0" "dma t = dma s0"
    using t(2,3) assms(1,3,5,6) by (auto simp: allocated_def)
  with t assms(1,7) show ?thesis by (simp add: fail_free_def restored_def allocated_def)
qed

lemma alloc_step:
  assumes "bus_dma_ok K" "allocated ds s0 s" "dma_inv s0" "\<forall>d' \<in> set (d # ds). dma s0 d' = no_dmabuf" "d \<notin> set ds"
  shows "\<exists>e s'. sfc7120_alloc_dmabuf K d s = Some (e, s')
    \<and> (if e = 0 then allocated (d # ds) s0 s' else \<exists>s''. fail_free e ds s' = Some (e, s'') \<and> restored s0 s'')"
proof -
  have "dma s d = no_dmabuf" "dma_inv s" using assms by (auto simp: allocated_def)
  then obtain e s' where a: "sfc7120_alloc_dmabuf K d s = Some (e, s')" "alloc_dmabuf_post d s e s'"
    using alloc_dmabuf_total [OF assms(1)] by blast
  show ?thesis
  proof (cases "e = 0")
    case True
    then have "allocated (d # ds) s0 s'"
      using a(2) assms(2,5) by (auto simp: alloc_dmabuf_post_def allocated_def res_of_def dma_mapped_def)
    with True a show ?thesis by simp
  next
    case False
    then have "dma_inv s'" "kres s' = kres s" "dma s' = dma s" "dma_frame s' = dma_frame s"
      using a(2) by (auto simp: alloc_dmabuf_post_def)
    with fail_free_restores [OF assms(2,3)] assms(4) False a show ?thesis by auto
  qed
qed

definition six_bufs :: "dma_id list" where
  "six_bufs = [DMA_RX_BUF, DMA_TX_BUF, DMA_RX_DESC, DMA_TX_DESC, DMA_DATA_EVQ, DMA_EVQ]"

text \<open>The six allocations follow one pattern: on failure free what is already there, on success prime
  the ring if it is an event ring and go on.\<close>

fun alloc_chain ::
  "env \<Rightarrow> (dma_id \<times> (softc \<Rightarrow> softc)) list \<Rightarrow> dma_id list \<Rightarrow> softc \<Rightarrow> (int \<times> softc) option" where
  "alloc_chain K [] done s = Some (0, s)"
| "alloc_chain K ((d, f) # ds) done s = do {
     (error, s) \<leftarrow> sfc7120_alloc_dmabuf K d s;
     if error \<noteq> 0 then fail_free error done s else alloc_chain K ds (d # done) (f s) }"

lemma alloc_dma_resources_chain:
  "sfc7120_alloc_dma_resources K s = alloc_chain K
     [(DMA_EVQ, evq_ring_update (\<lambda>_ _. 0xffffffffffffffff)), (DMA_DATA_EVQ, data_evq_ring_update (\<lambda>_ _. 0xffffffffffffffff)),
      (DMA_TX_DESC, \<lambda>s. s), (DMA_RX_DESC, \<lambda>s. s), (DMA_TX_BUF, \<lambda>s. s), (DMA_RX_BUF, \<lambda>s. s)] [] s"
  by (simp add: sfc7120_alloc_dma_resources_def fail_free_def Let_def cong: if_cong)

definition alloc_post :: "dma_id list \<Rightarrow> softc \<Rightarrow> int \<Rightarrow> softc \<Rightarrow> bool" where
  "alloc_post ds s0 e s' \<longleftrightarrow> (if e = 0 then allocated ds s0 s' else restored s0 s')"

lemma alloc_chain_total:
  assumes K: "bus_dma_ok K" and inv: "dma_inv s0"
  shows "allocated done s0 s \<Longrightarrow> \<forall>d \<in> set (map fst ds @ done). dma s0 d = no_dmabuf \<Longrightarrow> distinct (map fst ds @ done) \<Longrightarrow>
    \<forall>f \<in> snd ` set ds. \<forall>bs t. allocated bs s0 (f t) = allocated bs s0 t \<Longrightarrow>
    \<exists>e s'. alloc_chain K ds done s = Some (e, s')
      \<and> alloc_post (rev (map fst ds) @ done) s0 e s'"
proof (induction ds arbitrary: "done" s)
  case Nil
  then show ?case by (simp add: alloc_post_def)
next
  case (Cons df ds)
  obtain d f where df: "df = (d, f)" by fastforce
  obtain e s' where a: "sfc7120_alloc_dmabuf K d s = Some (e, s')"
      "if e = 0 then allocated (d # done) s0 s' else \<exists>s''. fail_free e done s' = Some (e, s'') \<and> restored s0 s''"
    using alloc_step [OF K Cons.prems(1) inv, of d] Cons.prems(2,3) df by auto
  show ?case
  proof (cases "e = 0")
    case True
    then have "allocated (d # done) s0 (f s')" using a(2) Cons.prems(4) df by auto
    from Cons.IH [OF this] Cons.prems(2,3,4) df a(1) True show ?thesis by auto
  next
    case False
    with a df show ?thesis by (auto simp: alloc_post_def)
  qed
qed

lemma alloc_dma_resources_total:
  assumes "bus_dma_ok K" "dma_inv s" "\<forall>d \<in> set six_bufs. dma s d = no_dmabuf"
  shows "\<exists>e s'. sfc7120_alloc_dma_resources K s = Some (e, s')
    \<and> alloc_post six_bufs s e s'"
  unfolding alloc_dma_resources_chain
  using alloc_chain_total [OF assms(1,2) allocated_Nil [OF assms(2)], of
      "[(DMA_EVQ, evq_ring_update (\<lambda>_ _. 0xffffffffffffffff)), (DMA_DATA_EVQ, data_evq_ring_update (\<lambda>_ _. 0xffffffffffffffff)),
        (DMA_TX_DESC, \<lambda>s. s), (DMA_RX_DESC, \<lambda>s. s), (DMA_TX_BUF, \<lambda>s. s), (DMA_RX_BUF, \<lambda>s. s)]"] assms(3)
  by (simp add: six_bufs_def del: alloc_chain.simps)

lemma free_dma_resources_eq: "sfc7120_free_dma_resources s = free_dmabufs six_bufs s"
proof -
  have "free_dmabufs (d # ds) = (\<lambda>s. sfc7120_free_dmabuf d s \<bind> free_dmabufs ds)" for d ds
    by (rule ext) simp
  moreover have "free_dmabufs [] = Some" by (rule ext) simp
  ultimately show ?thesis by (simp add: sfc7120_free_dma_resources_def six_bufs_def)
qed

section \<open>Bring-up stages\<close>

text \<open>
  The interface the life cycle of the device relies on: a stage that is down holds none of its
  kernel resources; setting it up either succeeds with all of them or fails and holds none; tearing
  a stage that is up down gives all of them back.
\<close>

locale bringup_stage =
  fixes start :: "env \<Rightarrow> softc \<Rightarrow> (int \<times> softc) option" and stop :: "softc \<Rightarrow> softc option"
    and env_ok :: "env \<Rightarrow> bool" and down :: "softc \<Rightarrow> bool" and up :: "softc \<Rightarrow> bool" and res :: "kres set"
  assumes start_total: "env_ok K \<Longrightarrow> down s \<Longrightarrow> \<exists>e s'. start K s = Some (e, s')
      \<and> (if e = 0 then up s' \<and> kres s' = kres s \<union> res else down s' \<and> kres s' = kres s)"
    and stop_total: "up s \<Longrightarrow> \<exists>s'. stop s = Some s' \<and> down s' \<and> kres s' = kres s - res"
    and down_free: "down s \<Longrightarrow> kres s \<inter> res = {}"
begin

lemma all_or_nothing:
  assumes "env_ok K" "down s"
  shows "\<exists>e s'. start K s = Some (e, s')
    \<and> (if e = 0 then up s' \<and> res \<subseteq> kres s' else down s' \<and> kres s' \<inter> res = {}) \<and> kres s' - res = kres s"
proof -
  obtain e s' where s': "start K s = Some (e, s')"
      "if e = 0 then up s' \<and> kres s' = kres s \<union> res else down s' \<and> kres s' = kres s"
    using start_total [OF assms] by blast
  with down_free [OF assms(2)] show ?thesis by (auto split: if_splits)
qed

lemma round_trip:
  assumes "env_ok K" "down s" "start K s = Some (0, s')"
  shows "\<exists>s''. stop s' = Some s'' \<and> down s'' \<and> kres s'' = kres s"
proof -
  have "up s'" "kres s' = kres s \<union> res" using start_total [OF assms(1,2)] assms(3) by auto
  with stop_total [of s'] down_free [OF assms(2)] show ?thesis by auto
qed

end

definition dma_down :: "softc \<Rightarrow> bool" where
  "dma_down s \<longleftrightarrow> dma_inv s \<and> list_all (\<lambda>d. dma s d = no_dmabuf) six_bufs"

definition dma_up :: "softc \<Rightarrow> bool" where
  "dma_up s \<longleftrightarrow> dma_inv s \<and> list_all (\<lambda>d. dma_mapped d s \<and> dm_paddr (dma s d) \<noteq> 0) six_bufs"

interpretation dma_stage:
  bringup_stage sfc7120_alloc_dma_resources sfc7120_free_dma_resources bus_dma_ok dma_down dma_up "res_of six_bufs"
proof (unfold_locales, goal_cases)
  case (1 K s)
  then have "\<exists>e s'. sfc7120_alloc_dma_resources K s = Some (e, s') \<and> alloc_post six_bufs s e s'"
    by (intro alloc_dma_resources_total) (simp_all add: dma_down_def list_all_iff)
  then show ?case
    using 1(2) by (auto simp: alloc_post_def allocated_def restored_def dma_up_def dma_down_def list_all_iff split: if_splits)
next
  case (2 s)
  then have "dma_inv s" by (simp add: dma_up_def)
  from free_dmabufs_total [OF this, of six_bufs] show ?case
    by (auto simp: free_dma_resources_eq dma_down_def list_all_iff)
next
  case (3 s)
  then have "dma_inv s" "\<forall>d \<in> set six_bufs. dma s d = no_dmabuf" by (simp_all add: dma_down_def list_all_iff)
  with dma_inv_free show ?case by (auto simp: res_of_def)
qed

section \<open>Properties\<close>

text \<open>Allocating the six DMA buffers is all or nothing: from a state in which none is allocated,
  \<open>sfc7120_alloc_dma_resources\<close> returns, and either every buffer is mapped at a non-zero bus address, or it
  reports an error and the driver holds no more than before; a later \<open>sfc7120_free_dma_resources\<close> undoes a
  success exactly.\<close>

theorem dma_all_or_nothing:
  assumes "bus_dma_ok K" "dma_down s"
  shows "\<exists>e s'. sfc7120_alloc_dma_resources K s = Some (e, s')
    \<and> (if e = 0 then dma_up s' \<and> (\<exists>s''. sfc7120_free_dma_resources s' = Some s'' \<and> dma_down s'' \<and> kres s'' = kres s)
       else dma_down s' \<and> kres s' = kres s)"
proof -
  obtain e s' where s': "sfc7120_alloc_dma_resources K s = Some (e, s')"
      "if e = 0 then dma_up s' \<and> res_of six_bufs \<subseteq> kres s' else dma_down s' \<and> kres s' \<inter> res_of six_bufs = {}"
      "kres s' - res_of six_bufs = kres s"
    using dma_stage.all_or_nothing [OF assms] by blast
  then show ?thesis using dma_stage.round_trip [OF assms, of s'] by (auto split: if_splits)
qed

lemma quiet_bus_dma: "bus_dma_ok quiet_env"
  by (auto simp: bus_dma_ok_def quiet_env_def)

lemma zero_dma_inv: "dma_inv zero_softc"
  by (simp add: dma_inv_def zero_softc_fields dmabuf_held_def no_dmabuf_def)

lemma zero_dma_down: "dma_down zero_softc"
  using zero_dma_inv by (simp add: dma_down_def zero_softc_fields list_all_iff)

theorem dma_all_or_nothing_witness:
  "\<exists>e s'. sfc7120_alloc_dma_resources quiet_env zero_softc = Some (e, s')
    \<and> (if e = 0 then dma_up s' \<and> (\<exists>s''. sfc7120_free_dma_resources s' = Some s'' \<and> dma_down s'' \<and> kres s'' = {})
       else dma_down s' \<and> kres s' = {})"
  by (rule dma_all_or_nothing [OF quiet_bus_dma zero_dma_down, unfolded zero_softc_fields(1)])

end
