(* ===== verification/Mcdi.thy ===== *)
theory Mcdi
  imports Dma
begin

text \<open>
  The MCDI transport of \<open>sfc7120_mcdi.c\<close>: the 256-byte DMA mailbox and its accessors, request
  framing (MCDI v1 and the v2 escape), the doorbell, the bounded poll for the response and the
  synchronous \<open>sfc7120_mcdi_exec\<close>.  The MC writes the mailbox between the driver's accesses; what it
  wrote becomes visible at each \<open>BUS_DMASYNC_POSTREAD\<close>.
\<close>

section \<open>Constants\<close>

abbreviation (input) MCDI_HEADER_LEN :: nat where "MCDI_HEADER_LEN \<equiv> 4"
abbreviation (input) MCDI_V2_HEADER_LEN :: nat where "MCDI_V2_HEADER_LEN \<equiv> 8"
abbreviation (input) MCDI_PAYLOAD_LEN_MAX_V1 :: nat where "MCDI_PAYLOAD_LEN_MAX_V1 \<equiv> 252"
abbreviation (input) MCDI_BUF_LEN :: nat where "MCDI_BUF_LEN \<equiv> 256"
abbreviation (input) MC_CMD_V2_EXTN :: u32 where "MC_CMD_V2_EXTN \<equiv> 0x7f"
abbreviation (input) SFC7120_MCDI_POLL_MIN_US :: nat where "SFC7120_MCDI_POLL_MIN_US \<equiv> 10"
abbreviation (input) SFC7120_MCDI_POLL_MAX_US :: nat where "SFC7120_MCDI_POLL_MAX_US \<equiv> 100000"
abbreviation (input) SFC7120_MCDI_TIMEOUT_US :: nat where "SFC7120_MCDI_TIMEOUT_US \<equiv> 10000000"

section \<open>Mailbox accessors\<close>

definition mb_get32 :: "nat \<Rightarrow> (nat \<Rightarrow> u8) \<Rightarrow> u32" where
  "mb_get32 off m = le32 (m off) (m (off + 1)) (m (off + 2)) (m (off + 3))"

definition mb_put32 :: "nat \<Rightarrow> u32 \<Rightarrow> (nat \<Rightarrow> u8) \<Rightarrow> nat \<Rightarrow> u8" where
  "mb_put32 off v m = m(off := byte_of 0 v, off + 1 := byte_of 1 v, off + 2 := byte_of 2 v, off + 3 := byte_of 3 v)"

definition mcdi_buf_write_dword :: "nat \<Rightarrow> u32 \<Rightarrow> softc \<Rightarrow> softc option" where
  "mcdi_buf_write_dword offset v s =
     (if dma_mapped DMA_MCDI s \<and> offset + 4 \<le> MCDI_BUF_LEN
      then Some (s\<lparr>mcdi_buf := mb_put32 offset v (mcdi_buf s)\<rparr>) else None)"

definition mcdi_buf_read_dword :: "nat \<Rightarrow> softc \<Rightarrow> u32 option" where
  "mcdi_buf_read_dword offset s =
     (if dma_mapped DMA_MCDI s \<and> offset + 4 \<le> MCDI_BUF_LEN then Some (mb_get32 offset (mcdi_buf s)) else None)"

text \<open>The payload loop copies dwords; a partial last dword is padded with zeros.\<close>

fun mcdi_buf_write_payload :: "nat \<Rightarrow> u8 list \<Rightarrow> softc \<Rightarrow> softc option" where
  "mcdi_buf_write_payload offset [] s = Some s"
| "mcdi_buf_write_payload offset [a] s = mcdi_buf_write_dword offset (le32 a 0 0 0) s"
| "mcdi_buf_write_payload offset [a, b] s = mcdi_buf_write_dword offset (le32 a b 0 0) s"
| "mcdi_buf_write_payload offset [a, b, c] s = mcdi_buf_write_dword offset (le32 a b c 0) s"
| "mcdi_buf_write_payload offset (a # b # c # d # rest) s = do {
     s \<leftarrow> mcdi_buf_write_dword offset (le32 a b c d) s;
     mcdi_buf_write_payload (offset + 4) rest s }"

definition bytes32 :: "u32 \<Rightarrow> u8 list" where
  "bytes32 v = [byte_of 0 v, byte_of 1 v, byte_of 2 v, byte_of 3 v]"

fun mcdi_buf_read_payload :: "nat \<Rightarrow> nat \<Rightarrow> softc \<Rightarrow> u8 list option" where
  "mcdi_buf_read_payload offset len s =
     (if 4 \<le> len then do {
        v \<leftarrow> mcdi_buf_read_dword offset s;
        rest \<leftarrow> mcdi_buf_read_payload (offset + 4) (len - 4) s;
        Some (bytes32 v @ rest) }
      else if 0 < len then do { v \<leftarrow> mcdi_buf_read_dword offset s; Some (take len (bytes32 v)) }
      else Some [])"

declare mcdi_buf_read_payload.simps [simp del]

section \<open>Mailbox allocation, init and fini\<close>

definition sfc7120_mcdi_alloc_buf :: "env \<Rightarrow> softc \<Rightarrow> (int \<times> softc) option" where
  "sfc7120_mcdi_alloc_buf K s = do {
     let error = tag_create K (io s) DMA_MCDI;
     if error \<noteq> 0 then Some (error, emit (Call ''bus_dma_tag_create'') s)
     else do {
       let s = dma_upd DMA_MCDI (\<lambda>b. b\<lparr>dm_tag := True\<rparr>) (grab (KTag DMA_MCDI) s);
       let (error, va) = mem_alloc K (io s) DMA_MCDI;
       if error \<noteq> 0 then do {
         s \<leftarrow> release (KTag DMA_MCDI) (emit (Call ''bus_dmamem_alloc'') s);
         Some (error, dma_upd DMA_MCDI (\<lambda>b. b\<lparr>dm_tag := False\<rparr>) s) }
       else do {
         let s = dma_zero DMA_MCDI
                   (dma_upd DMA_MCDI (\<lambda>b. b\<lparr>dm_vaddr := va, dm_paddr := 0\<rparr>) (grab (KMem DMA_MCDI) s));
         let (error, pa, s) = dmamap_load K DMA_MCDI s;
         let s = dma_upd DMA_MCDI (\<lambda>b. b\<lparr>dm_paddr := pa\<rparr>) s;
         if error \<noteq> 0 \<or> pa = 0 then do {
           s \<leftarrow> release (KMem DMA_MCDI) s;
           s \<leftarrow> release (KTag DMA_MCDI) s;
           Some (if error \<noteq> 0 then error else ENOMEM,
                 dma_upd DMA_MCDI (\<lambda>b. b\<lparr>dm_vaddr := 0, dm_tag := False\<rparr>) s) }
         else do {
           kassert (dm_paddr (dma s DMA_MCDI) AND 0xff = 0);
           Some (0, s) } } } }"

definition sfc7120_mcdi_free_buf :: "softc \<Rightarrow> softc option" where
  "sfc7120_mcdi_free_buf s = do {
     s \<leftarrow> (if dm_paddr (dma s DMA_MCDI) \<noteq> 0 then do {
             s \<leftarrow> release (KMap DMA_MCDI) s; Some (dma_upd DMA_MCDI (\<lambda>b. b\<lparr>dm_paddr := 0\<rparr>) s) } else Some s);
     s \<leftarrow> (if dm_vaddr (dma s DMA_MCDI) \<noteq> 0 then do {
             s \<leftarrow> release (KMem DMA_MCDI) s; Some (dma_upd DMA_MCDI (\<lambda>b. b\<lparr>dm_vaddr := 0\<rparr>) s) } else Some s);
     if dm_tag (dma s DMA_MCDI) then do {
       s \<leftarrow> release (KTag DMA_MCDI) s; Some (dma_upd DMA_MCDI (\<lambda>b. b\<lparr>dm_tag := False\<rparr>) s) } else Some s }"

text \<open>\<open>pcie_flr\<close> is attempted; its failure is ignored.  The function has no caller.\<close>

definition sfc7120_pcie_flr :: "softc \<Rightarrow> int \<times> softc" where
  "sfc7120_pcie_flr s = (0, emit (Call ''pcie_flr'') s)"

text \<open>\<open>mcdi_init_fail\<close> is the label \<open>fail\<close>.  \<open>PCIM_CMD_MEMEN | PCIM_CMD_BUSMASTEREN\<close> is 6.\<close>

definition mcdi_init_fail :: "int \<Rightarrow> softc \<Rightarrow> (int \<times> softc) option" where
  "mcdi_init_fail error s = do {
     s \<leftarrow> sfc7120_mcdi_free_buf s;
     m \<leftarrow> mtx_destroy (mcdi_mtx s);
     Some (error, s\<lparr>mcdi_mtx := m\<rparr>) }"

definition sfc7120_mcdi_init :: "env \<Rightarrow> softc \<Rightarrow> (int \<times> softc) option" where
  "sfc7120_mcdi_init K s = do {
     kassert (\<not> mcdi_initialized s);
     m \<leftarrow> mtx_init (mcdi_mtx s);
     let s = s\<lparr>mcdi_mtx := m\<rparr>;
     (error, s) \<leftarrow> sfc7120_mcdi_alloc_buf K s;
     if error \<noteq> 0 then do {
       m \<leftarrow> mtx_destroy (mcdi_mtx s);
       Some (error, s\<lparr>mcdi_mtx := m\<rparr>) }
     else do {
       let pci_cmd = pci_command K (io s);
       let s = emit PciRead s;
       if pci_cmd AND 6 \<noteq> 6 then mcdi_init_fail ENXIO s
       else do {
         let (hw_rev, s) = SFC7120_READ_REG K EF10_REG_BIU_HW_REV_ID s;
         if hw_rev \<noteq> EF10_REG_BIU_HW_REV_ID_RESET then mcdi_init_fail ENXIO s
         else do {
           let (mc_sft_status, s) = SFC7120_READ_REG K EF10_REG_BIU_MC_SFT_STATUS s;
           let s = SFC7120_WRITE_REG EF10_REG_MC_DB_HWRD 1 s;
           Some (0, s\<lparr>mcdi_seq := 0, mcdi_new_epoch := True, mcdi_prev_reboot_status := mc_sft_status,
                      mcdi_initialized := True\<rparr>) } } } }"

definition sfc7120_mcdi_fini :: "softc \<Rightarrow> softc option" where
  "sfc7120_mcdi_fini s =
     (if \<not> mcdi_initialized s then Some s
      else do {
        s \<leftarrow> sfc7120_mcdi_free_buf s;
        m \<leftarrow> mtx_destroy (mcdi_mtx s);
        Some (s\<lparr>mcdi_mtx := m, mcdi_initialized := False\<rparr>) })"

section \<open>Sending and polling\<close>

text \<open>The two header words, as \<open>sfc7120_mcdi_send_locked\<close> assembles them.\<close>

definition mcdi_v1_hdr :: "u32 \<Rightarrow> nat \<Rightarrow> u8 \<Rightarrow> bool \<Rightarrow> u32" where
  "mcdi_v1_hdr code datalen seq new_epoch =
     (code AND 0x7f) OR push_bit 8 (of_nat datalen AND 0xff) OR push_bit 16 (ucast seq AND 0x0f)
     OR (if \<not> new_epoch then push_bit 21 1 else 0)"

definition mcdi_v2_hdr :: "u32 \<Rightarrow> nat \<Rightarrow> u32" where
  "mcdi_v2_hdr cmd in_len = (cmd AND 0x7fff) OR push_bit 16 (of_nat in_len AND 0x3ff)"

definition mcdi_use_v2 :: "u32 \<Rightarrow> nat \<Rightarrow> bool" where
  "mcdi_use_v2 cmd in_len \<longleftrightarrow> cmd \<ge> MC_CMD_V2_EXTN \<or> in_len > MCDI_PAYLOAD_LEN_MAX_V1"

definition sfc7120_mcdi_send_locked :: "u32 \<Rightarrow> u8 list \<Rightarrow> u8 \<Rightarrow> softc \<Rightarrow> (nat \<times> softc) option" where
  "sfc7120_mcdi_send_locked cmd inp seq s = do {
     kassert (mcdi_mtx s = MtxOwned);
     kassert (length inp \<le> MCDI_PAYLOAD_LEN_MAX_V1);
     (payload_off, s) \<leftarrow>
       (if mcdi_use_v2 cmd (length inp) then do {
          s \<leftarrow> mcdi_buf_write_dword 0 (mcdi_v1_hdr MC_CMD_V2_EXTN 0 seq (mcdi_new_epoch s)) s;
          s \<leftarrow> mcdi_buf_write_dword MCDI_HEADER_LEN (mcdi_v2_hdr cmd (length inp)) s;
          Some (MCDI_V2_HEADER_LEN, s) }
        else do {
          s \<leftarrow> mcdi_buf_write_dword 0 (mcdi_v1_hdr cmd (length inp) seq (mcdi_new_epoch s)) s;
          Some (MCDI_HEADER_LEN, s) });
     s \<leftarrow> (if length inp > 0 then mcdi_buf_write_payload payload_off inp s else Some s);
     let s = emit (McPrewrite (mcdi_buf s)) s;
     let paddr = dm_paddr (dma s DMA_MCDI);
     let s = SFC7120_WRITE_REG EF10_REG_MC_DB_LWRD (ucast (drop_bit 32 paddr)) s;
     let s = SFC7120_WRITE_REG EF10_REG_MC_DB_HWRD (ucast (paddr AND 0xffffffff)) s;
     Some (payload_off, s) }"

definition mcdi_sync :: "env \<Rightarrow> softc \<Rightarrow> softc" where
  "mcdi_sync K s = (let s = emit McPostread s in s\<lparr>mcdi_buf := dma_in (mc_mem K (io s)) (mcdi_buf s)\<rparr>)"

definition sfc7120_mcdi_poll_response :: "env \<Rightarrow> softc \<Rightarrow> (bool \<times> softc) option" where
  "sfc7120_mcdi_poll_response K s = do {
     kassert (mcdi_mtx s = MtxOwned);
     let s = mcdi_sync K s;
     header \<leftarrow> mcdi_buf_read_dword 0 s;
     Some (drop_bit 23 header AND 0x1 \<noteq> 0, s) }"

text \<open>The poll loop: exponential backoff from 10 us, capped at 100 ms, until a response is seen or the
  time waited reaches the timeout.  The result says whether a response was seen.\<close>

partial_function (option) mcdi_wait :: "env \<Rightarrow> nat \<Rightarrow> nat \<Rightarrow> softc \<Rightarrow> (bool \<times> softc) option" where
  "mcdi_wait K delay_us total_us s = do {
     (resp, s) \<leftarrow> sfc7120_mcdi_poll_response K s;
     if resp then Some (True, s)
     else if total_us \<ge> SFC7120_MCDI_TIMEOUT_US then Some (False, s)
     else mcdi_wait K (if delay_us * 2 > SFC7120_MCDI_POLL_MAX_US then SFC7120_MCDI_POLL_MAX_US else delay_us * 2)
            (total_us + delay_us) (emit (Delay delay_us) s) }"

section \<open>Exec\<close>

definition sfc7120_mcdi_xlate_err :: "u32 \<Rightarrow> int" where
  "sfc7120_mcdi_xlate_err mc_err =
     (if mc_err = 0 then 0
      else if mc_err = 1 then EPERM
      else if mc_err = 2 then ENOENT
      else if mc_err = 4 then EINTR
      else if mc_err = 5 then EIO
      else if mc_err = 11 then EAGAIN
      else if mc_err = 12 then ENOMEM
      else if mc_err = 13 then EACCES
      else if mc_err = 16 then EBUSY
      else if mc_err = 22 then EINVAL
      else if mc_err = 38 then ENOSYS
      else if mc_err = 62 then ETIMEDOUT
      else if mc_err = 95 then EOPNOTSUPP
      else EIO)"

text \<open>The label \<open>out\<close>: advance epoch and sequence number, unlock, return \<open>rc\<close>.\<close>

definition mcdi_out :: "int \<Rightarrow> u8 list \<Rightarrow> nat \<Rightarrow> softc \<Rightarrow> (int \<times> u8 list \<times> nat \<times> softc) option" where
  "mcdi_out rc out used s = do {
     let s = s\<lparr>mcdi_new_epoch := False, mcdi_seq := (mcdi_seq s + 1) AND 0x0f\<rparr>;
     s \<leftarrow> SFC7120_MCDI_UNLOCK s;
     Some (rc, out, used, s) }"

text \<open>The timeout branch: diagnostics, then the same bookkeeping.\<close>

definition mcdi_timeout :: "env \<Rightarrow> u8 list \<Rightarrow> nat \<Rightarrow> softc \<Rightarrow> (int \<times> u8 list \<times> nat \<times> softc) option" where
  "mcdi_timeout K out used s = do {
     let s = mcdi_sync K s;
     _ \<leftarrow> mcdi_buf_read_dword 0 s;
     _ \<leftarrow> mcdi_buf_read_dword 4 s;
     _ \<leftarrow> mcdi_buf_read_dword 8 s;
     _ \<leftarrow> mcdi_buf_read_dword 12 s;
     let (_, s) = SFC7120_READ_REG K EF10_REG_BIU_HW_REV_ID s;
     let (_, s) = SFC7120_READ_REG K EF10_REG_BIU_MC_SFT_STATUS s;
     let s = emit PciRead s;
     mcdi_out ETIMEDOUT out used s }"

text \<open>The response is in the mailbox: check it and copy it out.\<close>

definition mcdi_response :: "nat \<Rightarrow> u8 \<Rightarrow> u8 list \<Rightarrow> nat \<Rightarrow> softc \<Rightarrow> (int \<times> u8 list \<times> nat \<times> softc) option" where
  "mcdi_response payload_off seq out used s = do {
     header \<leftarrow> mcdi_buf_read_dword 0 s;
     resp_datalen \<leftarrow> (if payload_off = MCDI_V2_HEADER_LEN then do {
                        v2_hdr \<leftarrow> mcdi_buf_read_dword MCDI_HEADER_LEN s;
                        Some (drop_bit 16 v2_hdr AND 0x3ff) }
                      else Some (drop_bit 8 header AND 0xff));
     if (ucast (drop_bit 16 header AND 0x0f) :: u8) \<noteq> seq then mcdi_out EPROTO out used s
     else if drop_bit 22 header AND 0x1 \<noteq> 0 then do {
       mc_err \<leftarrow> (if resp_datalen \<ge> 4 then mcdi_buf_read_dword payload_off s else Some 0);
       mcdi_out (sfc7120_mcdi_xlate_err mc_err) out used s }
     else if length out > 0 then do {
       let copy = (if unat resp_datalen < length out then unat resp_datalen else length out);
       bs \<leftarrow> (if copy > 0 then mcdi_buf_read_payload payload_off copy s else Some []);
       mcdi_out 0 (bs @ replicate (length out - copy) 0) copy s }
     else mcdi_out 0 out 0 s }"

text \<open>\<open>out\<close> is the caller's response buffer (empty for a NULL one) and \<open>used\<close> the value of \<open>*out_used\<close>
  before the call; both are returned as the call leaves them.\<close>

definition sfc7120_mcdi_exec ::
  "env \<Rightarrow> u32 \<Rightarrow> u8 list \<Rightarrow> u8 list \<Rightarrow> nat \<Rightarrow> softc \<Rightarrow> (int \<times> u8 list \<times> nat \<times> softc) option" where
  "sfc7120_mcdi_exec K cmd inp out used s =
     (if \<not> mcdi_initialized s then Some (ENXIO, out, used, s)
      else if length inp > MCDI_PAYLOAD_LEN_MAX_V1 \<or> length out > MCDI_PAYLOAD_LEN_MAX_V1
           then Some (EINVAL, out, used, s)
      else do {
        s \<leftarrow> SFC7120_MCDI_LOCK s;
        let seq = mcdi_seq s AND 0x0f;
        (payload_off, s) \<leftarrow> sfc7120_mcdi_send_locked cmd inp seq s;
        (resp, s) \<leftarrow> mcdi_wait K SFC7120_MCDI_POLL_MIN_US 0 s;
        if \<not> resp then mcdi_timeout K out used s
        else mcdi_response payload_off seq out used s })"

section \<open>Mailbox contents\<close>

lemma mb_get32_put32_same [mem_simps]: "mb_get32 off (mb_put32 off v m) = v"
  by (simp add: mb_get32_def mb_put32_def byte_simps)

lemma mb_get32_put32_other [mem_simps]:
  "off + 4 \<le> off' \<or> off' + 4 \<le> off \<Longrightarrow> mb_get32 off (mb_put32 off' v m) = mb_get32 off m"
  by (auto simp: mb_get32_def mb_put32_def)

definition pad4 :: "nat \<Rightarrow> nat" where
  "pad4 n = 4 * ((n + 3) div 4)"

lemma pad4_simps [simp]: "pad4 0 = 0" "pad4 (Suc 0) = 4" "pad4 2 = 4" "pad4 3 = 4" "pad4 (n + 4) = pad4 n + 4"
    "pad4 (Suc (Suc 0)) = 4" "pad4 (Suc (Suc (Suc 0))) = 4" "pad4 (Suc (Suc (Suc (Suc n)))) = pad4 n + 4"
  by (simp_all add: pad4_def, presburger+)

lemma pad4_ge: "n \<le> pad4 n" "pad4 n \<le> n + 3"
  unfolding pad4_def by presburger+

lemma pad4_mono: "m \<le> n \<Longrightarrow> pad4 m \<le> pad4 n"
  by (simp add: pad4_def div_le_mono)

definition mb_write :: "nat \<Rightarrow> u8 list \<Rightarrow> (nat \<Rightarrow> u8) \<Rightarrow> nat \<Rightarrow> u8" where
  "mb_write off bs m i =
     (if off \<le> i \<and> i < off + length bs then bs ! (i - off)
      else if off + length bs \<le> i \<and> i < off + pad4 (length bs) then 0 else m i)"

definition mb_read :: "nat \<Rightarrow> nat \<Rightarrow> (nat \<Rightarrow> u8) \<Rightarrow> u8 list" where
  "mb_read off len m = map (\<lambda>i. m (off + i)) [0..<len]"

lemma dma_mapped_buf [simp]: "dma_mapped d (s\<lparr>mcdi_buf := m\<rparr>) = dma_mapped d s"
  by (simp add: dma_mapped_def)

lemma mb_write_Nil [simp]: "mb_write off [] m = m"
  by (rule ext) (auto simp: mb_write_def)

lemma mb_write_tail:
  "mb_write off [a] m = mb_put32 off (le32 a 0 0 0) m"
  "mb_write off [a, b] m = mb_put32 off (le32 a b 0 0) m"
  "mb_write off [a, b, c] m = mb_put32 off (le32 a b c 0) m"
  by (rule ext, auto simp: mb_write_def mb_put32_def byte_simps nth_Cons' less_Suc_eq)+

lemma mb_write_step:
  "mb_write (off + 4) rest (mb_put32 off (le32 a b c d) m) = mb_write off (a # b # c # d # rest) m"
proof (rule ext)
  fix i
  consider "i < off" | "i = off" | "i = off + 1" | "i = off + 2" | "i = off + 3" | "off + 4 \<le> i" by linarith
  then show "mb_write (off + 4) rest (mb_put32 off (le32 a b c d) m) i = mb_write off (a # b # c # d # rest) m i"
    by cases (auto simp: mb_write_def mb_put32_def byte_simps nth_Cons' numeral_eq_Suc)
qed

lemma mcdi_buf_write_payload_eq:
  "dma_mapped DMA_MCDI s \<Longrightarrow> off + pad4 (length bs) \<le> MCDI_BUF_LEN \<Longrightarrow>
   mcdi_buf_write_payload off bs s = Some (s\<lparr>mcdi_buf := mb_write off bs (mcdi_buf s)\<rparr>)"
proof (induction off bs s rule: mcdi_buf_write_payload.induct)
  case (5 off a b c d rest s)
  then show ?case by (simp add: mcdi_buf_write_dword_def mb_write_step [symmetric])
qed (simp_all add: mcdi_buf_write_dword_def mb_write_tail)

lemma upt_4: "4 \<le> n \<Longrightarrow> [0..<n] = [0, 1, 2, 3] @ map (\<lambda>i. i + 4) [0..<n - 4]"
proof -
  assume "4 \<le> n"
  then have "[0..<n] = [0..<4] @ [4..<n]" using upt_add_eq_append [of 0 4 "n - 4"] by simp
  moreover have "[0..<4] = [0, 1, 2, 3::nat]" by (simp add: upt_rec)
  moreover have "[4..<n] = map (\<lambda>i. i + 4) [0..<n - 4]"
    using map_add_upt [of 4 "n - 4"] \<open>4 \<le> n\<close> by simp
  ultimately show ?thesis by simp
qed

lemma mb_read_0 [simp]: "mb_read off 0 m = []"
  by (simp add: mb_read_def)

lemma mb_read_step: "4 \<le> len \<Longrightarrow> mb_read off len m = bytes32 (mb_get32 off m) @ mb_read (off + 4) (len - 4) m"
  by (simp add: mb_read_def upt_4 bytes32_def mb_get32_def byte_simps comp_def ac_simps)

lemma mb_read_tail: "0 < len \<Longrightarrow> len < 4 \<Longrightarrow> mb_read off len m = take len (bytes32 (mb_get32 off m))"
proof -
  assume "0 < len" "len < 4"
  then consider "len = 1" | "len = 2" | "len = 3" by linarith
  then show ?thesis
    by cases (simp_all add: mb_read_def bytes32_def mb_get32_def byte_simps upt_rec numeral_eq_Suc)
qed

lemma mcdi_buf_read_payload_eq:
  "dma_mapped DMA_MCDI s \<Longrightarrow> off + pad4 len \<le> MCDI_BUF_LEN \<Longrightarrow>
   mcdi_buf_read_payload off len s = Some (mb_read off len (mcdi_buf s))"
proof (induction off len s rule: mcdi_buf_read_payload.induct)
  case (1 off len s)
  show ?case
  proof (cases "4 \<le> len")
    case True
    then have p: "pad4 len = pad4 (len - 4) + 4" using pad4_simps(5) [of "len - 4"] by simp
    show ?thesis
      using 1 True p
      by (subst mcdi_buf_read_payload.simps) (simp add: mcdi_buf_read_dword_def mb_read_step)
  next
    case False
    have "len \<le> pad4 len" "0 < len \<Longrightarrow> 4 \<le> pad4 len" unfolding pad4_def by presburger+
    with False 1(2,3) show ?thesis
      by (subst mcdi_buf_read_payload.simps; cases "len = 0")
         (auto simp: mcdi_buf_read_dword_def mb_read_tail)
  qed
qed

lemma mb_read_write: "mb_read off (length bs) (mb_write off bs m) = bs"
  by (rule nth_equalityI) (simp_all add: mb_read_def mb_write_def)

lemma mb_get32_write_other: "off + 4 \<le> off' \<Longrightarrow> mb_get32 off (mb_write off' bs m) = mb_get32 off m"
proof -
  assume "off + 4 \<le> off'"
  then have "mb_write off' bs m i = m i" if "i < off + 4" for i
    using that by (simp add: mb_write_def)
  then show ?thesis by (simp add: mb_get32_def)
qed

lemma length_mb_read [simp]: "length (mb_read off n m) = n"
  by (simp add: mb_read_def)

section \<open>Header fields\<close>

lemma bit_1_21 [simp]:
  "bit (2097152 :: u32) n \<longleftrightarrow> n = 21" "bit (2097152 :: int) n \<longleftrightarrow> n = 21" "bit (2097152 :: nat) n \<longleftrightarrow> n = 21"
proof -
  have e: "(2097152 :: int) = 2 ^ 21" "(2097152 :: nat) = 2 ^ 21" by simp_all
  show "bit (2097152 :: int) n \<longleftrightarrow> n = 21" "bit (2097152 :: nat) n \<longleftrightarrow> n = 21"
    unfolding e by (auto simp only: bit_exp_iff possible_bit_int possible_bit_nat)
  have "(2097152 :: u32) = 2 ^ 21" by simp
  then show "bit (2097152 :: u32) n \<longleftrightarrow> n = 21" by (simp only: bit_exp_iff) auto
qed

lemma flag_bit: "(drop_bit n (x :: 'a::len word) AND 1 \<noteq> 0) = bit x n"
  by (simp add: bit_iff_and_drop_bit_eq_1 and_one_eq)

named_theorems hdr_simps "fields of the MCDI header words"

lemma v1_fields [hdr_simps]:
  "mcdi_v1_hdr c n q e AND 0x7f = c AND 0x7f"
  "drop_bit 8 (mcdi_v1_hdr c n q e) AND 0xff = of_nat n AND 0xff"
  "drop_bit 16 (mcdi_v1_hdr c n q e) AND 0x0f = ucast q AND 0x0f"
  by (rule bit_word_eqI, auto simp: mcdi_v1_hdr_def mask_simps bit_simps)+

lemma v1_flags [hdr_simps]:
  "bit (mcdi_v1_hdr c n q e) 21 \<longleftrightarrow> \<not> e" "bit (mcdi_v1_hdr c n q e) 22 = False" "bit (mcdi_v1_hdr c n q e) 23 = False"
  by (auto simp: mcdi_v1_hdr_def mask_simps bit_simps)

lemma v2_fields [hdr_simps]:
  "mcdi_v2_hdr c n AND 0x7fff = c AND 0x7fff"
  "drop_bit 16 (mcdi_v2_hdr c n) AND 0x3ff = of_nat n AND 0x3ff"
  by (rule bit_word_eqI, auto simp: mcdi_v2_hdr_def mask_simps bit_simps)+

lemma field_bounds:
  "n < 256 \<Longrightarrow> unat ((of_nat n :: u32) AND 0xff) = n" "n < 1024 \<Longrightarrow> unat ((of_nat n :: u32) AND 0x3ff) = n"
  by (simp_all add: mask_simps unsigned_take_bit_eq unsigned_of_nat take_bit_nat_eq_self)

lemma field_self:
  "c < 0x7f \<Longrightarrow> (c::u32) AND 0x7f = c" "c < 0x8000 \<Longrightarrow> (c::u32) AND 0x7fff = c"
  "q < 16 \<Longrightarrow> (q::u8) AND 0x0f = q" "q < 16 \<Longrightarrow> (ucast q :: u32) AND 0x0f = ucast (q::u8)"
  by (rule unsigned_word_eqI [where 'a = nat];
      simp add: mask_simps word_less_nat_alt take_bit_nat_eq_self unsigned_take_bit_eq unsigned_ucast_eq)+

lemma ucast_u8_u32: "(ucast (ucast (q :: u8) :: u32) :: u8) = q"
  by (rule bit_word_eqI) (simp add: bit_simps)

section \<open>The request on the wire\<close>

definition mcdi_hdr_len :: "u32 \<Rightarrow> nat \<Rightarrow> nat" where
  "mcdi_hdr_len cmd n = (if mcdi_use_v2 cmd n then MCDI_V2_HEADER_LEN else MCDI_HEADER_LEN)"

definition mcdi_request :: "u32 \<Rightarrow> u8 list \<Rightarrow> u8 \<Rightarrow> bool \<Rightarrow> (nat \<Rightarrow> u8) \<Rightarrow> nat \<Rightarrow> u8" where
  "mcdi_request cmd inp seq new_epoch m =
     mb_write (mcdi_hdr_len cmd (length inp)) inp
       (if mcdi_use_v2 cmd (length inp)
        then mb_put32 4 (mcdi_v2_hdr cmd (length inp)) (mb_put32 0 (mcdi_v1_hdr MC_CMD_V2_EXTN 0 seq new_epoch) m)
        else mb_put32 0 (mcdi_v1_hdr cmd (length inp) seq new_epoch) m)"

text \<open>How the MC reads a request, from the wire format at the top of \<open>sfc7120_mcdi.h\<close> and the v2
  escape: command, sequence number, first-of-epoch flag and payload.\<close>

definition mc_parse :: "(nat \<Rightarrow> u8) \<Rightarrow> u32 \<times> u8 \<times> bool \<times> u8 list" where
  "mc_parse m =
     (let h = mb_get32 0 m; e = mb_get32 4 m;
          seq = ucast (drop_bit 16 h AND 0x0f); first = (\<not> bit h 21)
      in if h AND 0x7f = MC_CMD_V2_EXTN
         then (e AND 0x7fff, seq, first, mb_read 8 (unat (drop_bit 16 e AND 0x3ff)) m)
         else (h AND 0x7f, seq, first, mb_read 4 (unat (drop_bit 8 h AND 0xff)) m))"

lemma mcdi_request_v1:
  assumes "\<not> mcdi_use_v2 cmd (length inp)"
  shows "mb_get32 0 (mcdi_request cmd inp seq e m) = mcdi_v1_hdr cmd (length inp) seq e"
    "mb_read 4 (length inp) (mcdi_request cmd inp seq e m) = inp"
  using assms
  by (simp_all add: mcdi_request_def mcdi_hdr_len_def mb_get32_write_other mb_read_write mem_simps)

lemma mcdi_request_v2:
  assumes "mcdi_use_v2 cmd (length inp)"
  shows "mb_get32 0 (mcdi_request cmd inp seq e m) = mcdi_v1_hdr MC_CMD_V2_EXTN 0 seq e"
    "mb_get32 4 (mcdi_request cmd inp seq e m) = mcdi_v2_hdr cmd (length inp)"
    "mb_read 8 (length inp) (mcdi_request cmd inp seq e m) = inp"
  using assms
  by (simp_all add: mcdi_request_def mcdi_hdr_len_def mb_get32_write_other mb_read_write mem_simps)

lemma mc_parse_request:
  assumes "cmd < 0x8000" "seq < 16" "length inp \<le> MCDI_PAYLOAD_LEN_MAX_V1"
  shows "mc_parse (mcdi_request cmd inp seq e m) = (cmd, seq, e, inp)"
proof (cases "mcdi_use_v2 cmd (length inp)")
  case True
  then show ?thesis
    using assms by (simp add: mc_parse_def mcdi_request_v2 hdr_simps field_self field_bounds Let_def ucast_u8_u32)
next
  case False
  then have "cmd < 0x7f" "cmd \<noteq> 0x7f" by (auto simp: mcdi_use_v2_def not_le)
  with False assms show ?thesis
    by (simp add: mc_parse_def mcdi_request_v1 hdr_simps field_self field_bounds Let_def ucast_u8_u32)
qed

definition fits :: "u32 \<Rightarrow> nat \<Rightarrow> nat \<Rightarrow> bool" where
  "fits cmd n off \<longleftrightarrow> mcdi_hdr_len cmd n + pad4 off \<le> MCDI_BUF_LEN"

text \<open>The events a request leaves behind, newest first: mailbox written out, then the high half of its
  bus address, then the low half, which starts the command.\<close>

definition request_io :: "(nat \<Rightarrow> u8) \<Rightarrow> u64 \<Rightarrow> io list" where
  "request_io m pa = [RegWrite EF10_REG_MC_DB_HWRD (ucast (pa AND 0xffffffff)),
                      RegWrite EF10_REG_MC_DB_LWRD (ucast (drop_bit 32 pa)), McPrewrite m]"

lemma fits_len: "fits cmd n n \<Longrightarrow> n \<le> MCDI_PAYLOAD_LEN_MAX_V1"
  using pad4_ge(1) [of n] by (auto simp: fits_def mcdi_hdr_len_def split: if_splits)

lemma send_locked_eq:
  assumes "mcdi_mtx s = MtxOwned" "dma_mapped DMA_MCDI s" "fits cmd (length inp) (length inp)"
  shows "sfc7120_mcdi_send_locked cmd inp seq s =
    (let m = mcdi_request cmd inp seq (mcdi_new_epoch s) (mcdi_buf s) in
     Some (mcdi_hdr_len cmd (length inp),
           s\<lparr>mcdi_buf := m, io := request_io m (dm_paddr (dma s DMA_MCDI)) @ io s\<rparr>))"
  using assms fits_len [OF assms(3)]
  by (cases "mcdi_use_v2 cmd (length inp)"; cases "inp = []")
     (simp_all add: sfc7120_mcdi_send_locked_def mcdi_request_def mcdi_hdr_len_def fits_def mcdi_buf_write_dword_def
        mcdi_buf_write_payload_eq softc_io request_io_def Let_def)

section \<open>The poll loop\<close>

fun delay_total :: "io list \<Rightarrow> nat" where
  "delay_total [] = 0"
| "delay_total (Delay us # h) = us + delay_total h"
| "delay_total (_ # h) = delay_total h"

fun poll_event :: "io \<Rightarrow> bool" where
  "poll_event McPostread = True"
| "poll_event (Delay us) = True"
| "poll_event _ = False"

text \<open>Events that neither write a register nor hand the mailbox to the MC.\<close>

fun quiet_event :: "io \<Rightarrow> bool" where
  "quiet_event (RegWrite off v) = False"
| "quiet_event (McPrewrite m) = False"
| "quiet_event _ = True"

text \<open>The commands of a history with their payloads, oldest first, as the MC parses them.\<close>

fun mc_requests :: "io list \<Rightarrow> (u32 \<times> u8 list) list" where
  "mc_requests [] = []"
| "mc_requests (McPrewrite m # h) = mc_requests h @ [(fst (mc_parse m), snd (snd (snd (mc_parse m))))]"
| "mc_requests (_ # h) = mc_requests h"

lemma quiet_append:
  "list_all quiet_event h \<Longrightarrow> reg_writes (h @ h') = reg_writes h'"
  "list_all quiet_event h \<Longrightarrow> mc_requests (h @ h') = mc_requests h'"
proof (induction h)
  case (Cons e h)
  case 1 with Cons show ?case by (cases e) auto
  case 2 with Cons show ?case by (cases e) auto
qed simp_all

lemma poll_quiet: "list_all poll_event h \<Longrightarrow> list_all quiet_event h"
proof (induction h)
  case (Cons e h)
  then show ?case by (cases e) auto
qed simp

lemma delay_total_append [simp]: "delay_total (h @ h') = delay_total h + delay_total h'"
  by (induction h rule: delay_total.induct) auto

lemma mcdi_sync_eq:
  "mcdi_sync K s = s\<lparr>io := McPostread # io s, mcdi_buf := dma_in (mc_mem K (McPostread # io s)) (mcdi_buf s)\<rparr>"
  by (simp add: mcdi_sync_def softc_emit Let_def)

lemma poll_response_eq:
  assumes "mcdi_mtx s = MtxOwned" "dma_mapped DMA_MCDI s"
  shows "sfc7120_mcdi_poll_response K s = Some (bit (mb_get32 0 (mcdi_buf (mcdi_sync K s))) 23, mcdi_sync K s)"
  using assms by (simp add: sfc7120_mcdi_poll_response_def mcdi_sync_eq mcdi_buf_read_dword_def dma_mapped_def flag_bit)

text \<open>The loop returns after at most about 10.1 seconds of delay, having done nothing but poll and wait;
  it reports a response only when the mailbox holds one.\<close>

definition wait_post :: "nat \<Rightarrow> softc \<Rightarrow> bool \<Rightarrow> softc \<Rightarrow> bool" where
  "wait_post waited s b s' \<longleftrightarrow>
     (\<exists>h m. s' = s\<lparr>io := h @ io s, mcdi_buf := m\<rparr> \<and> list_all poll_event h
       \<and> waited + delay_total h \<le> SFC7120_MCDI_TIMEOUT_US + SFC7120_MCDI_POLL_MAX_US
       \<and> (b \<longrightarrow> bit (mb_get32 0 m) 23))"

lemma mcdi_wait_total:
  assumes "mcdi_mtx s = MtxOwned" "dma_mapped DMA_MCDI s" "0 < delay" "delay \<le> SFC7120_MCDI_POLL_MAX_US"
    "waited \<le> SFC7120_MCDI_TIMEOUT_US + SFC7120_MCDI_POLL_MAX_US"
  shows "\<exists>b s'. mcdi_wait K delay waited s = Some (b, s') \<and> wait_post waited s b s'"
  using assms
proof (induction "SFC7120_MCDI_TIMEOUT_US - waited" arbitrary: delay waited s rule: less_induct)
  case less
  define m where "m = dma_in (mc_mem K (McPostread # io s)) (mcdi_buf s)"
  have sync: "mcdi_sync K s = s\<lparr>io := McPostread # io s, mcdi_buf := m\<rparr>"
    by (simp add: mcdi_sync_eq m_def)
  note poll = poll_response_eq [OF less.prems(1,2), of K, unfolded sync]
  consider (1) "bit (mb_get32 0 m) 23" | (2) "\<not> bit (mb_get32 0 m) 23" "SFC7120_MCDI_TIMEOUT_US \<le> waited"
    | (3) "\<not> bit (mb_get32 0 m) 23" "waited < SFC7120_MCDI_TIMEOUT_US" by linarith
  note step = this
  have now: "wait_post waited s b (s\<lparr>io := McPostread # io s, mcdi_buf := m\<rparr>)" if "b \<longrightarrow> bit (mb_get32 0 m) 23" for b
    unfolding wait_post_def
    by (rule exI [of _ "[McPostread]"], rule exI [of _ m]) (use that less.prems(5) in simp)
  from step show ?case
  proof cases
    case 1
    have "mcdi_wait K delay waited s = Some (True, s\<lparr>io := McPostread # io s, mcdi_buf := m\<rparr>)"
      by (subst mcdi_wait.simps) (simp add: poll 1)
    with now [of True] 1 show ?thesis by blast
  next
    case 2
    have "mcdi_wait K delay waited s = Some (False, s\<lparr>io := McPostread # io s, mcdi_buf := m\<rparr>)"
      by (subst mcdi_wait.simps) (simp add: poll 2)
    with now [of False] show ?thesis by blast
  next
    case 3
    let ?s = "s\<lparr>io := Delay delay # McPostread # io s, mcdi_buf := m\<rparr>"
    define d where "d = (if delay * 2 > SFC7120_MCDI_POLL_MAX_US then SFC7120_MCDI_POLL_MAX_US else delay * 2)"
    have d: "0 < d" "d \<le> SFC7120_MCDI_POLL_MAX_US" using less.prems by (auto simp: d_def)
    have "SFC7120_MCDI_TIMEOUT_US - (waited + delay) < SFC7120_MCDI_TIMEOUT_US - waited"
      using less.prems(3) 3(2) by linarith
    from less.hyps [OF this, of ?s d]
    obtain b s' where w: "mcdi_wait K d (waited + delay) ?s = Some (b, s')" "wait_post (waited + delay) ?s b s'"
      using less.prems 3 d by (auto simp: dma_mapped_def)
    then obtain h m' where h: "s' = ?s\<lparr>io := h @ io ?s, mcdi_buf := m'\<rparr>" "list_all poll_event h"
        "waited + delay + delay_total h \<le> SFC7120_MCDI_TIMEOUT_US + SFC7120_MCDI_POLL_MAX_US" "b \<longrightarrow> bit (mb_get32 0 m') 23"
      by (auto simp: wait_post_def)
    have "wait_post waited s b s'"
      unfolding wait_post_def
      by (rule exI [of _ "h @ [Delay delay, McPostread]"], rule exI [of _ m']) (use h in simp)
    moreover have "mcdi_wait K delay waited s = Some (b, s')"
      using w(1) poll 3 by (subst mcdi_wait.simps) (simp add: softc_emit d_def)
    ultimately show ?thesis by blast
  qed
qed

section \<open>The response\<close>

text \<open>What the caller of \<open>sfc7120_mcdi_exec\<close> is told about a mailbox that holds a response: return
  code, response buffer and byte count.\<close>

definition mcdi_reply :: "nat \<Rightarrow> u8 \<Rightarrow> u8 list \<Rightarrow> nat \<Rightarrow> (nat \<Rightarrow> u8) \<Rightarrow> int \<times> u8 list \<times> nat" where
  "mcdi_reply off seq out used m =
     (let h = mb_get32 0 m;
          n = unat (if off = 8 then drop_bit 16 (mb_get32 4 m) AND 0x3ff else drop_bit 8 h AND 0xff)
      in if (ucast (drop_bit 16 h AND 0x0f) :: u8) \<noteq> seq then (EPROTO, out, used)
         else if bit h 22 then (sfc7120_mcdi_xlate_err (if 4 \<le> n then mb_get32 off m else 0), out, used)
         else (0, mb_read off (min n (length out)) m @ replicate (length out - n) 0, min n (length out)))"

definition mcdi_done :: "softc \<Rightarrow> softc" where
  "mcdi_done s = s\<lparr>mcdi_new_epoch := False, mcdi_seq := (mcdi_seq s + 1) AND 0x0f, mcdi_mtx := MtxFree\<rparr>"

lemma mcdi_out_eq: "mcdi_mtx s = MtxOwned \<Longrightarrow> mcdi_out rc out used s = Some (rc, out, used, mcdi_done s)"
  by (simp add: mcdi_out_def mcdi_done_def)

lemma mcdi_response_eq:
  assumes "mcdi_mtx s = MtxOwned" "dma_mapped DMA_MCDI s" "off = 4 \<or> off = 8" "off + pad4 (length out) \<le> MCDI_BUF_LEN"
  shows "mcdi_response off seq out used s =
    (case mcdi_reply off seq out used (mcdi_buf s) of (rc, out', used') \<Rightarrow> Some (rc, out', used', mcdi_done s))"
proof -
  define n where "n = (if off = 8 then drop_bit 16 (mb_get32 4 (mcdi_buf s)) AND 0x3ff
                       else drop_bit 8 (mb_get32 0 (mcdi_buf s)) AND 0xff)"
  have rd: "mcdi_buf_read_dword o' s = Some (mb_get32 o' (mcdi_buf s))" if "o' \<le> 8" for o'
    using assms(2) that by (simp add: mcdi_buf_read_dword_def)
  have len: "(if off = 8 then mcdi_buf_read_dword 4 s \<bind> (\<lambda>v2_hdr. Some (drop_bit 16 v2_hdr AND 0x3ff))
              else Some (drop_bit 8 (mb_get32 0 (mcdi_buf s)) AND 0xff)) = Some n"
    by (simp add: rd n_def)
  have cp: "mcdi_buf_read_payload off (min (unat n) (length out)) s = Some (mb_read off (min (unat n) (length out)) (mcdi_buf s))"
    using assms(2,4) pad4_mono [of "min (unat n) (length out)" "length out"] by (simp add: mcdi_buf_read_payload_eq)
  have four: "(4 \<le> n) = (4 \<le> unat n)" by (simp add: word_le_nat_alt)
  have k: "(if unat n < length out then unat n else length out) = min (unat n) (length out)" by simp
  have r: "replicate (length out - min (unat n) (length out)) (0::u8) = replicate (length out - unat n) 0"
    by (simp add: min_def)
  show ?thesis
    unfolding mcdi_response_def rd [of 0, simplified] bind.bind_lunit len mcdi_reply_def Let_def n_def [symmetric] flag_bit four
    using assms(1,3) cp by (auto simp: rd mcdi_out_eq k r flag_bit)
qed

section \<open>Exec\<close>

text \<open>
  Between calls the transport is ready: if it is initialised, its lock is free and its mailbox is
  allocated.  From a ready state a command whose request and response fit the mailbox always
  returns, releases the lock, advances the sequence number modulo 16, and touches nothing of the
  softc outside the transport.
\<close>

definition mcdi_ready :: "softc \<Rightarrow> bool" where
  "mcdi_ready s \<longleftrightarrow> (mcdi_initialized s \<longrightarrow> mcdi_mtx s = MtxFree \<and> dma_mapped DMA_MCDI s)"

definition exec_post ::
  "u32 \<Rightarrow> u8 list \<Rightarrow> u8 list \<Rightarrow> nat \<Rightarrow> softc \<Rightarrow> int \<Rightarrow> u8 list \<Rightarrow> nat \<Rightarrow> softc \<Rightarrow> bool" where
  "exec_post cmd inp out used s rc out' used' s' \<longleftrightarrow>
     (\<exists>h m. let req = mcdi_request cmd inp (mcdi_seq s AND 0x0f) (mcdi_new_epoch s) (mcdi_buf s) in
        s' = s\<lparr>io := h @ request_io req (dm_paddr (dma s DMA_MCDI)) @ io s, mcdi_buf := m,
               mcdi_new_epoch := False, mcdi_seq := (mcdi_seq s + 1) AND 0x0f\<rparr>
        \<and> list_all quiet_event h \<and> delay_total h \<le> SFC7120_MCDI_TIMEOUT_US + SFC7120_MCDI_POLL_MAX_US
        \<and> (if bit (mb_get32 0 m) 23 \<and> rc \<noteq> ETIMEDOUT
           then (rc, out', used') = mcdi_reply (mcdi_hdr_len cmd (length inp)) (mcdi_seq s AND 0x0f) out used m
           else rc = ETIMEDOUT \<and> out' = out \<and> used' = used))"

lemma hdr_len_cases: "mcdi_hdr_len cmd n = 4 \<or> mcdi_hdr_len cmd n = 8"
  by (simp add: mcdi_hdr_len_def)

lemma mcdi_timeout_eq:
  assumes "mcdi_mtx s = MtxOwned" "dma_mapped DMA_MCDI s"
  shows "\<exists>h m. mcdi_timeout K out used s = Some (ETIMEDOUT, out, used, mcdi_done (s\<lparr>io := h @ io s, mcdi_buf := m\<rparr>))
    \<and> list_all quiet_event h \<and> delay_total h = 0"
proof -
  let ?h = "[PciRead, RegRead EF10_REG_BIU_MC_SFT_STATUS, RegRead EF10_REG_BIU_HW_REV_ID, McPostread]"
  have "mcdi_timeout K out used s = Some (ETIMEDOUT, out, used,
      mcdi_done (s\<lparr>io := ?h @ io s, mcdi_buf := dma_in (mc_mem K (McPostread # io s)) (mcdi_buf s)\<rparr>))"
    using assms by (simp add: mcdi_timeout_def mcdi_sync_eq mcdi_buf_read_dword_def dma_mapped_def softc_io mcdi_out_eq Let_def)
  then show ?thesis by (intro exI [of _ ?h]) auto
qed

lemma xlate_timeout_reply:
  assumes "mcdi_reply off seq out used m = (ETIMEDOUT, out', used')"
  shows "out' = out \<and> used' = used"
  using assms by (auto simp: mcdi_reply_def Let_def split: if_splits)

lemma exec_total:
  assumes "mcdi_ready s" "mcdi_initialized s" "fits cmd (length inp) (length inp)" "fits cmd (length inp) (length out)"
  shows "\<exists>rc out' used' s'. sfc7120_mcdi_exec K cmd inp out used s = Some (rc, out', used', s')
    \<and> exec_post cmd inp out used s rc out' used' s'"
proof -
  let ?q = "mcdi_seq s AND 0x0f"
  define req where "req = mcdi_request cmd inp ?q (mcdi_new_epoch s) (mcdi_buf s)"
  let ?s1 = "s\<lparr>mcdi_mtx := MtxOwned\<rparr>"
  define s2 where "s2 = ?s1\<lparr>mcdi_buf := req, io := request_io req (dm_paddr (dma s DMA_MCDI)) @ io s\<rparr>"
  have len: "length inp \<le> MCDI_PAYLOAD_LEN_MAX_V1" "length out \<le> MCDI_PAYLOAD_LEN_MAX_V1"
    using fits_len [OF assms(3)] assms(4) pad4_ge(1) [of "length out"] hdr_len_cases [of cmd "length inp"]
    by (auto simp: fits_def)
  have lock: "mcdi_mtx s = MtxFree" "dma_mapped DMA_MCDI s" using assms(1,2) by (auto simp: mcdi_ready_def)
  have send: "sfc7120_mcdi_send_locked cmd inp ?q ?s1 = Some (mcdi_hdr_len cmd (length inp), s2)"
    using send_locked_eq [of ?s1 cmd inp ?q] lock(2) assms(3) by (simp add: dma_mapped_def s2_def req_def Let_def)
  have o2: "mcdi_mtx s2 = MtxOwned" "dma_mapped DMA_MCDI s2" using lock by (simp_all add: s2_def dma_mapped_def)
  obtain b s3 where w: "mcdi_wait K SFC7120_MCDI_POLL_MIN_US 0 s2 = Some (b, s3)" "wait_post 0 s2 b s3"
    using mcdi_wait_total [OF o2, of 10 0 K] by auto
  then obtain h m where h: "s3 = s2\<lparr>io := h @ io s2, mcdi_buf := m\<rparr>" "list_all poll_event h"
      "delay_total h \<le> SFC7120_MCDI_TIMEOUT_US + SFC7120_MCDI_POLL_MAX_US" "b \<longrightarrow> bit (mb_get32 0 m) 23"
    by (auto simp: wait_post_def)
  have o3: "mcdi_mtx s3 = MtxOwned" "dma_mapped DMA_MCDI s3" "mcdi_buf s3 = m"
    using o2 h(1) by (simp_all add: dma_mapped_def)
  have exec: "sfc7120_mcdi_exec K cmd inp out used s =
      (if \<not> b then mcdi_timeout K out used s3 else mcdi_response (mcdi_hdr_len cmd (length inp)) ?q out used s3)"
    using assms(2) len lock(1) send w(1) by (simp add: sfc7120_mcdi_exec_def)
  have fin: "mcdi_done (s3\<lparr>io := h' @ io s3, mcdi_buf := m'\<rparr>) =
      s\<lparr>io := (h' @ h) @ request_io req (dm_paddr (dma s DMA_MCDI)) @ io s, mcdi_buf := m',
        mcdi_new_epoch := False, mcdi_seq := (mcdi_seq s + 1) AND 0x0f\<rparr>" for h' m'
    using h(1) lock(1) by (simp add: mcdi_done_def s2_def)
  note hq = poll_quiet [OF h(2)]
  show ?thesis
  proof (cases b)
    case False
    obtain h' m' where t: "mcdi_timeout K out used s3 = Some (ETIMEDOUT, out, used, mcdi_done (s3\<lparr>io := h' @ io s3, mcdi_buf := m'\<rparr>))"
        "list_all quiet_event h'" "delay_total h' = 0"
      using mcdi_timeout_eq [OF o3(1,2)] by blast
    then show ?thesis
      using False exec hq h(3) unfolding fin
      by (auto simp: exec_post_def req_def [symmetric] Let_def intro!: exI [of _ "h' @ h"] exI [of _ m'])
  next
    case True
    obtain rc out' used' where r: "mcdi_reply (mcdi_hdr_len cmd (length inp)) ?q out used m = (rc, out', used')"
      using prod_cases3 by blast
    have "mcdi_response (mcdi_hdr_len cmd (length inp)) ?q out used s3 = Some (rc, out', used', mcdi_done s3)"
      using mcdi_response_eq [OF o3(1,2) hdr_len_cases] assms(4) r o3(3) by (simp add: fits_def)
    moreover have "mcdi_done s3 = mcdi_done (s3\<lparr>io := [] @ io s3, mcdi_buf := m\<rparr>)"
      unfolding o3(3) [symmetric] by simp
    ultimately show ?thesis
      using True exec r hq h(3,4) xlate_timeout_reply [of "mcdi_hdr_len cmd (length inp)" ?q out used m] unfolding fin
      by (auto simp: exec_post_def req_def [symmetric] Let_def intro!: exI [of _ h] exI [of _ m])
  qed
qed

section \<open>What a command leaves alone\<close>

text \<open>The part of the softc that is the driver's dealings with the kernel and its own queue indices, not with the MC.\<close>

definition kside ::
  "softc \<Rightarrow> capio_softc \<times> mtx \<times> mtx \<times> (u64 \<times> u64) option \<times> bool \<times> int \<times> bool \<times> bool \<times> bool \<times> bool \<times> bool \<times> bool
     \<times> nat \<times> nat \<times> nat" where
  "kside s = (capio_sc s, sc_mtx s, rx_mtx s, mem_resource s, msix_bar_resource s, msix_nvec s, irq_resource s,
              irq_handle s, intr_initialized s, cdev s, dying s, device_attached s, tx_head s, rx_head s, data_evq_read_ptr s)"

definition hostside ::
  "softc \<Rightarrow> kres set \<times> (dma_id \<Rightarrow> dmabuf) \<times> bool \<times> mtx
     \<times> (capio_softc \<times> mtx \<times> mtx \<times> (u64 \<times> u64) option \<times> bool \<times> int \<times> bool \<times> bool \<times> bool \<times> bool \<times> bool \<times> bool
        \<times> nat \<times> nat \<times> nat)" where
  "hostside s = (kres s, dma s, mcdi_initialized s, mcdi_mtx s, kside s)"

definition exec_io :: "u32 \<Rightarrow> u8 list \<Rightarrow> softc \<Rightarrow> softc \<Rightarrow> bool" where
  "exec_io cmd inp s s' \<longleftrightarrow>
     (if mcdi_initialized s
      then mc_requests (io s') = mc_requests (io s) @ [(cmd, inp)]
      else io s' = io s)"

lemma seq_lt_16: "(q :: u8) AND 0x0f < 16"
  by (simp add: mask_simps word_less_nat_alt unsigned_take_bit_eq take_bit_nat_less_exp [where n = 4, simplified])

lemma length_reply: "mcdi_reply off seq out used m = (rc, out', used') \<Longrightarrow> length out' = length out"
  by (auto simp: mcdi_reply_def Let_def split: if_splits)

lemma used_reply:
  "mcdi_reply off seq out used m = (rc, out', used') \<Longrightarrow> used \<le> length out \<Longrightarrow> used' \<le> length out"
  by (auto simp: mcdi_reply_def Let_def split: if_splits)

text \<open>The summary the command wrappers use: from a ready state a command that fits returns; only the
  transport's own fields and the history change.\<close>

definition mcdi_only :: "softc \<Rightarrow> softc \<Rightarrow> bool" where
  "mcdi_only s s' \<longleftrightarrow> (\<exists>h m q e. s' = s\<lparr>io := h, mcdi_buf := m, mcdi_seq := q, mcdi_new_epoch := e\<rparr>)"

lemma mcdi_only_hostside: "mcdi_only s s' \<Longrightarrow> hostside s' = hostside s"
  by (auto simp: mcdi_only_def hostside_def kside_def)

lemma exec_summary:
  assumes "mcdi_ready s" "fits cmd (length inp) (length inp)" "fits cmd (length inp) (length out)" "cmd < 0x8000"
    "used \<le> length out"
  shows "\<exists>rc out' used' s'. sfc7120_mcdi_exec K cmd inp out used s = Some (rc, out', used', s')
    \<and> mcdi_only s s' \<and> length out' = length out \<and> used' \<le> length out \<and> exec_io cmd inp s s'"
proof (cases "mcdi_initialized s")
  case False
  then have "mcdi_only s s"
    unfolding mcdi_only_def
    by (intro exI [of _ "io s"] exI [of _ "mcdi_buf s"] exI [of _ "mcdi_seq s"] exI [of _ "mcdi_new_epoch s"]) simp
  with False assms show ?thesis by (simp add: sfc7120_mcdi_exec_def exec_io_def)
next
  case True
  obtain rc out' used' s' where e: "sfc7120_mcdi_exec K cmd inp out used s = Some (rc, out', used', s')"
      "exec_post cmd inp out used s rc out' used' s'"
    using exec_total [OF assms(1) True assms(2,3)] by blast
  define req where "req = mcdi_request cmd inp (mcdi_seq s AND 0x0f) (mcdi_new_epoch s) (mcdi_buf s)"
  obtain h m where h: "s' = s\<lparr>io := h @ request_io req (dm_paddr (dma s DMA_MCDI)) @ io s, mcdi_buf := m,
        mcdi_new_epoch := False, mcdi_seq := (mcdi_seq s + 1) AND 0x0f\<rparr>" "list_all quiet_event h"
      "(rc, out', used') = mcdi_reply (mcdi_hdr_len cmd (length inp)) (mcdi_seq s AND 0x0f) out used m
       \<or> out' = out \<and> used' = used"
    using e(2) unfolding exec_post_def req_def [symmetric] Let_def by (auto split: if_splits)
  have p: "mc_parse req = (cmd, mcdi_seq s AND 0x0f, mcdi_new_epoch s, inp)"
    unfolding req_def by (rule mc_parse_request [OF assms(4) seq_lt_16 fits_len [OF assms(2)]])
  have io: "mc_requests (io s') = mc_requests (io s) @ [(cmd, inp)]"
    using h(1) quiet_append(2) [OF h(2)] p by (simp add: request_io_def)
  have only: "mcdi_only s s'"
    unfolding mcdi_only_def
    by (rule exI [of _ "h @ request_io req (dm_paddr (dma s DMA_MCDI)) @ io s"], rule exI [of _ m],
        rule exI [of _ "(mcdi_seq s + 1) AND 0x0f"], rule exI [of _ False]) (simp add: h(1))
  show ?thesis
    using e(1) io only True h(3) length_reply [of _ _ out used m rc out' used'] used_reply [of _ _ out used m rc out' used'] assms(5)
    by (auto simp: exec_io_def)
qed

lemma hostside_ready: "hostside s' = hostside s \<Longrightarrow> mcdi_ready s \<Longrightarrow> mcdi_ready s'"
  by (auto simp: hostside_def mcdi_ready_def dma_mapped_def)

lemma hostside_dma_inv: "hostside s' = hostside s \<Longrightarrow> dma_inv s' = dma_inv s"
  by (simp add: hostside_def dma_inv_def)

section \<open>Init and fini\<close>

lemma mcdi_free_buf_eq: "sfc7120_mcdi_free_buf s = sfc7120_free_dmabuf DMA_MCDI s"
  by (simp add: sfc7120_mcdi_free_buf_def sfc7120_free_dmabuf_def)

lemma mcdi_alloc_buf_eq:
  "sfc7120_mcdi_alloc_buf K s = do {
     (e, s') \<leftarrow> sfc7120_alloc_dmabuf K DMA_MCDI s;
     if e = 0 then do { kassert (dm_paddr (dma s' DMA_MCDI) AND 0xff = 0); Some (0, s') } else Some (e, s') }"
  by (auto simp: sfc7120_mcdi_alloc_buf_def sfc7120_alloc_dmabuf_def Let_def split_beta release_def
      cong: if_cong split: if_splits)

text \<open>The mailbox tag asks for 256-byte alignment, so a loaded mailbox is aligned.\<close>

definition mailbox_aligned :: "env \<Rightarrow> bool" where
  "mailbox_aligned K \<longleftrightarrow> (\<forall>h segs. map_load K h DMA_MCDI = (0, segs, 0) \<longrightarrow> segs \<noteq> [] \<and> hd segs AND 0xff = 0)"

definition init_post :: "softc \<Rightarrow> int \<Rightarrow> softc \<Rightarrow> bool" where
  "init_post s e s' \<longleftrightarrow>
     dma_inv s' \<and> kside s' = kside s \<and> (\<forall>d. d \<noteq> DMA_MCDI \<longrightarrow> dma s' d = dma s d)
     \<and> (if e = 0 then mcdi_initialized s' \<and> mcdi_ready s' \<and> kres s' = kres s \<union> dmabuf_res DMA_MCDI
        else \<not> mcdi_initialized s' \<and> mcdi_mtx s' = MtxAbsent \<and> kres s' = kres s \<and> dma s' = dma s)"

lemma kside_dma_frame: "dma_frame s' = dma_frame s \<Longrightarrow> kside s' = kside s"
proof -
  have "kside (dma_frame t) = kside t" for t by (simp add: kside_def dma_frame_def)
  then show "dma_frame s' = dma_frame s \<Longrightarrow> kside s' = kside s" by metis
qed

lemma dma_frame_mcdi:
  assumes "dma_frame s' = dma_frame s"
  shows "mcdi_initialized s' = mcdi_initialized s" "mcdi_mtx s' = mcdi_mtx s"
  using arg_cong [OF assms, of mcdi_initialized] arg_cong [OF assms, of mcdi_mtx] by (simp_all add: dma_frame_def)

lemma alloc_dmabuf_paddr:
  assumes "sfc7120_alloc_dmabuf K d s = Some (0, s')"
  shows "\<exists>h segs. map_load K h d = (0, segs, 0) \<and> segs \<noteq> [] \<and> dm_paddr (dma s' d) = hd segs"
  using assms
  by (auto simp: sfc7120_alloc_dmabuf_def dmamap_load_def sfc7120_dma_cb_def Let_def split_beta hd_conv_nth bind_eq_Some_conv
      prod_eq_iff split: if_splits prod.splits
      intro!: exI [of _ "Grab (KMem d) # Grab (KTag d) # io s"]
        exI [of _ "fst (snd (map_load K (Grab (KMem d) # Grab (KTag d) # io s) d))"])

lemma restored_simps:
  assumes "restored s0 t"
  shows "kres t = kres s0" "dma t = dma s0" "dma_inv s0 \<Longrightarrow> dma_inv t" "kside t = kside s0"
  using assms kside_dma_frame [of t s0] by (simp_all add: restored_def dma_inv_def)

lemma mtx_frame [simp]: "kside (s\<lparr>mcdi_mtx := m\<rparr>) = kside s" "dma_inv (s\<lparr>mcdi_mtx := m\<rparr>) = dma_inv s"
  by (simp_all add: kside_def dma_inv_def)

lemma mcdi_init_fail_restores:
  assumes "allocated [DMA_MCDI] s0 s" "dma_inv s0" "dma s0 DMA_MCDI = no_dmabuf" "mcdi_mtx s = MtxFree" "\<not> mcdi_initialized s"
  shows "\<exists>s'. mcdi_init_fail e s = Some (e, s') \<and> dma_inv s' \<and> kside s' = kside s0 \<and> kres s' = kres s0 \<and> dma s' = dma s0
    \<and> mcdi_mtx s' = MtxAbsent \<and> \<not> mcdi_initialized s'"
proof -
  have inv: "dma_inv s" using assms(1) by (simp add: allocated_def)
  obtain t where "fail_free e [DMA_MCDI] s = Some (e, t)" "restored s0 t"
    using fail_free_restores [OF assms(1,2) _ inv] assms(3) by auto
  then have t: "sfc7120_free_dmabuf DMA_MCDI s = Some t" "restored s0 t"
    by (auto simp: fail_free_def bind_eq_Some_conv)
  obtain t' where "sfc7120_free_dmabuf DMA_MCDI s = Some t'" "dma_frame t' = dma_frame s"
    using free_dmabuf_total [OF inv] by blast
  with t have "dma_frame t = dma_frame s" by simp
  note m = dma_frame_mcdi [OF this]
  let ?t = "t\<lparr>mcdi_mtx := MtxAbsent\<rparr>"
  have run: "mcdi_init_fail e s = Some (e, ?t)"
    using t(1) m assms(4) by (simp add: mcdi_init_fail_def mcdi_free_buf_eq)
  have "dma_inv ?t" "kside ?t = kside s0" "kres ?t = kres s0" "dma ?t = dma s0" "mcdi_mtx ?t = MtxAbsent" "\<not> mcdi_initialized ?t"
    using restored_simps [OF t(2)] assms(2,5) m by (simp_all add: dma_inv_def kside_def)
  with run show ?thesis by (intro exI [of _ ?t]) (simp only: simp_thms)
qed

lemma allocated_io [simp]: "allocated ds s0 (s\<lparr>io := h\<rparr>) = allocated ds s0 s"
  by (simp add: allocated_def dma_inv_def dma_mapped_def)

lemma mcdi_init_total:
  assumes K: "bus_dma_ok K" "mailbox_aligned K" and s: "dma_inv s" "dma s DMA_MCDI = no_dmabuf"
    "\<not> mcdi_initialized s" "mcdi_mtx s = MtxAbsent"
  shows "\<exists>e s'. sfc7120_mcdi_init K s = Some (e, s') \<and> init_post s e s'"
proof -
  let ?s1 = "s\<lparr>mcdi_mtx := MtxFree\<rparr>"
  have i1: "dma_inv ?s1" using s(1) by (simp add: dma_inv_def)
  have k1: "kside ?s1 = kside s" by (simp add: kside_def)
  obtain e s2 where a: "sfc7120_alloc_dmabuf K DMA_MCDI ?s1 = Some (e, s2)"
      "if e = 0 then allocated [DMA_MCDI] ?s1 s2 else \<exists>t. fail_free e [] s2 = Some (e, t) \<and> restored ?s1 t"
    using alloc_step [OF K(1) allocated_Nil [OF i1] i1, of DMA_MCDI] s(2) by auto
  show ?thesis
  proof (cases "e = 0")
    case False
    then have r: "restored ?s1 s2" using a(2) by (auto simp: fail_free_def)
    then have "dma_frame s2 = dma_frame ?s1" by (simp add: restored_def)
    note m = dma_frame_mcdi [OF this, simplified]
    let ?s3 = "s2\<lparr>mcdi_mtx := MtxAbsent\<rparr>"
    have run: "sfc7120_mcdi_init K s = Some (e, ?s3)"
      using False a(1) m s(3,4) by (simp add: sfc7120_mcdi_init_def mcdi_alloc_buf_eq)
    have "init_post s e ?s3"
      using False restored_simps [OF r] i1 m(1) s(3) k1 by (simp add: init_post_def)
    with run show ?thesis by blast
  next
    case True
    then have al: "allocated [DMA_MCDI] ?s1 s2" using a(2) by simp
    then have "dma_frame s2 = dma_frame ?s1" by (simp add: allocated_def)
    note m = dma_frame_mcdi [OF this, simplified] kside_dma_frame [OF this]
    have "dm_paddr (dma s2 DMA_MCDI) AND 0xff = 0"
      using alloc_dmabuf_paddr [of K DMA_MCDI ?s1 s2] a(1) True K(2) by (auto simp: mailbox_aligned_def)
    then have buf: "sfc7120_mcdi_alloc_buf K ?s1 = Some (0, s2)" using a(1) True by (simp add: mcdi_alloc_buf_eq)
    let ?h1 = "PciRead # io s2" and ?h2 = "RegRead EF10_REG_BIU_HW_REV_ID # PciRead # io s2"
    have fl: "\<exists>s'. mcdi_init_fail ENXIO (s2\<lparr>io := h\<rparr>) = Some (ENXIO, s') \<and> init_post s ENXIO s'" for h
      using mcdi_init_fail_restores [of ?s1 "s2\<lparr>io := h\<rparr>" ENXIO] al i1 s(2,3) m k1 by (auto simp: init_post_def)
    have ok: "init_post s 0 (s2\<lparr>io := h, mcdi_seq := 0, mcdi_new_epoch := True, mcdi_prev_reboot_status := r, mcdi_initialized := True\<rparr>)" for h r
      using al m(2,3) k1 by (auto simp: init_post_def allocated_def kside_def mcdi_ready_def dma_mapped_def res_of_def dma_inv_def)
    show ?thesis
      using fl [of ?h1] fl [of ?h2] ok buf s(3,4)
      by (auto simp: sfc7120_mcdi_init_def softc_io Let_def)
  qed
qed

lemma mcdi_fini_total:
  assumes "dma_inv s" "mcdi_ready s" "mcdi_initialized s"
  shows "\<exists>s'. sfc7120_mcdi_fini s = Some s' \<and> \<not> mcdi_initialized s' \<and> mcdi_mtx s' = MtxAbsent \<and> kside s' = kside s
    \<and> dma_inv s' \<and> kres s' = kres s - dmabuf_res DMA_MCDI \<and> dma s' = (dma s)(DMA_MCDI := no_dmabuf)"
proof -
  obtain t where t: "sfc7120_free_dmabuf DMA_MCDI s = Some t" "kres t = kres s - dmabuf_res DMA_MCDI"
      "dma t = (dma s)(DMA_MCDI := no_dmabuf)" "dma_frame t = dma_frame s"
    using free_dmabuf_total [OF assms(1)] by blast
  note m = dma_frame_mcdi [OF t(4)] kside_dma_frame [OF t(4)]
  show ?thesis
    using t m assms(2,3) free_dmabuf_inv [OF assms(1) t(1)]
    by (auto simp: sfc7120_mcdi_fini_def mcdi_free_buf_eq mcdi_ready_def kside_def dma_inv_def)
qed

definition mcdi_down :: "softc \<Rightarrow> bool" where
  "mcdi_down s \<longleftrightarrow> dma_inv s \<and> dma s DMA_MCDI = no_dmabuf \<and> \<not> mcdi_initialized s \<and> mcdi_mtx s = MtxAbsent"

definition mcdi_up :: "softc \<Rightarrow> bool" where
  "mcdi_up s \<longleftrightarrow> dma_inv s \<and> mcdi_ready s \<and> mcdi_initialized s"

definition mcdi_env_ok :: "env \<Rightarrow> bool" where
  "mcdi_env_ok K \<longleftrightarrow> bus_dma_ok K \<and> mailbox_aligned K"

interpretation mcdi_stage:
  bringup_stage sfc7120_mcdi_init sfc7120_mcdi_fini mcdi_env_ok mcdi_down mcdi_up "dmabuf_res DMA_MCDI"
proof (unfold_locales, goal_cases)
  case (1 K s)
  then have "\<exists>e s'. sfc7120_mcdi_init K s = Some (e, s') \<and> init_post s e s'"
    by (intro mcdi_init_total) (simp_all add: mcdi_env_ok_def mcdi_down_def)
  then show ?case using 1(2) by (auto simp: init_post_def mcdi_up_def mcdi_down_def split: if_splits)
next
  case (2 s)
  then show ?case using mcdi_fini_total [of s] by (auto simp: mcdi_up_def mcdi_down_def)
next
  case (3 s)
  then show ?case by (simp add: mcdi_down_def dma_inv_free)
qed

section \<open>Properties\<close>

lemma live_ready: "mcdi_ready live_softc" "mcdi_initialized live_softc" "dma_mapped DMA_MCDI live_softc"
  by (simp_all add: mcdi_ready_def live_softc_def zero_softc_def dma_mapped_def)

text \<open>C6 \<open>sfc7120_mcdi_exec\<close> always returns: from a ready transport and for a request and a response buffer
  that fit the mailbox, whatever the MC does, the call ends after at most about 10.1 seconds of delay.
  It rings the doorbell once, with the request in the mailbox; the answer is the MC's, or
  \<open>ETIMEDOUT\<close> with the caller's buffer untouched; the sequence number advances modulo 16 and the lock is free.\<close>

theorem mcdi_exec_returns:
  assumes "mcdi_ready s" "mcdi_initialized s" "fits cmd (length inp) (length inp)" "fits cmd (length inp) (length out)"
  shows "\<exists>rc out' used' s'. sfc7120_mcdi_exec K cmd inp out used s = Some (rc, out', used', s')
    \<and> exec_post cmd inp out used s rc out' used' s' \<and> mcdi_ready s'"
proof -
  obtain rc out' used' s' where e: "sfc7120_mcdi_exec K cmd inp out used s = Some (rc, out', used', s')"
      "exec_post cmd inp out used s rc out' used' s'"
    using exec_total [OF assms] by blast
  then have "mcdi_ready s'" using assms(1,2) by (auto simp: exec_post_def Let_def mcdi_ready_def dma_mapped_def)
  with e show ?thesis by blast
qed

theorem mcdi_exec_returns_witness:
  "\<exists>rc out' used' s'. sfc7120_mcdi_exec quiet_env 8 [] (replicate 32 0) 0 live_softc = Some (rc, out', used', s')
    \<and> exec_post 8 [] (replicate 32 0) 0 live_softc rc out' used' s' \<and> mcdi_ready s'"
  by (rule mcdi_exec_returns)
     (simp_all add: live_ready fits_def mcdi_hdr_len_def mcdi_use_v2_def pad4_def)

text \<open>C7 The request on the wire: what \<open>sfc7120_mcdi_send_locked\<close> leaves in the mailbox parses, by the
  header layout of \<open>sfc7120_mcdi.h\<close>, to exactly the command, sequence number, epoch flag and payload it was given,
  for both framings, and the doorbell is rung with the mailbox's bus address, the half that starts the command last.\<close>

theorem mcdi_wire_round_trip:
  assumes "mcdi_mtx s = MtxOwned" "dma_mapped DMA_MCDI s" "fits cmd (length inp) (length inp)" "cmd < 0x8000" "seq < 16"
  shows "\<exists>off s'. sfc7120_mcdi_send_locked cmd inp seq s = Some (off, s')
    \<and> mc_parse (mcdi_buf s') = (cmd, seq, mcdi_new_epoch s, inp)
    \<and> io s' = request_io (mcdi_buf s') (dm_paddr (dma s DMA_MCDI)) @ io s"
  using send_locked_eq [OF assms(1-3)] mc_parse_request [OF assms(4,5) fits_len [OF assms(3)]]
  by (simp add: Let_def)

theorem mcdi_wire_round_trip_witness:
  "\<exists>off s'. sfc7120_mcdi_send_locked 0xb8 [1, 2, 3] 5 (live_softc\<lparr>mcdi_mtx := MtxOwned\<rparr>) = Some (off, s')
    \<and> mc_parse (mcdi_buf s') = (0xb8, 5, False, [1, 2, 3])
    \<and> io s' = request_io (mcdi_buf s') 0x40000000"
  using mcdi_wire_round_trip [of "live_softc\<lparr>mcdi_mtx := MtxOwned\<rparr>" "0xb8" "[1, 2, 3]" 5]
  by (simp add: live_softc_def zero_softc_def dma_mapped_def fits_def mcdi_hdr_len_def mcdi_use_v2_def pad4_def)

text \<open>A payload written to the mailbox is read back unchanged, at any offset and of any length, whole
  dwords or not, that fits the 256 bytes.\<close>

theorem mcdi_payload_round_trip:
  assumes "dma_mapped DMA_MCDI s" "off + pad4 (length bs) \<le> MCDI_BUF_LEN"
  shows "\<exists>s'. mcdi_buf_write_payload off bs s = Some s' \<and> mcdi_buf_read_payload off (length bs) s' = Some bs"
  using assms by (simp add: mcdi_buf_write_payload_eq mcdi_buf_read_payload_eq mb_read_write)

theorem mcdi_payload_round_trip_witness:
  "\<exists>s'. mcdi_buf_write_payload 4 [7, 8, 9, 10, 11] live_softc = Some s'
      \<and> mcdi_buf_read_payload 4 (length [7, 8, 9, 10, 11 :: u8]) s' = Some [7, 8, 9, 10, 11]"
  by (rule mcdi_payload_round_trip) (simp_all add: live_ready pad4_def)

text \<open>C22 What the caller is told about a response: a sequence mismatch is \<open>EPROTO\<close>, an error response is
  translated, a success copies as many bytes as both sides have and zero-fills the rest; the optimised
  branches of the code compute exactly \<open>mcdi_reply\<close>, for both framings.\<close>

theorem mcdi_response_spec:
  assumes "mcdi_mtx s = MtxOwned" "dma_mapped DMA_MCDI s" "off = 4 \<or> off = 8" "off + pad4 (length out) \<le> MCDI_BUF_LEN"
  shows "mcdi_response off seq out used s =
    (case mcdi_reply off seq out used (mcdi_buf s) of (rc, out', used') \<Rightarrow> Some (rc, out', used', mcdi_done s))"
  by (rule mcdi_response_eq [OF assms])

theorem mcdi_response_spec_witness:
  "mcdi_response 4 0 [1, 1, 1, 1] 0 (live_softc\<lparr>mcdi_mtx := MtxOwned, mcdi_buf := mb_put32 4 0xaabbccdd (mb_put32 0 0x00800200 (\<lambda>_. 0))\<rparr>)
     = Some (0, [0xdd, 0xcc, 0, 0], 2, mcdi_done (live_softc\<lparr>mcdi_mtx := MtxOwned, mcdi_buf := mb_put32 4 0xaabbccdd (mb_put32 0 0x00800200 (\<lambda>_. 0))\<rparr>))"
proof -
  let ?m = "mb_put32 4 0xaabbccdd (mb_put32 0 0x00800200 (\<lambda>_. 0)) :: nat \<Rightarrow> u8"
  have r: "mcdi_reply 4 0 [1, 1, 1, 1] 0 ?m = (0, [0xdd, 0xcc, 0, 0], 2)"
    by (simp add: mcdi_reply_def mem_simps Let_def mb_read_tail bytes32_def byte_of_def)
  show ?thesis
    by (subst mcdi_response_spec) (simp_all add: live_softc_def zero_softc_def dma_mapped_def pad4_def r)
qed

text \<open>C38 An MC error response whose payload is shorter than a dword is reported as success: the code reads no
  error number, translates 0, and returns 0 with the caller's buffer and count untouched.\<close>

theorem mcdi_short_error_is_success:
  assumes "mcdi_mtx s = MtxOwned" "dma_mapped DMA_MCDI s" "4 + pad4 (length out) \<le> MCDI_BUF_LEN"
    "(ucast (drop_bit 16 (mb_get32 0 (mcdi_buf s)) AND 0x0f) :: u8) = seq"
    "bit (mb_get32 0 (mcdi_buf s)) 22" "drop_bit 8 (mb_get32 0 (mcdi_buf s)) AND 0xff < 4"
  shows "mcdi_response 4 seq out used s = Some (0, out, used, mcdi_done s)"
proof -
  have "unat (drop_bit 8 (mb_get32 0 (mcdi_buf s)) AND 0xff) < 4" using assms(6) by (simp add: word_less_nat_alt)
  then show ?thesis
    using assms by (simp add: mcdi_response_eq mcdi_reply_def sfc7120_mcdi_xlate_err_def Let_def not_le)
qed

theorem mcdi_short_error_is_success_witness:
  "mcdi_response 4 0 [1, 1, 1, 1] 0 (live_softc\<lparr>mcdi_mtx := MtxOwned, mcdi_buf := mb_put32 0 0x00c00000 (\<lambda>_. 0)\<rparr>)
     = Some (0, [1, 1, 1, 1], 0, mcdi_done (live_softc\<lparr>mcdi_mtx := MtxOwned, mcdi_buf := mb_put32 0 0x00c00000 (\<lambda>_. 0)\<rparr>))"
  by (rule mcdi_short_error_is_success)
     (simp_all add: live_softc_def zero_softc_def dma_mapped_def pad4_def mem_simps)

lemma write_payload_overrun:
  "bs \<noteq> [] \<Longrightarrow> MCDI_BUF_LEN < off + pad4 (length bs) \<Longrightarrow> mcdi_buf_write_payload off bs s = None"
proof (induction off bs s rule: mcdi_buf_write_payload.induct)
  case (5 off a b c d rest s)
  show ?case
  proof (cases "rest = []")
    case True
    with 5 show ?thesis by (simp add: mcdi_buf_write_dword_def)
  next
    case False
    with 5 show ?thesis by (simp add: mcdi_buf_write_dword_def)
  qed
qed (simp_all add: mcdi_buf_write_dword_def)

text \<open>C39 The length checks of \<open>sfc7120_mcdi_exec\<close> do not cover the 8-byte header: a command that needs the v2
  framing and carries 249 to 252 bytes passes them, and writing its payload runs past the mailbox.\<close>

theorem mcdi_v2_overruns_mailbox:
  assumes "mcdi_initialized s" "mcdi_mtx s = MtxFree" "MC_CMD_V2_EXTN \<le> cmd" "248 < length inp" "length inp \<le> MCDI_PAYLOAD_LEN_MAX_V1"
  shows "sfc7120_mcdi_exec K cmd inp [] used s = None"
proof -
  have "MCDI_BUF_LEN < 8 + pad4 (length inp)" "inp \<noteq> []" "mcdi_use_v2 cmd (length inp)"
    using assms(3-5) pad4_ge(1) [of "length inp"] by (auto simp: mcdi_use_v2_def)
  moreover from this have "mcdi_buf_write_payload 8 inp t = None" for t by (intro write_payload_overrun) simp_all
  ultimately show ?thesis
    using assms by (auto simp: sfc7120_mcdi_exec_def sfc7120_mcdi_send_locked_def mcdi_buf_write_dword_def Let_def)
qed

theorem mcdi_v2_overruns_mailbox_witness:
  "sfc7120_mcdi_exec quiet_env 0x8a (replicate 250 0) [] 0 live_softc = None"
  by (rule mcdi_v2_overruns_mailbox) (simp_all add: live_softc_fields)

lemma quiet_mcdi_env: "mcdi_env_ok quiet_env"
  using quiet_bus_dma by (simp add: mcdi_env_ok_def mailbox_aligned_def quiet_env_def)

lemma zero_mcdi_down: "mcdi_down zero_softc"
  using zero_dma_inv by (simp add: mcdi_down_def zero_softc_fields)

end
