(* ===== verification/Mcdi_Cmds.thy ===== *)
theory Mcdi_Cmds
  imports Mcdi
begin

text \<open>
  The MC command wrappers of \<open>sfc7120_mcdi.c\<close>, in the order of the file.  Each builds its request on
  the stack, calls \<open>sfc7120_mcdi_exec\<close> and updates the softc from the response.  The interface
  \<open>mcdi_command\<close> states what bring-up and teardown rely on: from a ready transport a command always
  returns and leaves the kernel-facing state alone.
\<close>

abbreviation (input) MC_CMD_GET_VERSION :: u32 where "MC_CMD_GET_VERSION \<equiv> 0x08"
abbreviation (input) MC_CMD_DRV_ATTACH :: u32 where "MC_CMD_DRV_ATTACH \<equiv> 0x1c"
abbreviation (input) MC_CMD_GET_MAC_ADDRESSES :: u32 where "MC_CMD_GET_MAC_ADDRESSES \<equiv> 0x55"
abbreviation (input) MC_CMD_ALLOC_VIS :: u32 where "MC_CMD_ALLOC_VIS \<equiv> 0x8b"
abbreviation (input) MC_CMD_FREE_VIS :: u32 where "MC_CMD_FREE_VIS \<equiv> 0x8c"
abbreviation (input) MC_CMD_GET_ASSERTS :: u32 where "MC_CMD_GET_ASSERTS \<equiv> 0x06"
abbreviation (input) MC_CMD_REBOOT :: u32 where "MC_CMD_REBOOT \<equiv> 0x3d"
abbreviation (input) MC_CMD_ENTITY_RESET :: u32 where "MC_CMD_ENTITY_RESET \<equiv> 0x20"
abbreviation (input) MC_CMD_GET_PORT_ASSIGNMENT :: u32 where "MC_CMD_GET_PORT_ASSIGNMENT \<equiv> 0xb8"
abbreviation (input) MC_CMD_GET_FUNCTION_INFO :: u32 where "MC_CMD_GET_FUNCTION_INFO \<equiv> 0xec"
abbreviation (input) MC_CMD_GET_CAPABILITIES :: u32 where "MC_CMD_GET_CAPABILITIES \<equiv> 0xbe"
abbreviation (input) MC_CMD_INIT_EVQ :: u32 where "MC_CMD_INIT_EVQ \<equiv> 0x80"
abbreviation (input) MC_CMD_INIT_RXQ :: u32 where "MC_CMD_INIT_RXQ \<equiv> 0x81"
abbreviation (input) MC_CMD_INIT_TXQ :: u32 where "MC_CMD_INIT_TXQ \<equiv> 0x82"
abbreviation (input) MC_CMD_FINI_EVQ :: u32 where "MC_CMD_FINI_EVQ \<equiv> 0x83"
abbreviation (input) MC_CMD_FINI_RXQ :: u32 where "MC_CMD_FINI_RXQ \<equiv> 0x84"
abbreviation (input) MC_CMD_FINI_TXQ :: u32 where "MC_CMD_FINI_TXQ \<equiv> 0x85"
abbreviation (input) MC_CMD_VADAPTOR_ALLOC :: u32 where "MC_CMD_VADAPTOR_ALLOC \<equiv> 0x98"
abbreviation (input) MC_CMD_VADAPTOR_FREE :: u32 where "MC_CMD_VADAPTOR_FREE \<equiv> 0x99"
abbreviation (input) MC_CMD_GET_PHY_CFG :: u32 where "MC_CMD_GET_PHY_CFG \<equiv> 0x24"
abbreviation (input) MC_CMD_SET_MAC :: u32 where "MC_CMD_SET_MAC \<equiv> 0x2c"
abbreviation (input) MC_CMD_SET_LINK :: u32 where "MC_CMD_SET_LINK \<equiv> 0x2a"
abbreviation (input) MC_CMD_GET_LINK :: u32 where "MC_CMD_GET_LINK \<equiv> 0x29"
abbreviation (input) MC_CMD_FILTER_OP :: u32 where "MC_CMD_FILTER_OP \<equiv> 0x8a"
abbreviation (input) MC_CMD_FW_DONT_CARE :: u32 where "MC_CMD_FW_DONT_CARE \<equiv> 0xffffffff"
abbreviation (input) EVB_PORT_ID_ASSIGNED :: u32 where "EVB_PORT_ID_ASSIGNED \<equiv> 0x01000000"
abbreviation (input) SFC7120_DEFAULT_MAC_PDU :: u32 where "SFC7120_DEFAULT_MAC_PDU \<equiv> 1544"

text \<open>\<open>uint8_t buf[n] = {0}\<close>.\<close>

abbreviation (input) zeros :: "nat \<Rightarrow> u8 list" where "zeros n \<equiv> replicate n 0"

section \<open>State and identity\<close>

definition sfc7120_mcdi_log_mc_state :: "env \<Rightarrow> softc \<Rightarrow> softc" where
  "sfc7120_mcdi_log_mc_state K s =
     (let (hw_rev, s) = SFC7120_READ_REG K EF10_REG_BIU_HW_REV_ID s;
          (sft, s) = SFC7120_READ_REG K EF10_REG_BIU_MC_SFT_STATUS s
      in s)"

text \<open>The retry loop of \<open>clear_assertions\<close>: at most \<open>n\<close> tries.\<close>

fun get_asserts_retry ::
  "env \<Rightarrow> nat \<Rightarrow> u8 list \<Rightarrow> int \<times> u8 list \<times> nat \<Rightarrow> softc \<Rightarrow> (int \<times> u8 list \<times> nat \<times> softc) option" where
  "get_asserts_retry K 0 inp (rc, resp, used) s = Some (rc, resp, used, s)"
| "get_asserts_retry K (Suc n) inp (rc, resp, used) s = do {
     (rc, resp, used, s) \<leftarrow> sfc7120_mcdi_exec K MC_CMD_GET_ASSERTS inp resp used s;
     if rc \<noteq> EINTR \<and> rc \<noteq> EIO then Some (rc, resp, used, s)
     else get_asserts_retry K n inp (rc, resp, used) s }"

definition sfc7120_mcdi_clear_assertions :: "env \<Rightarrow> softc \<Rightarrow> (int \<times> softc) option" where
  "sfc7120_mcdi_clear_assertions K s = do {
     let inp = put32 0 1 (zeros 4);
     (rc, resp, used, s) \<leftarrow> get_asserts_retry K 3 inp (0, zeros 140, 0) s;
     if rc = EACCES then Some (0, s)
     else if rc \<noteq> 0 then Some (rc, s)
     else Some (0, s) }"

definition sfc7120_mcdi_entity_reset :: "env \<Rightarrow> softc \<Rightarrow> (int \<times> softc) option" where
  "sfc7120_mcdi_entity_reset K s = do {
     (rc, _, _, s) \<leftarrow> sfc7120_mcdi_exec K MC_CMD_ENTITY_RESET (put32 0 1 (zeros 4)) [] 0 s;
     if rc = EACCES then Some (0, s)
     else if rc \<noteq> 0 then Some (rc, s)
     else Some (0, s) }"

definition sfc7120_mcdi_dump_func_info :: "env \<Rightarrow> softc \<Rightarrow> (int \<times> softc) option" where
  "sfc7120_mcdi_dump_func_info K s = do {
     (rc, _, _, s) \<leftarrow> sfc7120_mcdi_exec K MC_CMD_GET_PORT_ASSIGNMENT [] (zeros 4) 0 s;
     (rc, _, _, s) \<leftarrow> sfc7120_mcdi_exec K MC_CMD_GET_FUNCTION_INFO [] (zeros 8) 0 s;
     (rc, resp, used, s) \<leftarrow> sfc7120_mcdi_exec K MC_CMD_GET_CAPABILITIES [] (zeros 20) 0 s;
     if rc \<noteq> 0 then Some (0, s)
     else if used \<ge> 20 then Some (0, s\<lparr>mcdi_cap_flags1 := get32 0 resp, mcdi_caps_valid := True\<rparr>)
     else Some (0, s) }"

text \<open>The wait for the BIU after an MC reboot: at most \<open>n\<close> reads, 1 ms apart.\<close>

fun wait_biu :: "env \<Rightarrow> nat \<Rightarrow> u32 \<Rightarrow> softc \<Rightarrow> u32 \<times> softc" where
  "wait_biu K 0 hw_rev s = (hw_rev, s)"
| "wait_biu K (Suc n) hw_rev s =
     (let (hw_rev, s) = SFC7120_READ_REG K EF10_REG_BIU_HW_REV_ID s
      in if hw_rev = EF10_REG_BIU_HW_REV_ID_RESET then (hw_rev, s)
         else wait_biu K n hw_rev (emit (Delay 1000) s))"

definition sfc7120_mcdi_reboot_after_assertion :: "env \<Rightarrow> softc \<Rightarrow> (int \<times> softc) option" where
  "sfc7120_mcdi_reboot_after_assertion K s = do {
     (rc, _, _, s) \<leftarrow> sfc7120_mcdi_exec K MC_CMD_REBOOT (put32 0 1 (zeros 4)) [] 0 s;
     if rc = 0 \<or> rc = EACCES then Some (0, s)
     else if rc \<noteq> ETIMEDOUT \<and> rc \<noteq> EIO then Some (rc, s)
     else do {
       let (hw_rev, s) = wait_biu K 5000 0 s;
       if hw_rev \<noteq> EF10_REG_BIU_HW_REV_ID_RESET then Some (EIO, s)
       else do {
         s \<leftarrow> SFC7120_MCDI_LOCK s;
         let s = s\<lparr>mcdi_new_epoch := True, mcdi_seq := 0\<rparr>;
         s \<leftarrow> SFC7120_MCDI_UNLOCK s;
         Some (0, SFC7120_WRITE_REG EF10_REG_MC_DB_HWRD 1 s) } } }"

definition sfc7120_mcdi_get_version :: "env \<Rightarrow> softc \<Rightarrow> (int \<times> softc) option" where
  "sfc7120_mcdi_get_version K s = do {
     (rc, resp, used, s) \<leftarrow> sfc7120_mcdi_exec K MC_CMD_GET_VERSION [] (zeros 32) 0 s;
     if rc \<noteq> 0 then Some (rc, s)
     else if used < 32 then Some (EPROTO, s)
     else Some (0, s\<lparr>fw_version := (get32 24 resp, get32 28 resp)\<rparr>) }"

text \<open>\<open>drv_attach\<close> and \<open>drv_detach\<close> send the same command with \<open>NEW_STATE\<close> 1 and 0.\<close>

definition drv_attach_in :: "u32 \<Rightarrow> u8 list" where
  "drv_attach_in new_state = put32 8 MC_CMD_FW_DONT_CARE (put32 4 1 (put32 0 new_state (zeros 12)))"

definition sfc7120_mcdi_drv_attach :: "env \<Rightarrow> softc \<Rightarrow> (int \<times> softc) option" where
  "sfc7120_mcdi_drv_attach K s = do {
     (rc, resp, used, s) \<leftarrow> sfc7120_mcdi_exec K MC_CMD_DRV_ATTACH (drv_attach_in 1) (zeros 8) 0 s;
     if rc \<noteq> 0 then Some (rc, s)
     else do {
       let s = s\<lparr>mcdi_func_flags := 0\<rparr>;
       if used \<ge> 8 then Some (0, s\<lparr>mcdi_func_flags := get32 4 resp, drv_attached := True\<rparr>)
       else if used < 4 then Some (EPROTO, s)
       else Some (0, s\<lparr>drv_attached := True\<rparr>) } }"

definition sfc7120_mcdi_drv_detach :: "env \<Rightarrow> softc \<Rightarrow> (int \<times> softc) option" where
  "sfc7120_mcdi_drv_detach K s =
     (if \<not> drv_attached s then Some (0, s)
      else do {
        (rc, _, _, s) \<leftarrow> sfc7120_mcdi_exec K MC_CMD_DRV_ATTACH (drv_attach_in 0) (zeros 8) 0 s;
        Some (rc, if rc = 0 then s\<lparr>drv_attached := False\<rparr> else s) })"

section \<open>Queues\<close>

text \<open>A queue size the wrappers accept: a power of two in range, filling whole pages.\<close>

definition bad_queue_size :: "nat \<Rightarrow> nat \<Rightarrow> bool" where
  "bad_queue_size hi n \<longleftrightarrow> n < 512 \<or> n > hi \<or> (n AND (n - 1)) \<noteq> 0 \<or> (n * 8) mod 4096 \<noteq> 0"

definition init_evq_in :: "u32 \<Rightarrow> u64 \<Rightarrow> nat \<Rightarrow> u8 list" where
  "init_evq_in inst paddr nevs =
     (let interrupting = (inst = 0);
          flags = push_bit 3 1 OR push_bit 4 1 OR push_bit 5 1 OR (if interrupting then 1 else 0)
      in put64 36 paddr
           (put32 24 (if interrupting then inst else 0)
             (put32 16 flags (put32 4 inst (put32 0 (of_nat nevs) (zeros 44))))))"

definition sfc7120_mcdi_init_evq :: "env \<Rightarrow> u32 \<Rightarrow> u64 \<Rightarrow> nat \<Rightarrow> softc \<Rightarrow> (int \<times> softc) option" where
  "sfc7120_mcdi_init_evq K inst paddr nevs s =
     (if bad_queue_size 32768 nevs then Some (EINVAL, s)
      else if inst \<ge> vi_count s then Some (EINVAL, s)
      else do {
        kassert (nevs * 8 div 4096 = 1);
        (rc, _, _, s) \<leftarrow> sfc7120_mcdi_exec K MC_CMD_INIT_EVQ (init_evq_in inst paddr nevs) (zeros 4) 0 s;
        if rc \<noteq> 0 then Some (rc, s)
        else Some (0, s\<lparr>evq_read_ptr := 0, evq_initialized := True\<rparr>) })"

definition init_queue_in :: "u32 \<Rightarrow> u32 \<Rightarrow> u32 \<Rightarrow> u64 \<Rightarrow> nat \<Rightarrow> u8 list" where
  "init_queue_in flags inst target_evq ring_paddr ndescs =
     put64 28 ring_paddr
       (put32 24 EVB_PORT_ID_ASSIGNED
         (put32 16 flags (put32 12 inst (put32 4 target_evq (put32 0 (of_nat ndescs) (zeros 36))))))"

definition sfc7120_mcdi_init_rxq :: "env \<Rightarrow> u32 \<Rightarrow> u32 \<Rightarrow> u64 \<Rightarrow> nat \<Rightarrow> softc \<Rightarrow> (int \<times> softc) option" where
  "sfc7120_mcdi_init_rxq K inst target_evq ring_paddr ndescs s =
     (if bad_queue_size 4096 ndescs then Some (EINVAL, s)
      else if \<not> vadaptor_allocated s then Some (EINVAL, s)
      else if inst \<ge> vi_count s then Some (EINVAL, s)
      else if target_evq \<ge> vi_count s then Some (EINVAL, s)
      else do {
        kassert (ndescs * 8 div 4096 = 1);
        let flags = push_bit 8 1 OR push_bit 9 1;
        (rc, _, _, s) \<leftarrow> sfc7120_mcdi_exec K MC_CMD_INIT_RXQ (init_queue_in flags inst target_evq ring_paddr ndescs) [] 0 s;
        if rc \<noteq> 0 then Some (rc, s) else Some (0, s\<lparr>rxq_initialized := True\<rparr>) })"

definition sfc7120_mcdi_init_txq :: "env \<Rightarrow> u32 \<Rightarrow> u32 \<Rightarrow> u64 \<Rightarrow> nat \<Rightarrow> softc \<Rightarrow> (int \<times> softc) option" where
  "sfc7120_mcdi_init_txq K inst target_evq ring_paddr ndescs s =
     (if bad_queue_size 4096 ndescs then Some (EINVAL, s)
      else if \<not> vadaptor_allocated s then Some (EINVAL, s)
      else if inst \<ge> vi_count s then Some (EINVAL, s)
      else if target_evq \<ge> vi_count s then Some (EINVAL, s)
      else do {
        kassert (ndescs * 8 div 4096 = 1);
        let flags = push_bit 1 1 OR push_bit 2 1;
        (rc, _, _, s) \<leftarrow> sfc7120_mcdi_exec K MC_CMD_INIT_TXQ (init_queue_in flags inst target_evq ring_paddr ndescs) [] 0 s;
        if rc \<noteq> 0 then Some (rc, s) else Some (0, s\<lparr>txq_initialized := True\<rparr>) })"

text \<open>\<open>donep\<close> points at one of two flags.\<close>

definition evq_done :: "u32 \<Rightarrow> softc \<Rightarrow> bool" where
  "evq_done inst s = (if inst = 0 then evq_initialized s else data_evq_initialized s)"

definition sfc7120_mcdi_fini_evq :: "env \<Rightarrow> u32 \<Rightarrow> softc \<Rightarrow> (int \<times> softc) option" where
  "sfc7120_mcdi_fini_evq K inst s =
     (if \<not> evq_done inst s then Some (0, s)
      else do {
        (rc, _, _, s) \<leftarrow> sfc7120_mcdi_exec K MC_CMD_FINI_EVQ (put32 0 inst (zeros 4)) [] 0 s;
        if rc = EBUSY then Some (rc, s)
        else Some (rc, if inst = 0 then s\<lparr>evq_initialized := False\<rparr> else s\<lparr>data_evq_initialized := False\<rparr>) })"

definition sfc7120_mcdi_fini_rxq :: "env \<Rightarrow> u32 \<Rightarrow> softc \<Rightarrow> (int \<times> softc) option" where
  "sfc7120_mcdi_fini_rxq K inst s =
     (if \<not> rxq_initialized s then Some (0, s)
      else do {
        (rc, _, _, s) \<leftarrow> sfc7120_mcdi_exec K MC_CMD_FINI_RXQ (put32 0 inst (zeros 4)) [] 0 s;
        Some (rc, s\<lparr>rxq_initialized := False\<rparr>) })"

definition sfc7120_mcdi_fini_txq :: "env \<Rightarrow> u32 \<Rightarrow> softc \<Rightarrow> (int \<times> softc) option" where
  "sfc7120_mcdi_fini_txq K inst s =
     (if \<not> txq_initialized s then Some (0, s)
      else do {
        (rc, _, _, s) \<leftarrow> sfc7120_mcdi_exec K MC_CMD_FINI_TXQ (put32 0 inst (zeros 4)) [] 0 s;
        Some (rc, s\<lparr>txq_initialized := False\<rparr>) })"

section \<open>vAdaptor, MAC, VIs\<close>

definition sfc7120_mcdi_vadaptor_alloc :: "env \<Rightarrow> softc \<Rightarrow> (int \<times> softc) option" where
  "sfc7120_mcdi_vadaptor_alloc K s =
     (if vadaptor_allocated s then Some (0, s)
      else do {
        let flags = (if mcdi_caps_valid s \<and> mcdi_cap_flags1 s AND push_bit 11 1 \<noteq> 0 then push_bit 1 1 else 0);
        let buf = put32 8 flags (put32 0 EVB_PORT_ID_ASSIGNED (zeros 30));
        (rc, _, _, s) \<leftarrow> sfc7120_mcdi_exec K MC_CMD_VADAPTOR_ALLOC buf [] 0 s;
        if rc \<noteq> 0 then Some (rc, s) else Some (0, s\<lparr>vadaptor_allocated := True\<rparr>) })"

definition sfc7120_mcdi_vadaptor_free :: "env \<Rightarrow> softc \<Rightarrow> (int \<times> softc) option" where
  "sfc7120_mcdi_vadaptor_free K s =
     (if \<not> vadaptor_allocated s then Some (0, s)
      else do {
        (rc, _, _, s) \<leftarrow> sfc7120_mcdi_exec K MC_CMD_VADAPTOR_FREE (put32 0 EVB_PORT_ID_ASSIGNED (zeros 4)) [] 0 s;
        Some (rc, s\<lparr>vadaptor_allocated := False\<rparr>) })"

definition sfc7120_mcdi_get_mac :: "env \<Rightarrow> softc \<Rightarrow> (int \<times> softc) option" where
  "sfc7120_mcdi_get_mac K s = do {
     (rc, resp, used, s) \<leftarrow> sfc7120_mcdi_exec K MC_CMD_GET_MAC_ADDRESSES [] (zeros 16) 0 s;
     if rc \<noteq> 0 then Some (rc, s)
     else if used < 6 then Some (EPROTO, s)
     else Some (0, s\<lparr>mac_addr := take 6 resp\<rparr>) }"

definition sfc7120_mcdi_alloc_vis :: "env \<Rightarrow> u32 \<Rightarrow> u32 \<Rightarrow> softc \<Rightarrow> (int \<times> softc) option" where
  "sfc7120_mcdi_alloc_vis K min_count max_count s = do {
     let inp = put32 4 max_count (put32 0 min_count (zeros 8));
     (rc, resp, used, s) \<leftarrow> sfc7120_mcdi_exec K MC_CMD_ALLOC_VIS inp (zeros 8) 0 s;
     if rc \<noteq> 0 then Some (rc, s)
     else if used < 8 then Some (EPROTO, s)
     else Some (0, s\<lparr>vi_count := get32 0 resp, vi_base := get32 4 resp, vis_allocated := True\<rparr>) }"

definition sfc7120_mcdi_free_vis :: "env \<Rightarrow> softc \<Rightarrow> (int \<times> softc) option" where
  "sfc7120_mcdi_free_vis K s =
     (if \<not> vis_allocated s then Some (0, s)
      else do {
        (rc, _, _, s) \<leftarrow> sfc7120_mcdi_exec K MC_CMD_FREE_VIS [] [] 0 s;
        Some (rc, if rc = 0 then s\<lparr>vis_allocated := False, vi_count := 0, vi_base := 0\<rparr> else s) })"

section \<open>MAC, PHY and link\<close>

text \<open>The FEC quirk: set a \<open>*_FEC_REQUESTED\<close> bit where the firmware reports the FEC bit.\<close>

definition fec_quirk :: "u32 \<Rightarrow> u32" where
  "fec_quirk cap =
     (let cap = (if cap AND push_bit 16 1 \<noteq> 0 then cap OR push_bit 17 1 else cap);
          cap = (if cap AND push_bit 18 1 \<noteq> 0 then cap OR push_bit 19 1 else cap)
      in if cap AND push_bit 20 1 \<noteq> 0 then cap OR push_bit 21 1 else cap)"

definition sfc7120_mcdi_get_phy_cfg :: "env \<Rightarrow> softc \<Rightarrow> (int \<times> softc) option" where
  "sfc7120_mcdi_get_phy_cfg K s = do {
     (rc, resp, used, s) \<leftarrow> sfc7120_mcdi_exec K MC_CMD_GET_PHY_CFG [] (zeros 72) 0 s;
     if rc \<noteq> 0 then Some (rc, s)
     else if used < 48 then Some (EPROTO, s)
     else Some (0, s\<lparr>phy_supported_cap_mask := fec_quirk (get32 8 resp), phy_media_type := get32 44 resp\<rparr>) }"

definition sfc7120_mcdi_set_mac :: "env \<Rightarrow> softc \<Rightarrow> (int \<times> softc) option" where
  "sfc7120_mcdi_set_mac K s = do {
     let buf = put32 24 0 (put32 20 3 (put32 16 0 (put_bytes 8 (take 6 (mac_addr s))
                 (put32 4 0 (put32 0 SFC7120_DEFAULT_MAC_PDU (zeros 28))))));
     (rc, _, _, s) \<leftarrow> sfc7120_mcdi_exec K MC_CMD_SET_MAC buf [] 0 s;
     if rc = EACCES then Some (0, s)
     else if rc \<noteq> 0 then Some (rc, s)
     else Some (0, s\<lparr>mac_configured := True\<rparr>) }"

definition sfc7120_mcdi_set_link :: "env \<Rightarrow> softc \<Rightarrow> (int \<times> softc) option" where
  "sfc7120_mcdi_set_link K s = do {
     let cap = phy_supported_cap_mask s OR push_bit 10 1;
     let s = s\<lparr>phy_adv_cap_mask := cap\<rparr>;
     let buf = put32 12 0 (put32 8 0 (put32 4 0 (put32 0 cap (zeros 16))));
     (rc, _, _, s) \<leftarrow> sfc7120_mcdi_exec K MC_CMD_SET_LINK buf [] 0 s;
     if rc \<noteq> 0 then Some (rc, s) else Some (0, s\<lparr>link_configured := True\<rparr>) }"

definition sfc7120_mcdi_get_link :: "env \<Rightarrow> softc \<Rightarrow> (int \<times> softc) option" where
  "sfc7120_mcdi_get_link K s = do {
     (rc, resp, used, s) \<leftarrow> sfc7120_mcdi_exec K MC_CMD_GET_LINK [] (zeros 44) 0 s;
     if rc \<noteq> 0 then Some (rc, s)
     else if used < 28 then Some (EPROTO, s)
     else do {
       let link_flags = get32 16 resp;
       Some (0, s\<lparr>link_up := (link_flags AND 1 \<noteq> 0), full_duplex := (link_flags AND push_bit 1 1 \<noteq> 0),
                  link_speed_mbps := get32 8 resp, link_fcntl := get32 20 resp\<rparr>) } }"

section \<open>Receive filter\<close>

definition filter_insert_in :: "u8 list \<Rightarrow> u8 list" where
  "filter_insert_in mac =
     put_bytes 52 (take 6 mac)
       (put32 40 0xffffffff (put32 28 0 (put32 24 0 (put32 20 1 (put32 16 (push_bit 4 1)
         (put32 12 EVB_PORT_ID_ASSIGNED (put32 0 0 (zeros 108))))))))"

definition sfc7120_mcdi_filter_insert :: "env \<Rightarrow> softc \<Rightarrow> (int \<times> softc) option" where
  "sfc7120_mcdi_filter_insert K s =
     (if rx_filter_inserted s then Some (0, s)
      else do {
        (rc, resp, used, s) \<leftarrow> sfc7120_mcdi_exec K MC_CMD_FILTER_OP (filter_insert_in (mac_addr s)) (zeros 12) 0 s;
        if rc \<noteq> 0 then Some (rc, s)
        else if used < 12 then Some (EPROTO, s)
        else do {
          let handle_lo = get32 4 resp;
          let handle_hi = get32 8 resp;
          if handle_lo = 0xffffffff \<and> handle_hi = 0xffffffff then Some (EIO, s)
          else Some (0, s\<lparr>rx_filter_handle := push_bit 32 (ucast handle_hi) OR ucast handle_lo,
                          rx_filter_inserted := True\<rparr>) } })"

definition filter_remove_in :: "u64 \<Rightarrow> u8 list" where
  "filter_remove_in handle =
     put32 8 (ucast (drop_bit 32 handle)) (put32 4 (ucast (handle AND 0xffffffff)) (put32 0 1 (zeros 108)))"

definition sfc7120_mcdi_filter_remove :: "env \<Rightarrow> softc \<Rightarrow> (int \<times> softc) option" where
  "sfc7120_mcdi_filter_remove K s =
     (if \<not> rx_filter_inserted s then Some (0, s)
      else do {
        (rc, _, _, s) \<leftarrow> sfc7120_mcdi_exec K MC_CMD_FILTER_OP (filter_remove_in (rx_filter_handle s)) [] 0 s;
        Some (rc, s\<lparr>rx_filter_inserted := False\<rparr>) })"

section \<open>The contract of a command\<close>

lemma hostside_upd [simp]:
  "hostside (s\<lparr>mcdi_cap_flags1 := a1\<rparr>) = hostside s" "hostside (s\<lparr>mcdi_caps_valid := a2\<rparr>) = hostside s"
  "hostside (s\<lparr>mcdi_new_epoch := a3\<rparr>) = hostside s" "hostside (s\<lparr>mcdi_seq := a4\<rparr>) = hostside s"
  "hostside (s\<lparr>fw_version := a5\<rparr>) = hostside s" "hostside (s\<lparr>mcdi_func_flags := a6\<rparr>) = hostside s"
  "hostside (s\<lparr>drv_attached := a7\<rparr>) = hostside s" "hostside (s\<lparr>evq_read_ptr := a8\<rparr>) = hostside s"
  "hostside (s\<lparr>evq_initialized := a9\<rparr>) = hostside s" "hostside (s\<lparr>data_evq_initialized := b1\<rparr>) = hostside s"
  "hostside (s\<lparr>rxq_initialized := b2\<rparr>) = hostside s" "hostside (s\<lparr>txq_initialized := b3\<rparr>) = hostside s"
  "hostside (s\<lparr>vadaptor_allocated := b4\<rparr>) = hostside s" "hostside (s\<lparr>mac_addr := b5\<rparr>) = hostside s"
  "hostside (s\<lparr>vi_count := b6\<rparr>) = hostside s" "hostside (s\<lparr>vi_base := b7\<rparr>) = hostside s"
  "hostside (s\<lparr>vis_allocated := b8\<rparr>) = hostside s" "hostside (s\<lparr>phy_supported_cap_mask := b9\<rparr>) = hostside s"
  "hostside (s\<lparr>phy_media_type := c1\<rparr>) = hostside s" "hostside (s\<lparr>phy_adv_cap_mask := c2\<rparr>) = hostside s"
  "hostside (s\<lparr>mac_configured := c3\<rparr>) = hostside s" "hostside (s\<lparr>link_configured := c4\<rparr>) = hostside s"
  "hostside (s\<lparr>link_up := c5\<rparr>) = hostside s" "hostside (s\<lparr>full_duplex := c6\<rparr>) = hostside s"
  "hostside (s\<lparr>link_speed_mbps := c7\<rparr>) = hostside s" "hostside (s\<lparr>link_fcntl := c8\<rparr>) = hostside s"
  "hostside (s\<lparr>rx_filter_handle := c9\<rparr>) = hostside s" "hostside (s\<lparr>rx_filter_inserted := d1\<rparr>) = hostside s"
  "hostside (s\<lparr>io := d2\<rparr>) = hostside s"
  by (simp_all add: hostside_def kside_def)

lemmas fits_simps = fits_def mcdi_hdr_len_def mcdi_use_v2_def pad4_def drv_attach_in_def init_evq_in_def
  init_queue_in_def filter_insert_in_def filter_remove_in_def Let_def

text \<open>Reasoning about one exchange: whatever the MC answers, the rest of the wrapper starts from a
  state with the same host side.\<close>

lemma exec_bind:
  assumes "mcdi_ready s" "fits cmd (length inp) (length inp)" "fits cmd (length inp) (length out)" "cmd < 0x8000"
    "used \<le> length out"
    "\<And>rc out' used' s'. hostside s' = hostside s \<Longrightarrow> mcdi_ready s' \<Longrightarrow> length out' = length out \<Longrightarrow> used' \<le> length out \<Longrightarrow>
       \<exists>r t. f (rc, out', used', s') = Some (r, t) \<and> hostside t = H"
  shows "\<exists>r t. (sfc7120_mcdi_exec K cmd inp out used s \<bind> f) = Some (r, t) \<and> hostside t = H"
proof -
  obtain rc out' used' s' where e: "sfc7120_mcdi_exec K cmd inp out used s = Some (rc, out', used', s')" "mcdi_only s s'"
      "length out' = length out" "used' \<le> length out"
    using exec_summary [OF assms(1-5)] by blast
  note h = mcdi_only_hostside [OF e(2)]
  show ?thesis using assms(6) [OF h hostside_ready [OF h assms(1)] e(3,4)] e(1) by simp
qed

locale mcdi_command =
  fixes run :: "env \<Rightarrow> softc \<Rightarrow> (int \<times> softc) option"
  assumes run_total: "mcdi_ready s \<Longrightarrow> \<exists>rc s'. run K s = Some (rc, s') \<and> hostside s' = hostside s"
begin

lemma run_host: "mcdi_ready s \<Longrightarrow> run K s = Some (rc, s') \<Longrightarrow> hostside s' = hostside s \<and> mcdi_ready s'"
  using run_total [of s K] hostside_ready [of s' s] by auto

lemma run_dma_inv: "mcdi_ready s \<Longrightarrow> dma_inv s \<Longrightarrow> run K s = Some (rc, s') \<Longrightarrow> dma_inv s'"
  using run_host hostside_dma_inv by blast

lemma run_cases:
  assumes "mcdi_ready s"
  obtains rc s' where "run K s = Some (rc, s')" "hostside s' = hostside s" "mcdi_ready s'"
  using run_total [OF assms, of K] hostside_ready assms by blast

end

lemma get_asserts_retry_total:
  "mcdi_ready s \<Longrightarrow> length resp = 140 \<Longrightarrow> used \<le> 140 \<Longrightarrow>
   \<exists>rc resp' used' s'. get_asserts_retry K n (put32 0 1 (zeros 4)) (rc0, resp, used) s = Some (rc, resp', used', s') \<and> hostside s' = hostside s"
proof (induction n arbitrary: rc0 resp used s)
  case (Suc n)
  obtain rc resp' used' s' where e: "sfc7120_mcdi_exec K MC_CMD_GET_ASSERTS (put32 0 1 (zeros 4)) resp used s = Some (rc, resp', used', s')"
      "mcdi_only s s'" "length resp' = length resp" "used' \<le> length resp"
    using exec_summary [of s MC_CMD_GET_ASSERTS "put32 0 1 (zeros 4)" resp used K] Suc.prems by (auto simp: fits_simps)
  note h = mcdi_only_hostside [OF e(2)]
  show ?case
    using Suc.IH [OF hostside_ready [OF h Suc.prems(1)], of resp' used' rc] e h Suc.prems by auto
qed simp

interpretation clear_assertions: mcdi_command sfc7120_mcdi_clear_assertions
proof
  fix s K assume "mcdi_ready s"
  from get_asserts_retry_total [OF this, of "zeros 140" 0 K 3 0]
  show "\<exists>rc s'. sfc7120_mcdi_clear_assertions K s = Some (rc, s') \<and> hostside s' = hostside s"
    by (auto simp: sfc7120_mcdi_clear_assertions_def)
qed

interpretation entity_reset: mcdi_command sfc7120_mcdi_entity_reset
  by unfold_locales (unfold sfc7120_mcdi_entity_reset_def, rule exec_bind, auto simp: fits_simps)

interpretation dump_func_info: mcdi_command sfc7120_mcdi_dump_func_info
  by unfold_locales
    (unfold sfc7120_mcdi_dump_func_info_def, rule exec_bind, simp_all add: fits_simps,
     rule exec_bind, simp_all add: fits_simps, rule exec_bind, auto simp: fits_simps)

interpretation get_version: mcdi_command sfc7120_mcdi_get_version
  by unfold_locales (unfold sfc7120_mcdi_get_version_def, rule exec_bind, auto simp: fits_simps)

interpretation drv_attach: mcdi_command sfc7120_mcdi_drv_attach
  by unfold_locales (unfold sfc7120_mcdi_drv_attach_def, rule exec_bind, auto simp: fits_simps)

interpretation drv_detach: mcdi_command sfc7120_mcdi_drv_detach
proof
  fix s K assume r: "mcdi_ready s"
  show "\<exists>rc s'. sfc7120_mcdi_drv_detach K s = Some (rc, s') \<and> hostside s' = hostside s"
    by (cases "drv_attached s"; simp add: sfc7120_mcdi_drv_detach_def) (rule exec_bind [OF r], auto simp: fits_simps)
qed

lemma wait_biu_host: "hostside (snd (wait_biu K n r s)) = hostside s"
  by (induction n arbitrary: r s) (auto simp: softc_io Let_def)

interpretation reboot: mcdi_command sfc7120_mcdi_reboot_after_assertion
proof
  fix s K assume r: "mcdi_ready s"
  show "\<exists>rc s'. sfc7120_mcdi_reboot_after_assertion K s = Some (rc, s') \<and> hostside s' = hostside s"
  proof (cases "mcdi_initialized s")
    case False
    then show ?thesis by (simp add: sfc7120_mcdi_reboot_after_assertion_def sfc7120_mcdi_exec_def)
  next
    case True
    show ?thesis
      unfolding sfc7120_mcdi_reboot_after_assertion_def
    proof (rule exec_bind [OF r])
      fix rc :: int and out' :: "u8 list" and used' s' assume h: "hostside s' = hostside s" "mcdi_ready s'"
      let ?b = "snd (wait_biu K 5000 0 s')"
      have hb: "hostside ?b = hostside s" using wait_biu_host [of K 5000 0 s'] h(1) by simp
      then have m: "mcdi_mtx ?b = MtxFree" using r True by (auto simp: hostside_def mcdi_ready_def)
      show "\<exists>ra t. (case (rc, out', used', s') of (rc, _, _, s) \<Rightarrow>
          if rc = 0 \<or> rc = EACCES then Some (0, s) else if rc \<noteq> ETIMEDOUT \<and> rc \<noteq> EIO then Some (rc, s)
          else let (hw_rev, s) = wait_biu K 5000 0 s in
            if hw_rev \<noteq> EF10_REG_BIU_HW_REV_ID_RESET then Some (EIO, s)
            else SFC7120_MCDI_LOCK s \<bind> (\<lambda>s. let s = s\<lparr>mcdi_new_epoch := True, mcdi_seq := 0\<rparr>
              in SFC7120_MCDI_UNLOCK s \<bind> (\<lambda>s. Some (0, SFC7120_WRITE_REG EF10_REG_MC_DB_HWRD 1 s)))) = Some (ra, t)
          \<and> hostside t = hostside s"
        using h hb m by (auto simp: split_beta softc_io hostside_def kside_def)
    qed (auto simp: fits_simps)
  qed
qed

interpretation init_evq: mcdi_command "\<lambda>K. sfc7120_mcdi_init_evq K inst paddr 512" for inst paddr
proof
  fix s K assume r: "mcdi_ready s"
  show "\<exists>rc s'. sfc7120_mcdi_init_evq K inst paddr 512 s = Some (rc, s') \<and> hostside s' = hostside s"
    by (cases "bad_queue_size 32768 512"; cases "inst \<ge> vi_count s"; simp add: sfc7120_mcdi_init_evq_def)
       (rule exec_bind [OF r], auto simp: fits_simps)
qed

interpretation init_rxq: mcdi_command "\<lambda>K. sfc7120_mcdi_init_rxq K inst evq paddr 512" for inst evq paddr
proof
  fix s K assume r: "mcdi_ready s"
  show "\<exists>rc s'. sfc7120_mcdi_init_rxq K inst evq paddr 512 s = Some (rc, s') \<and> hostside s' = hostside s"
    by (cases "bad_queue_size 4096 512"; cases "vadaptor_allocated s"; cases "inst \<ge> vi_count s"; cases "evq \<ge> vi_count s";
        simp add: sfc7120_mcdi_init_rxq_def)
       (rule exec_bind [OF r], auto simp: fits_simps)
qed

interpretation init_txq: mcdi_command "\<lambda>K. sfc7120_mcdi_init_txq K inst evq paddr 512" for inst evq paddr
proof
  fix s K assume r: "mcdi_ready s"
  show "\<exists>rc s'. sfc7120_mcdi_init_txq K inst evq paddr 512 s = Some (rc, s') \<and> hostside s' = hostside s"
    by (cases "bad_queue_size 4096 512"; cases "vadaptor_allocated s"; cases "inst \<ge> vi_count s"; cases "evq \<ge> vi_count s";
        simp add: sfc7120_mcdi_init_txq_def)
       (rule exec_bind [OF r], auto simp: fits_simps)
qed

interpretation fini_evq: mcdi_command "\<lambda>K. sfc7120_mcdi_fini_evq K inst" for inst
proof
  fix s K assume r: "mcdi_ready s"
  show "\<exists>rc s'. sfc7120_mcdi_fini_evq K inst s = Some (rc, s') \<and> hostside s' = hostside s"
    by (cases "evq_done inst s"; simp add: sfc7120_mcdi_fini_evq_def) (rule exec_bind [OF r], auto simp: fits_simps)
qed

interpretation fini_rxq: mcdi_command "\<lambda>K. sfc7120_mcdi_fini_rxq K inst" for inst
proof
  fix s K assume r: "mcdi_ready s"
  show "\<exists>rc s'. sfc7120_mcdi_fini_rxq K inst s = Some (rc, s') \<and> hostside s' = hostside s"
    by (cases "rxq_initialized s"; simp add: sfc7120_mcdi_fini_rxq_def) (rule exec_bind [OF r], auto simp: fits_simps)
qed

interpretation fini_txq: mcdi_command "\<lambda>K. sfc7120_mcdi_fini_txq K inst" for inst
proof
  fix s K assume r: "mcdi_ready s"
  show "\<exists>rc s'. sfc7120_mcdi_fini_txq K inst s = Some (rc, s') \<and> hostside s' = hostside s"
    by (cases "txq_initialized s"; simp add: sfc7120_mcdi_fini_txq_def) (rule exec_bind [OF r], auto simp: fits_simps)
qed

interpretation vadaptor_alloc: mcdi_command sfc7120_mcdi_vadaptor_alloc
proof
  fix s K assume r: "mcdi_ready s"
  show "\<exists>rc s'. sfc7120_mcdi_vadaptor_alloc K s = Some (rc, s') \<and> hostside s' = hostside s"
    by (cases "vadaptor_allocated s"; simp add: sfc7120_mcdi_vadaptor_alloc_def Let_def split del: if_split)
       (rule exec_bind [OF r], auto simp: fits_simps)
qed

interpretation vadaptor_free: mcdi_command sfc7120_mcdi_vadaptor_free
proof
  fix s K assume r: "mcdi_ready s"
  show "\<exists>rc s'. sfc7120_mcdi_vadaptor_free K s = Some (rc, s') \<and> hostside s' = hostside s"
    by (cases "vadaptor_allocated s"; simp add: sfc7120_mcdi_vadaptor_free_def) (rule exec_bind [OF r], auto simp: fits_simps)
qed

interpretation get_mac: mcdi_command sfc7120_mcdi_get_mac
  by unfold_locales (unfold sfc7120_mcdi_get_mac_def, rule exec_bind, auto simp: fits_simps)

interpretation alloc_vis: mcdi_command "\<lambda>K. sfc7120_mcdi_alloc_vis K lo hi" for lo hi
  by unfold_locales (unfold sfc7120_mcdi_alloc_vis_def Let_def, rule exec_bind, auto simp: fits_simps)

interpretation free_vis: mcdi_command sfc7120_mcdi_free_vis
proof
  fix s K assume r: "mcdi_ready s"
  show "\<exists>rc s'. sfc7120_mcdi_free_vis K s = Some (rc, s') \<and> hostside s' = hostside s"
    by (cases "vis_allocated s"; simp add: sfc7120_mcdi_free_vis_def) (rule exec_bind [OF r], auto simp: fits_simps)
qed

interpretation get_phy_cfg: mcdi_command sfc7120_mcdi_get_phy_cfg
  by unfold_locales (unfold sfc7120_mcdi_get_phy_cfg_def, rule exec_bind, auto simp: fits_simps)

interpretation set_mac: mcdi_command sfc7120_mcdi_set_mac
  by unfold_locales (unfold sfc7120_mcdi_set_mac_def Let_def, rule exec_bind, auto simp: fits_simps)

lemma mcdi_ready_adv [simp]: "mcdi_ready (s\<lparr>phy_adv_cap_mask := c\<rparr>) = mcdi_ready s"
  by (simp add: mcdi_ready_def dma_mapped_def)

interpretation set_link: mcdi_command sfc7120_mcdi_set_link
  by unfold_locales (unfold sfc7120_mcdi_set_link_def Let_def, rule exec_bind, auto simp: fits_simps)

interpretation get_link: mcdi_command sfc7120_mcdi_get_link
  by unfold_locales (unfold sfc7120_mcdi_get_link_def, rule exec_bind, auto simp: fits_simps)

interpretation filter_insert: mcdi_command sfc7120_mcdi_filter_insert
proof
  fix s K assume r: "mcdi_ready s"
  show "\<exists>rc s'. sfc7120_mcdi_filter_insert K s = Some (rc, s') \<and> hostside s' = hostside s"
    by (cases "rx_filter_inserted s"; simp add: sfc7120_mcdi_filter_insert_def) (rule exec_bind [OF r], auto simp: fits_simps)
qed

interpretation filter_remove: mcdi_command sfc7120_mcdi_filter_remove
proof
  fix s K assume r: "mcdi_ready s"
  show "\<exists>rc s'. sfc7120_mcdi_filter_remove K s = Some (rc, s') \<and> hostside s' = hostside s"
    by (cases "rx_filter_inserted s"; simp add: sfc7120_mcdi_filter_remove_def) (rule exec_bind [OF r], auto simp: fits_simps)
qed

end
