(* ===== verification/Datapath.thy ===== *)
theory Datapath
  imports Mcdi_Cmds
begin

text \<open>
  The data path of \<open>sfc7120.c\<close>: the CAPIO callbacks, descriptor posting, and the \<open>ioctl\<close> handler with
  its inline TX and RX.  The NIC (and, through its mappings, userspace) may write the event ring and
  the packet buffers at any time; what was written becomes visible at each
  \<open>BUS_DMASYNC_POSTREAD\<close>.  The data events of the poll loops are zeroed as they are consumed.
\<close>

section \<open>Requests and replies (\<open>sfc7120_uapi.h\<close>)\<close>

datatype sfc_req =
    SFC7120_GET_MAC
  | SFC7120_GET_VI_INFO
  | SFC7120_SET_EVQ_RPTR u32 u32 u32
  | SFC7120_TX cap u64
  | SFC7120_RX
  | SFC7120_OTHER

record vi_info =
  vi_tx_buffer_paddr :: u64
  vi_rx_buffer_paddr :: u64
  vi_vi_base :: u32
  vi_evq_instance :: u32
  vi_rxq_instance :: u32
  vi_txq_instance :: u32
  vi_num_tx_desc :: u32
  vi_num_rx_desc :: u32
  vi_num_evq_entry :: u32
  vi_tx_head :: u32
  vi_rx_head :: u32
  vi_evq_read_ptr :: u32

text \<open>What the handler writes back into the request: the MAC, the VI geometry, the TX status, the
  received length; \<open>NoReply\<close> when it writes nothing.\<close>

datatype sfc_reply = MacReply "u8 list" | ViReply vi_info | TxStatus int | RxLength u16 | NoReply

section \<open>CAPIO callbacks\<close>

definition sfc7120_get_buffer_size :: "int \<Rightarrow> softc \<Rightarrow> (u64 \<times> softc) option" where
  "sfc7120_get_buffer_size ty s =
     (if ty = map_type_code SFC7120_TX_BUFFER then Some (of_nat (SFC7120_NUM_TX_DESC * SFC7120_TX_BUFFER_SIZE), s)
      else if ty = map_type_code SFC7120_RX_BUFFER then Some (of_nat (SFC7120_NUM_RX_DESC * SFC7120_RX_BUFFER_SIZE), s)
      else if ty = map_type_code SFC7120_MMIO_REGION then do {
        s \<leftarrow> SFC7120_LOCK s;
        (start, sz) \<leftarrow> mem_resource s;
        s \<leftarrow> SFC7120_UNLOCK s;
        Some (sz, s) }
      else if ty = map_type_code SFC7120_TX_DESC_RING then Some (of_nat (SFC7120_NUM_TX_DESC * SFC7120_TX_DESC_SIZE), s)
      else if ty = map_type_code SFC7120_RX_DESC_RING then Some (of_nat (SFC7120_NUM_RX_DESC * SFC7120_RX_DESC_SIZE), s)
      else if ty = map_type_code SFC7120_EVQ_RING then Some (of_nat (SFC7120_NUM_EVQ_ENTRY * SFC7120_EVQ_ENTRY_SIZE), s)
      else Some (0, s))"

definition sfc7120_is_dying :: "softc \<Rightarrow> (bool \<times> softc) option" where
  "sfc7120_is_dying s = do {
     s \<leftarrow> SFC7120_LOCK s;
     let res = dying s;
     s \<leftarrow> SFC7120_UNLOCK s;
     Some (res, s) }"

section \<open>Descriptors\<close>

text \<open>An 8-byte EF10 descriptor: byte count in bits 61..48, the buffer's 48-bit bus address below.\<close>

definition ef10_desc :: "u64 \<Rightarrow> u64 \<Rightarrow> u64" where
  "ef10_desc len paddr =
     push_bit 48 (len AND 0x3fff) OR push_bit 32 (drop_bit 32 paddr AND 0xffff) OR (paddr AND 0xffffffff)"

definition rx_slot_pa :: "nat \<Rightarrow> softc \<Rightarrow> u64" where
  "rx_slot_pa i s = dm_paddr (dma s DMA_RX_BUF) + of_nat (i * SFC7120_RX_BUFFER_SIZE)"

definition tx_slot_pa :: "nat \<Rightarrow> softc \<Rightarrow> u64" where
  "tx_slot_pa i s = dm_paddr (dma s DMA_TX_BUF) + of_nat (i * SFC7120_TX_BUFFER_SIZE)"

definition rx_desc_write :: "nat \<Rightarrow> u64 \<Rightarrow> softc \<Rightarrow> softc option" where
  "rx_desc_write i v s =
     (if dma_mapped DMA_RX_DESC s \<and> i < SFC7120_NUM_RX_DESC
      then Some ((emit (RxDescStore i v) s)\<lparr>rx_desc_ring := (rx_desc_ring s)(i := v)\<rparr>) else None)"

definition tx_desc_write :: "nat \<Rightarrow> u64 \<Rightarrow> softc \<Rightarrow> softc option" where
  "tx_desc_write i v s =
     (if dma_mapped DMA_TX_DESC s \<and> i < SFC7120_NUM_TX_DESC
      then Some ((emit (TxDescStore i v) s)\<lparr>tx_desc_ring := (tx_desc_ring s)(i := v)\<rparr>) else None)"

fun post_rx_loop :: "nat list \<Rightarrow> softc \<Rightarrow> softc option" where
  "post_rx_loop [] s = Some s"
| "post_rx_loop (i # is) s = do {
     s \<leftarrow> rx_desc_write i (ef10_desc (of_nat SFC7120_RX_BUFFER_SIZE) (rx_slot_pa i s)) s;
     post_rx_loop is s }"

definition sfc7120_post_rx_buffers :: "softc \<Rightarrow> softc option" where
  "sfc7120_post_rx_buffers s = do {
     let npost = SFC7120_NUM_RX_DESC - 1;
     s \<leftarrow> post_rx_loop [0..<SFC7120_NUM_RX_DESC] s;
     let s = SFC7120_WRITE_REG SFC7120_REG_DATA_RX_DESC_DBL (of_nat npost) s;
     Some (s\<lparr>rx_head := 0\<rparr>) }"

section \<open>The data event queue\<close>

definition data_evq_sync :: "env \<Rightarrow> softc \<Rightarrow> softc" where
  "data_evq_sync K s =
     (let s = emit (EvqPostread DMA_DATA_EVQ) s
      in s\<lparr>data_evq_ring := dma_in (evq_mem K (io s) DMA_DATA_EVQ) (data_evq_ring s)\<rparr>)"

definition data_evq_read :: "softc \<Rightarrow> u64 option" where
  "data_evq_read s =
     (if dma_mapped DMA_DATA_EVQ s \<and> data_evq_read_ptr s < SFC7120_NUM_EVQ_ENTRY
      then Some (data_evq_ring s (data_evq_read_ptr s)) else None)"

definition data_evq_consume :: "softc \<Rightarrow> softc option" where
  "data_evq_consume s =
     (if dma_mapped DMA_DATA_EVQ s \<and> data_evq_read_ptr s < SFC7120_NUM_EVQ_ENTRY
      then Some ((emit (EvqZero DMA_DATA_EVQ (data_evq_read_ptr s)) s)
                   \<lparr>data_evq_ring := (data_evq_ring s)(data_evq_read_ptr s := 0),
                    data_evq_read_ptr := evq_next (data_evq_read_ptr s)\<rparr>)
      else None)"

definition no_event :: "u64 \<Rightarrow> bool" where
  "no_event ev \<longleftrightarrow> ev = 0xffffffffffffffff \<or> ev = 0"

definition ev_code :: "u64 \<Rightarrow> u32" where
  "ev_code ev = ucast (drop_bit 60 ev) AND 0xf"

definition data_evq_ack :: "nat \<Rightarrow> softc \<Rightarrow> softc" where
  "data_evq_ack consumed s =
     (if consumed > 0
      then SFC7120_WRITE_REG SFC7120_REG_DATA_EVQ_RPTR_DBL (of_nat (data_evq_read_ptr s) AND SFC7120_EVQ_RPTR_MASK) s
      else s)"

section \<open>TX\<close>

text \<open>\<open>comp_idx\<close> is the completed-descriptor counter of a TX event, masked to the ring.\<close>

definition tx_comp_idx :: "u64 \<Rightarrow> nat" where
  "tx_comp_idx ev = unat ((ucast (ev AND 0xffff) :: u32) AND 0x1ff)"

fun tx_poll :: "env \<Rightarrow> nat \<Rightarrow> nat \<Rightarrow> nat \<Rightarrow> softc \<Rightarrow> (bool \<times> nat \<times> softc) option" where
  "tx_poll K 0 posted_idx consumed s = Some (False, consumed, s)"
| "tx_poll K (Suc tries) posted_idx consumed s = do {
     let s = data_evq_sync K s;
     ev \<leftarrow> data_evq_read s;
     if no_event ev then tx_poll K tries posted_idx consumed s
     else do {
       s \<leftarrow> data_evq_consume s;
       if ev_code ev = 2 \<and> tx_comp_idx ev = posted_idx then Some (True, consumed + 1, s)
       else tx_poll K tries posted_idx (consumed + 1) s } }"

text \<open>\<open>copyin\<close> into the slot: all bytes on success, some prefix on a fault.\<close>

definition mem_fill :: "nat \<Rightarrow> nat \<Rightarrow> (nat \<Rightarrow> u8) \<Rightarrow> (nat \<Rightarrow> u8) \<Rightarrow> nat \<Rightarrow> u8" where
  "mem_fill slot k bytes m i = (if slot \<le> i \<and> i < slot + k then bytes (i - slot) else m i)"

definition tx_copyin :: "env \<Rightarrow> cap \<Rightarrow> nat \<Rightarrow> nat \<Rightarrow> softc \<Rightarrow> (int \<times> softc) option" where
  "tx_copyin K buf slot len s =
     (if dma_mapped DMA_TX_BUF s \<and> slot + len \<le> SFC7120_NUM_TX_DESC * SFC7120_TX_BUFFER_SIZE
      then case copyin K (io s) buf len of (err, n, bytes) \<Rightarrow>
        let k = (if err = 0 then len else min n len)
        in Some (err, (emit (CopyIn slot len) s)\<lparr>tx_buffer := mem_fill slot k bytes (tx_buffer s)\<rparr>)
      else None)"

definition sfc7120_ioctl_tx :: "env \<Rightarrow> cap \<Rightarrow> u64 \<Rightarrow> softc \<Rightarrow> (int \<times> sfc_reply \<times> softc) option" where
  "sfc7120_ioctl_tx K tx_buf_addr len s =
     (if \<not> cap_tag tx_buf_addr then Some (EINVAL, NoReply, s)
      else if PERM_LOAD \<notin> cap_perms tx_buf_addr then Some (EPERM, NoReply, s)
      else if len = 0 \<or> unat len > SFC7120_TX_BUFFER_SIZE then Some (EINVAL, NoReply, s)
      else if cap_len tx_buf_addr < unat len then Some (EINVAL, NoReply, s)
      else do {
        s \<leftarrow> SFC7120_LOCK s;
        let slot_pa = tx_slot_pa (tx_head s) s;
        (copy_err, s) \<leftarrow> tx_copyin K tx_buf_addr (tx_head s * SFC7120_TX_BUFFER_SIZE) (unat len) s;
        if copy_err \<noteq> 0 then do {
          s \<leftarrow> SFC7120_UNLOCK s;
          Some (copy_err, NoReply, s) }
        else do {
          s \<leftarrow> tx_desc_write (tx_head s) (ef10_desc len slot_pa) s;
          let posted_idx = tx_head s;
          let s = SFC7120_WRITE_REG SFC7120_REG_DATA_TX_WPTR_DBL (of_nat (tx_next (tx_head s))) s;
          (tx_done, consumed, s) \<leftarrow> tx_poll K 10000 posted_idx 0 s;
          let s = data_evq_ack consumed s;
          let s = s\<lparr>tx_head := tx_next (tx_head s)\<rparr>;
          s \<leftarrow> SFC7120_UNLOCK s;
          let rc = (if tx_done then 0 else ETIMEDOUT);
          Some (rc, TxStatus rc, s) } })"

section \<open>RX\<close>

fun rx_poll :: "env \<Rightarrow> nat \<Rightarrow> nat \<Rightarrow> softc \<Rightarrow> (u32 option \<times> nat \<times> softc) option" where
  "rx_poll K 0 consumed s = Some (None, consumed, s)"
| "rx_poll K (Suc tries) consumed s = do {
     let s = data_evq_sync K s;
     ev \<leftarrow> data_evq_read s;
     if no_event ev then rx_poll K tries consumed s
     else do {
       s \<leftarrow> data_evq_consume s;
       if ev_code ev = 0 then Some (Some (ucast (ev AND 0x3fff)), consumed + 1, s)
       else rx_poll K tries (consumed + 1) s } }"

definition rx_buf_sync :: "env \<Rightarrow> softc \<Rightarrow> softc" where
  "rx_buf_sync K s = (let s = emit RxBufPostread s in s\<lparr>rx_buffer := dma_in (rxb_mem K (io s)) (rx_buffer s)\<rparr>)"

definition rx_buf_read :: "nat \<Rightarrow> softc \<Rightarrow> u8 option" where
  "rx_buf_read i s =
     (if dma_mapped DMA_RX_BUF s \<and> i < SFC7120_NUM_RX_DESC * SFC7120_RX_BUFFER_SIZE then Some (rx_buffer s i) else None)"

text \<open>Frame length: from the EF10 prefix, or from the event in cut-through mode.\<close>

definition rx_frame_len :: "u8 \<Rightarrow> u8 \<Rightarrow> u32 \<Rightarrow> u16" where
  "rx_frame_len b8 b9 rx_bytes =
     (let plen = le16 b8 b9
      in if plen = 0 then (if rx_bytes > 14 then ucast (rx_bytes - 14) else 0) else plen)"

definition sfc7120_ioctl_rx :: "env \<Rightarrow> softc \<Rightarrow> (int \<times> sfc_reply \<times> softc) option" where
  "sfc7120_ioctl_rx K s = do {
     s \<leftarrow> SFC7120_LOCK s;
     (rx_found, consumed, s) \<leftarrow> rx_poll K 100000 0 s;
     let s = data_evq_ack consumed s;
     (case rx_found of
        None \<Rightarrow> do { s \<leftarrow> SFC7120_UNLOCK s; Some (ETIMEDOUT, NoReply, s) }
      | Some rx_bytes \<Rightarrow> do {
          let slot = rx_head s * SFC7120_RX_BUFFER_SIZE;
          let s = rx_buf_sync K s;
          b8 \<leftarrow> rx_buf_read (slot + 8) s;
          b9 \<leftarrow> rx_buf_read (slot + 9) s;
          let plen = rx_frame_len b8 b9 rx_bytes;
          let copy_err = copyout K (io s) (slot + 14) (unat plen);
          let s = emit (CopyOut (slot + 14) (unat plen)) s;
          if copy_err \<noteq> 0 then do {
            s \<leftarrow> SFC7120_UNLOCK s;
            Some (copy_err, NoReply, s) }
          else do {
            s \<leftarrow> rx_desc_write (rx_head s) (ef10_desc (of_nat SFC7120_RX_BUFFER_SIZE) (rx_slot_pa (rx_head s) s)) s;
            let s = SFC7120_WRITE_REG SFC7120_REG_RX_DESC_DBL (of_nat (rx_head s)) s;
            let s = s\<lparr>rx_head := rx_next (rx_head s)\<rparr>;
            s \<leftarrow> SFC7120_UNLOCK s;
            Some (0, RxLength plen, s) } }) }"

section \<open>The handler\<close>

definition sfc7120_ioctl :: "env \<Rightarrow> sfc_req \<Rightarrow> softc \<Rightarrow> (int \<times> sfc_reply \<times> softc) option" where
  "sfc7120_ioctl K req s =
     (case req of
        SFC7120_GET_MAC \<Rightarrow> do {
          s \<leftarrow> SFC7120_LOCK s;
          let mac = mac_addr s;
          s \<leftarrow> SFC7120_UNLOCK s;
          Some (0, MacReply mac, s) }
      | SFC7120_GET_VI_INFO \<Rightarrow> do {
          s \<leftarrow> SFC7120_LOCK s;
          let v = \<lparr>vi_tx_buffer_paddr = dm_paddr (dma s DMA_TX_BUF), vi_rx_buffer_paddr = dm_paddr (dma s DMA_RX_BUF),
                   vi_vi_base = vi_base s, vi_evq_instance = SFC7120_DATA_EVQ_INSTANCE,
                   vi_rxq_instance = SFC7120_RXQ_INSTANCE, vi_txq_instance = SFC7120_TXQ_INSTANCE,
                   vi_num_tx_desc = of_nat SFC7120_NUM_TX_DESC, vi_num_rx_desc = of_nat SFC7120_NUM_RX_DESC,
                   vi_num_evq_entry = of_nat SFC7120_NUM_EVQ_ENTRY,
                   vi_tx_head = of_nat (tx_head s), vi_rx_head = of_nat (rx_head s),
                   vi_evq_read_ptr = of_nat (data_evq_read_ptr s)\<rparr>;
          s \<leftarrow> SFC7120_UNLOCK s;
          Some (0, ViReply v, s) }
      | SFC7120_SET_EVQ_RPTR rptr tx rx \<Rightarrow>
          if unat rptr \<ge> SFC7120_NUM_EVQ_ENTRY \<or> unat tx \<ge> SFC7120_NUM_TX_DESC \<or> unat rx \<ge> SFC7120_NUM_RX_DESC
          then Some (EINVAL, NoReply, s)
          else do {
            s \<leftarrow> SFC7120_LOCK s;
            let s = s\<lparr>data_evq_read_ptr := unat rptr, tx_head := unat tx, rx_head := unat rx\<rparr>;
            s \<leftarrow> SFC7120_UNLOCK s;
            Some (0, NoReply, s) }
      | SFC7120_TX buf len \<Rightarrow> sfc7120_ioctl_tx K buf len s
      | SFC7120_RX \<Rightarrow> sfc7120_ioctl_rx K s
      | SFC7120_OTHER \<Rightarrow> Some (ENOTTY, NoReply, s))"

definition sfc7120_capio_ops :: "env \<Rightarrow> (sfc_req, sfc_reply, softc) capio_ops" where
  "sfc7120_capio_ops K =
     \<lparr>op_ioctl = sfc7120_ioctl K, op_is_dying = sfc7120_is_dying, op_get_buffer_size = sfc7120_get_buffer_size\<rparr>"

section \<open>Other cdev entry points\<close>

definition sfc7120_open :: "softc \<Rightarrow> int \<times> softc" where
  "sfc7120_open s = (0, s)"

definition sfc7120_close :: "env \<Rightarrow> softc \<Rightarrow> (int \<times> softc) option" where
  "sfc7120_close K s = do {
     (_, s) \<leftarrow> revoke_access K s;
     Some (0, s) }"

text \<open>\<open>POLLIN | POLLRDNORM\<close> is \<open>0x41\<close>.\<close>

definition sfc7120_poll :: "u32 \<Rightarrow> softc \<Rightarrow> (u32 \<times> softc) option" where
  "sfc7120_poll events s = do {
     s \<leftarrow> SFC7120_RX_LOCK s;
     let (revents, s) = (if rx_received s then (events AND 0x41, s) else (0, emit (Call ''selrecord'') s));
     s \<leftarrow> SFC7120_RX_UNLOCK s;
     Some (revents, s) }"

section \<open>Well-formed data path\<close>

definition dp_ok :: "softc \<Rightarrow> bool" where
  "dp_ok s \<longleftrightarrow>
     sc_mtx s = MtxFree \<and> mem_resource s \<noteq> None
     \<and> dma_mapped DMA_DATA_EVQ s \<and> dma_mapped DMA_TX_DESC s \<and> dma_mapped DMA_RX_DESC s
     \<and> dma_mapped DMA_TX_BUF s \<and> dma_mapped DMA_RX_BUF s
     \<and> data_evq_read_ptr s < SFC7120_NUM_EVQ_ENTRY \<and> tx_head s < SFC7120_NUM_TX_DESC \<and> rx_head s < SFC7120_NUM_RX_DESC"

fun evq_event :: "io \<Rightarrow> bool" where
  "evq_event (EvqPostread d) = (d = DMA_DATA_EVQ)"
| "evq_event (EvqZero d i) = (d = DMA_DATA_EVQ)"
| "evq_event _ = False"

text \<open>What a poll of the data event queue may do: consume \<open>n\<close> events, and nothing else.\<close>

definition evq_polled :: "nat \<Rightarrow> softc \<Rightarrow> softc \<Rightarrow> bool" where
  "evq_polled n s s' \<longleftrightarrow>
     (\<exists>h q. s' = s\<lparr>io := h @ io s, data_evq_ring := q, data_evq_read_ptr := (data_evq_read_ptr s + n) mod 512\<rparr>
        \<and> list_all evq_event h)"

lemma data_evq_sync_eq:
  "data_evq_sync K s = s\<lparr>io := EvqPostread DMA_DATA_EVQ # io s,
     data_evq_ring := dma_in (evq_mem K (EvqPostread DMA_DATA_EVQ # io s) DMA_DATA_EVQ) (data_evq_ring s)\<rparr>"
  by (simp add: data_evq_sync_def softc_emit Let_def)

lemma evq_polled_refl: "data_evq_read_ptr s < 512 \<Longrightarrow> evq_polled 0 s s"
  unfolding evq_polled_def by (rule exI [of _ "[]"], rule exI [of _ "data_evq_ring s"]) simp

lemma evq_polled_trans: "evq_polled m s s' \<Longrightarrow> evq_polled n s' s'' \<Longrightarrow> evq_polled (m + n) s s''"
  unfolding evq_polled_def
proof (elim exE conjE)
  fix h q h' q'
  assume a: "s' = s\<lparr>io := h @ io s, data_evq_ring := q, data_evq_read_ptr := (data_evq_read_ptr s + m) mod 512\<rparr>"
    "list_all evq_event h" "list_all evq_event h'"
    "s'' = s'\<lparr>io := h' @ io s', data_evq_ring := q', data_evq_read_ptr := (data_evq_read_ptr s' + n) mod 512\<rparr>"
  show "\<exists>h q. s'' = s\<lparr>io := h @ io s, data_evq_ring := q, data_evq_read_ptr := (data_evq_read_ptr s + (m + n)) mod 512\<rparr>
      \<and> list_all evq_event h"
    by (rule exI [of _ "h' @ h"], rule exI [of _ q']) (simp add: a mod_add_left_eq add.assoc)
qed

lemma evq_polled_sync: "data_evq_read_ptr s < 512 \<Longrightarrow> evq_polled 0 s (data_evq_sync K s)"
  unfolding evq_polled_def data_evq_sync_eq
  by (rule exI [of _ "[EvqPostread DMA_DATA_EVQ]"], rule exI) simp

lemma evq_polled_ptr: "evq_polled n s s' \<Longrightarrow> data_evq_read_ptr s' < 512"
  by (auto simp: evq_polled_def)

lemma evq_polled_mapped: "evq_polled n s s' \<Longrightarrow> dma_mapped d s' = dma_mapped d s"
  by (auto simp: evq_polled_def dma_mapped_def)

lemma data_evq_consume_eq:
  assumes "dma_mapped DMA_DATA_EVQ s" "data_evq_read_ptr s < 512"
  shows "\<exists>s'. data_evq_consume s = Some s' \<and> evq_polled 1 s s'"
proof -
  have "evq_next (data_evq_read_ptr s) = (data_evq_read_ptr s + 1) mod 512" by (simp add: evq_ring.step_mod)
  then show ?thesis
    using assms
    by (auto simp: data_evq_consume_def softc_emit evq_polled_def
        intro!: exI [of _ "[EvqZero DMA_DATA_EVQ (data_evq_read_ptr s)]"] exI [of _ "(data_evq_ring s)(data_evq_read_ptr s := 0)"])
qed

lemma tx_poll_total:
  "dma_mapped DMA_DATA_EVQ s \<Longrightarrow> data_evq_read_ptr s < 512 \<Longrightarrow>
   \<exists>b n s'. tx_poll K tries p c s = Some (b, c + n, s') \<and> evq_polled n s s' \<and> n \<le> tries"
proof (induction tries arbitrary: c s)
  case 0
  then show ?case using evq_polled_refl by auto
next
  case (Suc tries)
  let ?s1 = "data_evq_sync K s"
  have p1: "evq_polled 0 s ?s1" using Suc.prems(2) by (rule evq_polled_sync)
  have m1: "dma_mapped DMA_DATA_EVQ ?s1" "data_evq_read_ptr ?s1 < 512"
    using evq_polled_mapped [OF p1] evq_polled_ptr [OF p1] Suc.prems by simp_all
  obtain s2 where s2: "data_evq_consume ?s1 = Some s2" "evq_polled 1 ?s1 s2"
    using data_evq_consume_eq [OF m1] by blast
  have p2: "evq_polled 1 s s2" using evq_polled_trans [OF p1 s2(2)] by simp
  obtain b1 n1 t1 where i1: "tx_poll K tries p c ?s1 = Some (b1, c + n1, t1)" "evq_polled n1 ?s1 t1" "n1 \<le> tries"
    using Suc.IH [OF m1] by blast
  obtain b2 n2 t2 where i2: "tx_poll K tries p (c + 1) s2 = Some (b2, c + 1 + n2, t2)" "evq_polled n2 s2 t2" "n2 \<le> tries"
    using Suc.IH [of s2 "c + 1"] evq_polled_mapped [OF p2] evq_polled_ptr [OF p2] Suc.prems by auto
  have q1: "evq_polled n1 s t1" and q2: "evq_polled (1 + n2) s t2"
    using evq_polled_trans [OF p1 i1(2)] evq_polled_trans [OF p2 i2(2)] by simp_all
  show ?case
    using m1 s2(1) i1 i2 p2 q1 q2
    by (auto simp: data_evq_read_def Let_def intro: exI [of _ n1] exI [of _ "Suc n2"] exI [of _ 1])
qed

lemma rx_poll_total:
  "dma_mapped DMA_DATA_EVQ s \<Longrightarrow> data_evq_read_ptr s < 512 \<Longrightarrow>
   \<exists>b n s'. rx_poll K tries c s = Some (b, c + n, s') \<and> evq_polled n s s' \<and> n \<le> tries"
proof (induction tries arbitrary: c s)
  case 0
  then show ?case using evq_polled_refl by auto
next
  case (Suc tries)
  let ?s1 = "data_evq_sync K s"
  have p1: "evq_polled 0 s ?s1" using Suc.prems(2) by (rule evq_polled_sync)
  have m1: "dma_mapped DMA_DATA_EVQ ?s1" "data_evq_read_ptr ?s1 < 512"
    using evq_polled_mapped [OF p1] evq_polled_ptr [OF p1] Suc.prems by simp_all
  obtain s2 where s2: "data_evq_consume ?s1 = Some s2" "evq_polled 1 ?s1 s2"
    using data_evq_consume_eq [OF m1] by blast
  have p2: "evq_polled 1 s s2" using evq_polled_trans [OF p1 s2(2)] by simp
  obtain b1 n1 t1 where i1: "rx_poll K tries c ?s1 = Some (b1, c + n1, t1)" "evq_polled n1 ?s1 t1" "n1 \<le> tries"
    using Suc.IH [OF m1] by blast
  obtain b2 n2 t2 where i2: "rx_poll K tries (c + 1) s2 = Some (b2, c + 1 + n2, t2)" "evq_polled n2 s2 t2" "n2 \<le> tries"
    using Suc.IH [of s2 "c + 1"] evq_polled_mapped [OF p2] evq_polled_ptr [OF p2] Suc.prems by auto
  have q1: "evq_polled n1 s t1" and q2: "evq_polled (1 + n2) s t2"
    using evq_polled_trans [OF p1 i1(2)] evq_polled_trans [OF p2 i2(2)] by simp_all
  show ?case
    using m1 s2(1) i1 i2 p2 q1 q2
    by (auto simp: data_evq_read_def Let_def intro: exI [of _ n1] exI [of _ "Suc n2"] exI [of _ 1])
qed

lemma evq_quiet: "list_all evq_event h \<Longrightarrow> list_all quiet_event h"
proof (induction h)
  case (Cons e h)
  then show ?case by (cases e) auto
qed simp

lemma evq_polled_reg_writes: "evq_polled n s s' \<Longrightarrow> reg_writes (io s') = reg_writes (io s)"
  by (auto simp: evq_polled_def quiet_append(1) [OF evq_quiet])

lemma rptr_mask: "p < 512 \<Longrightarrow> (of_nat p :: u32) AND SFC7120_EVQ_RPTR_MASK = of_nat p"
  by (rule unsigned_word_eqI [where 'a = nat])
     (simp add: mask_simps unsigned_take_bit_eq unsigned_of_nat take_bit_nat_eq_self)

definition ack_io :: "nat \<Rightarrow> nat \<Rightarrow> io list" where
  "ack_io n p = (if n > 0 then [RegWrite SFC7120_REG_DATA_EVQ_RPTR_DBL (of_nat p)] else [])"

lemma data_evq_ack_eq:
  "data_evq_read_ptr s < 512 \<Longrightarrow> data_evq_ack n s = s\<lparr>io := ack_io n (data_evq_read_ptr s) @ io s\<rparr>"
  by (simp add: data_evq_ack_def ack_io_def softc_io rptr_mask)

lemma reg_writes_ack:
  "reg_writes (ack_io n p @ h) = reg_writes h @ (if n > 0 then [(SFC7120_REG_DATA_EVQ_RPTR_DBL, of_nat p)] else [])"
  by (simp add: ack_io_def)

text \<open>The fields each data-path call may change.\<close>

definition dp_only :: "softc \<Rightarrow> softc \<Rightarrow> bool" where
  "dp_only s s' \<longleftrightarrow>
     (\<exists>h tb td th rb rd rh q p. s' = s\<lparr>io := h, tx_buffer := tb, tx_desc_ring := td, tx_head := th,
        rx_buffer := rb, rx_desc_ring := rd, rx_head := rh, data_evq_ring := q, data_evq_read_ptr := p\<rparr>)"

lemma dp_only_intro:
  assumes "s' = s\<lparr>io := h, tx_buffer := tb, tx_desc_ring := td, tx_head := th,
        rx_buffer := rb, rx_desc_ring := rd, rx_head := rh, data_evq_ring := q, data_evq_read_ptr := p\<rparr>"
  shows "dp_only s s'"
  unfolding dp_only_def using assms by blast

lemma dp_only_fields:
  assumes "dp_only s s'"
  shows "kres s' = kres s" "capio_sc s' = capio_sc s" "sc_mtx s' = sc_mtx s" "dma_mapped d s' = dma_mapped d s"
    "mem_resource s' = mem_resource s" "dma s' = dma s"
  using assms by (auto simp: dp_only_def dma_mapped_def)

lemma dp_ok_only:
  "dp_ok s \<Longrightarrow> dp_only s s' \<Longrightarrow> data_evq_read_ptr s' < 512 \<Longrightarrow> tx_head s' < 512 \<Longrightarrow> rx_head s' < 512 \<Longrightarrow> dp_ok s'"
  by (simp add: dp_ok_def dp_only_fields)

section \<open>TX\<close>

definition tx_accepted :: "cap \<Rightarrow> u64 \<Rightarrow> bool" where
  "tx_accepted buf len \<longleftrightarrow>
     cap_tag buf \<and> PERM_LOAD \<in> cap_perms buf \<and> len \<noteq> 0 \<and> unat len \<le> SFC7120_TX_BUFFER_SIZE \<and> unat len \<le> cap_len buf"

text \<open>The effect of a transmission that got past the copy: descriptor, doorbell, acknowledgement.\<close>

definition tx_effect :: "u64 \<Rightarrow> (nat \<Rightarrow> u8) \<Rightarrow> softc \<Rightarrow> nat \<Rightarrow> softc \<Rightarrow> bool" where
  "tx_effect len bytes s n s' \<longleftrightarrow>
     tx_head s' = tx_next (tx_head s)
     \<and> tx_desc_ring s' = (tx_desc_ring s)(tx_head s := ef10_desc len (tx_slot_pa (tx_head s) s))
     \<and> tx_buffer s' = mem_fill (tx_head s * SFC7120_TX_BUFFER_SIZE) (unat len) bytes (tx_buffer s)
     \<and> data_evq_read_ptr s' = (data_evq_read_ptr s + n) mod SFC7120_NUM_EVQ_ENTRY
     \<and> rx_head s' = rx_head s
     \<and> reg_writes (io s') = reg_writes (io s)
         @ (SFC7120_REG_DATA_TX_WPTR_DBL, of_nat (tx_next (tx_head s)))
         # (if n > 0 then [(SFC7120_REG_DATA_EVQ_RPTR_DBL, of_nat (data_evq_read_ptr s'))] else [])"

lemma tx_room: "tx_head s < 512 \<Longrightarrow> unat len \<le> 2048 \<Longrightarrow> tx_head s * 2048 + unat len \<le> 1048576"
  by linarith

lemma ioctl_tx_posts:
  assumes ok: "dp_ok s" and acc: "tx_accepted buf len" and cp: "copyin K (io s) buf (unat len) = (0, m, bytes)"
  shows "\<exists>b n s'. sfc7120_ioctl_tx K buf len s = Some (if b then 0 else ETIMEDOUT, TxStatus (if b then 0 else ETIMEDOUT), s')
    \<and> tx_effect len bytes s n s' \<and> dp_only s s' \<and> n \<le> 10000"
proof -
  let ?slot = "tx_head s * SFC7120_TX_BUFFER_SIZE"
  let ?d = "ef10_desc len (tx_slot_pa (tx_head s) s)"
  let ?tb = "mem_fill ?slot (unat len) bytes (tx_buffer s)"
  let ?s1 = "s\<lparr>io := RegWrite SFC7120_REG_DATA_TX_WPTR_DBL (of_nat (tx_next (tx_head s))) # TxDescStore (tx_head s) ?d # CopyIn ?slot (unat len) # io s,
               sc_mtx := MtxOwned, tx_buffer := ?tb, tx_desc_ring := (tx_desc_ring s)(tx_head s := ?d)\<rparr>"
  obtain b n s2 where p: "tx_poll K 10000 (tx_head s) 0 ?s1 = Some (b, n, s2)" "evq_polled n ?s1 s2" "n \<le> 10000"
    using tx_poll_total [of ?s1 K 10000 "tx_head s" 0] ok by (auto simp: dp_ok_def dma_mapped_def)
  obtain h q where s2: "s2 = ?s1\<lparr>io := h @ io ?s1, data_evq_ring := q, data_evq_read_ptr := (data_evq_read_ptr ?s1 + n) mod 512\<rparr>"
      "list_all evq_event h"
    using p(2) by (auto simp: evq_polled_def)
  let ?s3 = "(data_evq_ack n s2)\<lparr>tx_head := tx_next (tx_head s)\<rparr>"
  let ?s' = "?s3\<lparr>sc_mtx := MtxFree\<rparr>"
  have head: "tx_head s2 = tx_head s" using s2(1) by simp
  let ?sL = "s\<lparr>sc_mtx := MtxOwned\<rparr>"
  have room: "tx_head s * 2048 + unat len \<le> 1048576"
    using ok acc tx_room [of s len] by (simp add: dp_ok_def tx_accepted_def)
  have L: "SFC7120_LOCK s = Some ?sL" using ok by (simp add: dp_ok_def)
  have C: "tx_copyin K buf ?slot (unat len) ?sL = Some (0, ?sL\<lparr>io := CopyIn ?slot (unat len) # io s, tx_buffer := ?tb\<rparr>)"
    using ok room cp by (simp add: tx_copyin_def dp_ok_def dma_mapped_def softc_io)
  have D: "tx_desc_write (tx_head s) ?d (?sL\<lparr>io := CopyIn ?slot (unat len) # io s, tx_buffer := ?tb\<rparr>) =
      Some (?sL\<lparr>io := TxDescStore (tx_head s) ?d # CopyIn ?slot (unat len) # io s, tx_buffer := ?tb, tx_desc_ring := (tx_desc_ring s)(tx_head s := ?d)\<rparr>)"
    using ok by (simp add: tx_desc_write_def dp_ok_def dma_mapped_def softc_io)
  have W: "SFC7120_WRITE_REG SFC7120_REG_DATA_TX_WPTR_DBL (of_nat (tx_next (tx_head s)))
      (?sL\<lparr>io := TxDescStore (tx_head s) ?d # CopyIn ?slot (unat len) # io s, tx_buffer := ?tb, tx_desc_ring := (tx_desc_ring s)(tx_head s := ?d)\<rparr>) = ?s1"
    by (simp add: softc_io)
  have U: "SFC7120_UNLOCK ?s3 = Some ?s'" by (simp add: data_evq_ack_eq s2(1))
  have pa: "tx_slot_pa i ?sL = tx_slot_pa i s" for i by (simp add: tx_slot_pa_def)
  have acc': "cap_tag buf" "PERM_LOAD \<in> cap_perms buf" "\<not> (len = 0 \<or> SFC7120_TX_BUFFER_SIZE < unat len)" "\<not> cap_len buf < unat len"
    using acc by (auto simp: tx_accepted_def)
  have heads: "tx_head ?sL = tx_head s" "tx_head (?sL\<lparr>io := hh, tx_buffer := tt\<rparr>) = tx_head s"
      "tx_head (?sL\<lparr>io := hh, tx_buffer := tt, tx_desc_ring := dd\<rparr>) = tx_head s" "tx_head (data_evq_ack n s2) = tx_head s" for hh tt dd
    by (simp_all add: data_evq_ack_eq s2(1))
  have run: "sfc7120_ioctl_tx K buf len s = Some (if b then 0 else ETIMEDOUT, TxStatus (if b then 0 else ETIMEDOUT), ?s')"
    unfolding sfc7120_ioctl_tx_def
    by (simp only: acc' L C D W U pa heads p(1) Let_def bind.bind_lunit prod.case not_True_eq_False not_False_eq_True if_False if_True simp_thms)
  have only: "dp_only s ?s'"
    by (rule dp_only_intro [where h = "io ?s'" and tb = ?tb and td = "(tx_desc_ring s)(tx_head s := ?d)" and th = "tx_next (tx_head s)"
          and rb = "rx_buffer s" and rd = "rx_desc_ring s" and rh = "rx_head s" and q = q and p = "(data_evq_read_ptr s + n) mod 512"])
       (use ok in \<open>simp add: data_evq_ack_eq s2(1) dp_ok_def\<close>)
  have eff: "tx_effect len bytes s n ?s'"
    using quiet_append(1) [OF evq_quiet [OF s2(2)]]
    by (auto simp: tx_effect_def data_evq_ack_eq s2(1) reg_writes_ack)
  show ?thesis using run only eff p(3) by blast
qed

text \<open>The loop reports success exactly when it ends by consuming a transmit completion of the posted
  slot; otherwise it has used up its tries.\<close>

lemma tx_poll_True:
  "tx_poll K tries idx c s = Some (True, n, s') \<Longrightarrow>
   \<exists>t ev. data_evq_read t = Some ev \<and> \<not> no_event ev \<and> ev_code ev = 2 \<and> tx_comp_idx ev = idx \<and> data_evq_consume t = Some s'"
proof (induction tries arbitrary: c s)
  case (Suc tries)
  let ?t = "data_evq_sync K s"
  from Suc.prems obtain ev where ev: "data_evq_read ?t = Some ev" by (auto simp: Let_def bind_eq_Some_conv)
  show ?case
  proof (cases "no_event ev")
    case True
    from Suc.prems have "tx_poll K tries idx c ?t = Some (True, n, s')" by (simp add: Let_def ev True)
    then show ?thesis by (rule Suc.IH)
  next
    case False
    from Suc.prems obtain u where u: "data_evq_consume ?t = Some u"
        "(if ev_code ev = 2 \<and> tx_comp_idx ev = idx then Some (True, c + 1, u) else tx_poll K tries idx (c + 1) u) = Some (True, n, s')"
      by (auto simp: Let_def bind_eq_Some_conv ev False)
    show ?thesis
    proof (cases "ev_code ev = 2 \<and> tx_comp_idx ev = idx")
      case True
      with u False ev show ?thesis by auto
    next
      case no: False
      from u(2) have "tx_poll K tries idx (c + 1) u = Some (True, n, s')" unfolding if_not_P [OF no] .
      then show ?thesis by (rule Suc.IH)
    qed
  qed
qed simp

text \<open>Every call that is not accepted, or whose copy fails, leaves the rings and indices alone.\<close>

lemma ioctl_tx_refused:
  assumes "\<not> tx_accepted buf len"
  shows "\<exists>e. sfc7120_ioctl_tx K buf len s = Some (e, NoReply, s) \<and> e \<in> {EINVAL, EPERM}"
  using assms by (auto simp: sfc7120_ioctl_tx_def tx_accepted_def not_le)

lemma dp_only_refl: "dp_only s s"
  by (rule dp_only_intro [where h = "io s" and tb = "tx_buffer s" and td = "tx_desc_ring s" and th = "tx_head s"
        and rb = "rx_buffer s" and rd = "rx_desc_ring s" and rh = "rx_head s" and q = "data_evq_ring s" and p = "data_evq_read_ptr s"]) simp

lemma ioctl_tx_copy_fails:
  assumes ok: "dp_ok s" and acc: "tx_accepted buf len" and cp: "copyin K (io s) buf (unat len) = (e, m, bytes)" "e \<noteq> 0"
  shows "\<exists>s'. sfc7120_ioctl_tx K buf len s = Some (e, NoReply, s') \<and> dp_only s s'
    \<and> tx_head s' = tx_head s \<and> rx_head s' = rx_head s \<and> data_evq_read_ptr s' = data_evq_read_ptr s \<and> tx_desc_ring s' = tx_desc_ring s
    \<and> reg_writes (io s') = reg_writes (io s)"
proof -
  let ?slot = "tx_head s * SFC7120_TX_BUFFER_SIZE"
  let ?tb = "mem_fill ?slot (min m (unat len)) bytes (tx_buffer s)"
  let ?s' = "s\<lparr>io := CopyIn ?slot (unat len) # io s, tx_buffer := ?tb\<rparr>"
  have room: "?slot + unat len \<le> 1048576"
    using ok acc tx_room [of s len] by (simp add: dp_ok_def tx_accepted_def)
  have "sfc7120_ioctl_tx K buf len s = Some (e, NoReply, ?s')"
    using ok acc cp room
    by (simp add: sfc7120_ioctl_tx_def tx_copyin_def dp_ok_def tx_accepted_def dma_mapped_def softc_io not_less)
  moreover have "dp_only s ?s'"
    by (rule dp_only_intro [where h = "io ?s'" and tb = ?tb and td = "tx_desc_ring s" and th = "tx_head s"
          and rb = "rx_buffer s" and rd = "rx_desc_ring s" and rh = "rx_head s" and q = "data_evq_ring s" and p = "data_evq_read_ptr s"]) simp
  ultimately show ?thesis by auto
qed

section \<open>RX\<close>

definition rx_effect :: "softc \<Rightarrow> nat \<Rightarrow> softc \<Rightarrow> bool" where
  "rx_effect s n s' \<longleftrightarrow>
     rx_head s' = rx_next (rx_head s) \<and> tx_head s' = tx_head s
     \<and> rx_desc_ring s' = (rx_desc_ring s)(rx_head s := ef10_desc (of_nat SFC7120_RX_BUFFER_SIZE) (rx_slot_pa (rx_head s) s))
     \<and> data_evq_read_ptr s' = (data_evq_read_ptr s + n) mod SFC7120_NUM_EVQ_ENTRY
     \<and> reg_writes (io s') = reg_writes (io s)
         @ (if n > 0 then [(SFC7120_REG_DATA_EVQ_RPTR_DBL, of_nat (data_evq_read_ptr s'))] else [])
         @ [(SFC7120_REG_DATA_RX_DESC_DBL, of_nat (rx_head s))]"

definition rx_outcome :: "softc \<Rightarrow> nat \<Rightarrow> int \<Rightarrow> sfc_reply \<Rightarrow> softc \<Rightarrow> bool" where
  "rx_outcome s n e r s' \<longleftrightarrow>
     dp_only s s' \<and> n \<le> 100000 \<and>
     (if e = 0
      then rx_effect s n s' \<and> (\<exists>plen. r = RxLength plen \<and> CopyOut (rx_head s * SFC7120_RX_BUFFER_SIZE + 14) (unat plen) \<in> set (io s'))
      else r = NoReply \<and> rx_head s' = rx_head s \<and> tx_head s' = tx_head s \<and> rx_desc_ring s' = rx_desc_ring s
        \<and> data_evq_read_ptr s' = (data_evq_read_ptr s + n) mod SFC7120_NUM_EVQ_ENTRY)"

lemma rx_buf_sync_eq:
  "rx_buf_sync K s = s\<lparr>io := RxBufPostread # io s, rx_buffer := dma_in (rxb_mem K (RxBufPostread # io s)) (rx_buffer s)\<rparr>"
  by (simp add: rx_buf_sync_def softc_emit Let_def)

lemma rx_room: "rx_head s < 512 \<Longrightarrow> rx_head s * 2048 + 9 < 1048576"
  by linarith

lemma ioctl_rx_total:
  assumes ok: "dp_ok s"
  shows "\<exists>n e r s'. sfc7120_ioctl_rx K s = Some (e, r, s') \<and> rx_outcome s n e r s'"
proof -
  let ?sL = "s\<lparr>sc_mtx := MtxOwned\<rparr>"
  have L: "SFC7120_LOCK s = Some ?sL" using ok by (simp add: dp_ok_def)
  obtain b n s2 where p: "rx_poll K 100000 0 ?sL = Some (b, n, s2)" "evq_polled n ?sL s2" "n \<le> 100000"
    using rx_poll_total [of ?sL K 100000 0] ok by (auto simp: dp_ok_def dma_mapped_def)
  obtain h q where s2: "s2 = ?sL\<lparr>io := h @ io ?sL, data_evq_ring := q, data_evq_read_ptr := (data_evq_read_ptr ?sL + n) mod 512\<rparr>"
      "list_all evq_event h"
    using p(2) by (auto simp: evq_polled_def)
  let ?p = "(data_evq_read_ptr s + n) mod 512"
  let ?h3 = "ack_io n ?p @ h @ io s"
  let ?s3 = "s\<lparr>io := ?h3, sc_mtx := MtxOwned, data_evq_ring := q, data_evq_read_ptr := ?p\<rparr>"
  have A: "data_evq_ack n s2 = ?s3" by (simp add: data_evq_ack_eq s2(1))
  have rw: "reg_writes ?h3 = reg_writes (io s) @ (if n > 0 then [(SFC7120_REG_DATA_EVQ_RPTR_DBL, of_nat ?p)] else [])"
    using quiet_append(1) [OF evq_quiet [OF s2(2)]] by (simp add: reg_writes_ack)
  have only: "dp_only s (s\<lparr>io := g, rx_buffer := rb, rx_desc_ring := rd, rx_head := rh, data_evq_ring := q, data_evq_read_ptr := ?p\<rparr>)"
    for g rb rd rh
    by (rule dp_only_intro [where h = g and tb = "tx_buffer s" and td = "tx_desc_ring s" and th = "tx_head s"
          and rb = rb and rd = rd and rh = rh and q = q and p = ?p]) simp
  have only0: "dp_only s (s\<lparr>io := g, data_evq_ring := q, data_evq_read_ptr := ?p\<rparr>)"
      "dp_only s (s\<lparr>io := g, rx_buffer := rb, data_evq_ring := q, data_evq_read_ptr := ?p\<rparr>)" for g rb
    using only [where g = g and rb = "rx_buffer s" and rd = "rx_desc_ring s" and rh = "rx_head s"]
      only [where g = g and rb = rb and rd = "rx_desc_ring s" and rh = "rx_head s"] by simp_all
  show ?thesis
  proof (cases b)
    case None
    let ?s' = "s\<lparr>io := ?h3, rx_buffer := rx_buffer s, rx_desc_ring := rx_desc_ring s, rx_head := rx_head s, data_evq_ring := q, data_evq_read_ptr := ?p\<rparr>"
    have "sfc7120_ioctl_rx K s = Some (ETIMEDOUT, NoReply, ?s')"
      using ok by (simp add: sfc7120_ioctl_rx_def L p(1) A None dp_ok_def)
    then show ?thesis using only0 p(3) by (auto simp: rx_outcome_def intro!: exI [of _ n])
  next
    case (Some rx_bytes)
    let ?slot = "rx_head s * SFC7120_RX_BUFFER_SIZE"
    let ?rb = "dma_in (rxb_mem K (RxBufPostread # ?h3)) (rx_buffer s)"
    let ?s4 = "s\<lparr>io := RxBufPostread # ?h3, sc_mtx := MtxOwned, rx_buffer := ?rb, data_evq_ring := q, data_evq_read_ptr := ?p\<rparr>"
    have B: "rx_buf_sync K ?s3 = ?s4" by (simp add: rx_buf_sync_eq)
    have R: "rx_buf_read (?slot + 8) ?s4 = Some (?rb (?slot + 8))" "rx_buf_read (?slot + 9) ?s4 = Some (?rb (?slot + 9))"
      using ok rx_room [of s] by (simp_all add: rx_buf_read_def dp_ok_def dma_mapped_def)
    define plen where "plen = rx_frame_len (?rb (?slot + 8)) (?rb (?slot + 9)) rx_bytes"
    define ce where "ce = copyout K (RxBufPostread # ?h3) (?slot + 14) (unat plen)"
    let ?h5 = "CopyOut (?slot + 14) (unat plen) # RxBufPostread # ?h3"
    let ?d = "ef10_desc (of_nat SFC7120_RX_BUFFER_SIZE) (rx_slot_pa (rx_head s) s)"
    let ?t = "\<lambda>g rd rh. s\<lparr>io := g, rx_buffer := ?rb, rx_desc_ring := rd, rx_head := rh, data_evq_ring := q, data_evq_read_ptr := ?p\<rparr>"
    have head: "rx_head ?s3 = rx_head s" by simp
    have run: "sfc7120_ioctl_rx K s =
        (if ce \<noteq> 0 then Some (ce, NoReply, ?t ?h5 (rx_desc_ring s) (rx_head s))
         else Some (0, RxLength plen, ?t (RegWrite SFC7120_REG_RX_DESC_DBL (of_nat (rx_head s)) # RxDescStore (rx_head s) ?d # ?h5)
                ((rx_desc_ring s)(rx_head s := ?d)) (rx_next (rx_head s))))"
      unfolding sfc7120_ioctl_rx_def L p(1) A Some Let_def option.case prod.case bind.bind_lunit head B R plen_def [symmetric]
      using ok by (simp add: softc_io ce_def [symmetric] rx_desc_write_def dp_ok_def dma_mapped_def rx_slot_pa_def)
    show ?thesis
      using run only only0 p(3) rw by (cases "ce = 0") (auto simp: rx_outcome_def rx_effect_def intro!: exI [of _ n])
  qed
qed

section \<open>The driver keeps the CAPIO contract\<close>

lemma dp_ok_upd:
  "dp_ok s \<Longrightarrow> p < 512 \<Longrightarrow> t < 512 \<Longrightarrow> r < 512 \<Longrightarrow> dp_ok (s\<lparr>data_evq_read_ptr := p, tx_head := t, rx_head := r\<rparr>)"
  by (simp add: dp_ok_def dma_mapped_def)

lemma dp_ok_locked: "dp_ok s \<Longrightarrow> s\<lparr>sc_mtx := MtxFree\<rparr> = s"
  by (simp add: dp_ok_def)

lemma dp_ok_free: "dp_ok s \<Longrightarrow> sc_mtx s = MtxFree"
  by (simp add: dp_ok_def)

lemma ioctl_tx_total:
  assumes "dp_ok s"
  shows "\<exists>e r s'. sfc7120_ioctl_tx K buf len s = Some (e, r, s') \<and> dp_ok s' \<and> dp_only s s'"
proof (cases "tx_accepted buf len")
  case False
  then show ?thesis using ioctl_tx_refused [of buf len K s] assms dp_only_refl [of s] by auto
next
  case True
  obtain e m bytes where cp: "copyin K (io s) buf (unat len) = (e, m, bytes)" using prod_cases3 by blast
  have b: "data_evq_read_ptr s < 512" "tx_head s < 512" "rx_head s < 512" using assms by (auto simp: dp_ok_def)
  show ?thesis
  proof (cases "e = 0")
    case True
    with ioctl_tx_posts [OF assms \<open>tx_accepted buf len\<close>, of K m bytes] cp obtain e' r n s' where
      s': "sfc7120_ioctl_tx K buf len s = Some (e', r, s')" "tx_effect len bytes s n s'" "dp_only s s'" by blast
    then have "data_evq_read_ptr s' < 512" "tx_head s' < 512" "rx_head s' < 512"
      using b by (simp_all add: tx_effect_def)
    with s' dp_ok_only [OF assms s'(3)] show ?thesis by blast
  next
    case False
    with ioctl_tx_copy_fails [OF assms \<open>tx_accepted buf len\<close> cp] obtain s' where
      s': "sfc7120_ioctl_tx K buf len s = Some (e, NoReply, s')" "dp_only s s'" "tx_head s' = tx_head s" "rx_head s' = rx_head s"
        "data_evq_read_ptr s' = data_evq_read_ptr s" by blast
    with b dp_ok_only [OF assms s'(2)] show ?thesis by auto
  qed
qed

lemma ioctl_rx_total':
  assumes "dp_ok s"
  shows "\<exists>e r s'. sfc7120_ioctl_rx K s = Some (e, r, s') \<and> dp_ok s' \<and> dp_only s s'"
proof -
  obtain n e r s' where s': "sfc7120_ioctl_rx K s = Some (e, r, s')" "rx_outcome s n e r s'"
    using ioctl_rx_total [OF assms] by blast
  have b: "tx_head s < 512" "rx_head s < 512" using assms by (auto simp: dp_ok_def)
  have o: "dp_only s s'" using s'(2) by (simp add: rx_outcome_def)
  have "data_evq_read_ptr s' < 512" "tx_head s' < 512" "rx_head s' < 512"
    using s'(2) b by (auto simp: rx_outcome_def rx_effect_def split: if_splits)
  with s'(1) dp_ok_only [OF assms o] o show ?thesis by blast
qed

lemma ioctl_set_total:
  assumes "dp_ok s"
  shows "\<exists>e r s'. sfc7120_ioctl K (SFC7120_SET_EVQ_RPTR rptr tx rx) s = Some (e, r, s') \<and> dp_ok s' \<and> dp_only s s'"
proof (cases "unat rptr \<ge> 512 \<or> unat tx \<ge> 512 \<or> unat rx \<ge> 512")
  case True
  with assms dp_only_refl [of s] show ?thesis by (auto simp: sfc7120_ioctl_def)
next
  case False
  let ?s' = "s\<lparr>data_evq_read_ptr := unat rptr, tx_head := unat tx, rx_head := unat rx\<rparr>"
  have "sc_mtx s = MtxFree" using assms by (simp add: dp_ok_def)
  then have run: "sfc7120_ioctl K (SFC7120_SET_EVQ_RPTR rptr tx rx) s = Some (0, NoReply, ?s')"
    using False by (simp add: sfc7120_ioctl_def)
  have only: "dp_only s ?s'"
    by (rule dp_only_intro [where h = "io s" and tb = "tx_buffer s" and td = "tx_desc_ring s" and th = "unat tx"
          and rb = "rx_buffer s" and rd = "rx_desc_ring s" and rh = "unat rx" and q = "data_evq_ring s" and p = "unat rptr"]) simp
  show ?thesis using run only dp_ok_upd [OF assms, of "unat rptr" "unat tx" "unat rx"] False by auto
qed

lemma sfc7120_ioctl_total:
  assumes "dp_ok s"
  shows "\<exists>e r s'. sfc7120_ioctl K req s = Some (e, r, s') \<and> dp_ok s' \<and> dp_only s s'"
proof (cases req)
  case (SFC7120_SET_EVQ_RPTR rptr tx rx)
  with ioctl_set_total [OF assms] show ?thesis by simp
next
  case (SFC7120_TX buf len)
  with ioctl_tx_total [OF assms] show ?thesis by (simp add: sfc7120_ioctl_def)
next
  case SFC7120_RX
  with ioctl_rx_total' [OF assms] show ?thesis by (simp add: sfc7120_ioctl_def)
qed (use assms dp_only_refl [of s] in \<open>simp_all add: sfc7120_ioctl_def dp_ok_free [OF assms] dp_ok_locked [OF assms]\<close>)

lemma is_dying_eq: "dp_ok s \<Longrightarrow> sfc7120_is_dying s = Some (dying s, s)"
  by (simp add: sfc7120_is_dying_def dp_ok_def)

definition region_size :: "int \<Rightarrow> softc \<Rightarrow> u64" where
  "region_size ty s =
     (if ty = 0 \<or> ty = 1 then 0x100000 else if ty = 2 then snd (the (mem_resource s))
      else if ty = 3 \<or> ty = 4 \<or> ty = 5 then 0x1000 else 0)"

lemma get_buffer_size_eq: "dp_ok s \<Longrightarrow> sfc7120_get_buffer_size ty s = Some (region_size ty s, s)"
  by (auto simp: sfc7120_get_buffer_size_def dp_ok_def region_size_def)

interpretation sfc: capio_driver "sfc7120_capio_ops K" dp_ok for K
proof (unfold_locales, goal_cases)
  case (1 s r)
  then show ?case using sfc7120_ioctl_total [of s K r] dp_only_fields(2) by (fastforce simp: sfc7120_capio_ops_def)
next
  case (2 s)
  then show ?case by (simp add: sfc7120_capio_ops_def is_dying_eq)
next
  case (3 s ty)
  then show ?case by (simp add: sfc7120_capio_ops_def get_buffer_size_eq)
next
  case (4 s h R c)
  then show ?case by (simp add: dp_ok_def dma_mapped_def)
qed

section \<open>Properties\<close>

lemma live_dp_ok: "dp_ok live_softc"
  by (simp add: dp_ok_def live_softc_fields)

text \<open>C8 An accepted transmission whose bytes could be copied posts exactly one packet, whatever the NIC
  does: the slot holds the caller's bytes, the ring's entry at \<open>tx_head\<close> describes it, the write-pointer doorbell
  is rung with the next index, the events consumed meanwhile (at most 10000) are acknowledged, \<open>tx_head\<close> advances,
  and the call reports success or \<open>ETIMEDOUT\<close>.  Nothing outside the data path changes.\<close>

theorem tx_posts_one_packet:
  assumes "dp_ok s" "tx_accepted buf len" "copyin K (io s) buf (unat len) = (0, m, bytes)"
  shows "\<exists>b n s'. sfc7120_ioctl K (SFC7120_TX buf len) s = Some (if b then 0 else ETIMEDOUT, TxStatus (if b then 0 else ETIMEDOUT), s')
    \<and> tx_effect len bytes s n s' \<and> dp_only s s' \<and> n \<le> 10000 \<and> dp_ok s'"
proof -
  obtain b n s' where s': "sfc7120_ioctl_tx K buf len s = Some (if b then 0 else ETIMEDOUT, TxStatus (if b then 0 else ETIMEDOUT), s')"
      "tx_effect len bytes s n s'" "dp_only s s'" "n \<le> 10000"
    using ioctl_tx_posts [OF assms] by blast
  moreover have "dp_ok s'" using ioctl_tx_total [OF assms(1), of K buf len] s'(1) by auto
  ultimately show ?thesis by (auto simp: sfc7120_ioctl_def)
qed

definition ex_packet :: cap where
  "ex_packet = \<lparr>cap_tag = True, cap_base = 0x1000, cap_len = 64, cap_addr = 0x1000, cap_perms = {PERM_LOAD}, cap_otype = 0\<rparr>"

lemma ex_packet_accepted: "tx_accepted ex_packet 60"
  by (simp add: tx_accepted_def ex_packet_def)

theorem tx_posts_one_packet_witness:
  "\<exists>b n s'. sfc7120_ioctl quiet_env (SFC7120_TX ex_packet 60) live_softc
       = Some (if b then 0 else ETIMEDOUT, TxStatus (if b then 0 else ETIMEDOUT), s')
    \<and> tx_effect 60 (\<lambda>_. 0) live_softc n s' \<and> dp_only live_softc s' \<and> n \<le> 10000 \<and> dp_ok s'"
  by (rule tx_posts_one_packet [OF live_dp_ok ex_packet_accepted]) (simp add: quiet_env_def)

text \<open>A transmission that is not accepted (no tag, no load permission, length 0, more than a slot or more
  than the capability covers) is refused with \<open>EINVAL\<close> or \<open>EPERM\<close> and changes nothing; one whose copy faults
  returns the fault, posts nothing and rings no doorbell.\<close>

theorem tx_refused_or_faulted:
  assumes "dp_ok s" "copyin K (io s) buf (unat len) = (e, m, bytes)" "tx_accepted buf len \<longrightarrow> e \<noteq> 0"
  shows "\<exists>err s'. sfc7120_ioctl K (SFC7120_TX buf len) s = Some (err, NoReply, s')
    \<and> (if tx_accepted buf len
       then err = e \<and> tx_head s' = tx_head s \<and> rx_head s' = rx_head s \<and> data_evq_read_ptr s' = data_evq_read_ptr s
         \<and> tx_desc_ring s' = tx_desc_ring s \<and> reg_writes (io s') = reg_writes (io s)
       else s' = s \<and> err \<in> {EINVAL, EPERM})"
proof (cases "tx_accepted buf len")
  case True
  with assms(3) have "e \<noteq> 0" by simp
  from ioctl_tx_copy_fails [OF assms(1) True assms(2) this] True show ?thesis by (auto simp: sfc7120_ioctl_def)
next
  case False
  from ioctl_tx_refused [OF this, of K s] False show ?thesis by (auto simp: sfc7120_ioctl_def)
qed

theorem tx_refused_or_faulted_witness:
  "\<exists>err s'. sfc7120_ioctl quiet_env (SFC7120_TX ex_packet 65) live_softc = Some (err, NoReply, s') \<and> s' = live_softc \<and> err \<in> {EINVAL, EPERM}"
proof -
  have "\<not> tx_accepted ex_packet 65" by (simp add: tx_accepted_def ex_packet_def)
  then show ?thesis
    using tx_refused_or_faulted [OF live_dp_ok, of quiet_env ex_packet 65 0 65 "\<lambda>_. 0"] by (simp add: quiet_env_def)
qed

text \<open>The transmit poll reports completion only when it has just consumed a transmit event of the
  posted slot, so stale completions of earlier packets do not end the call.\<close>

theorem tx_poll_sound:
  assumes "tx_poll K tries idx c s = Some (True, n, s')"
  shows "\<exists>t ev. data_evq_read t = Some ev \<and> \<not> no_event ev \<and> ev_code ev = 2 \<and> tx_comp_idx ev = idx \<and> data_evq_consume t = Some s'"
  by (rule tx_poll_True [OF assms])

definition ex_tx_event :: u64 where
  "ex_tx_event = 0x2000000000000000"

lemma quiet_evq_sync: "data_evq_sync quiet_env s = s\<lparr>io := EvqPostread DMA_DATA_EVQ # io s\<rparr>"
proof -
  have "dma_in (evq_mem quiet_env h d) r = r" for h d r by (rule ext) (simp add: dma_in_def quiet_env_def)
  then show ?thesis by (simp add: data_evq_sync_eq)
qed

theorem tx_poll_sound_witness:
  "\<exists>s' t ev. tx_poll quiet_env 1 0 0 (live_softc\<lparr>data_evq_ring := (\<lambda>_. 0)(0 := ex_tx_event)\<rparr>) = Some (True, 1, s')
     \<and> data_evq_read t = Some ev \<and> \<not> no_event ev \<and> ev_code ev = 2 \<and> tx_comp_idx ev = 0 \<and> data_evq_consume t = Some s'"
proof -
  let ?s = "live_softc\<lparr>data_evq_ring := (\<lambda>_. 0)(0 := ex_tx_event)\<rparr>"
  have "\<exists>s'. tx_poll quiet_env 1 0 0 ?s = Some (True, 1, s')"
    by (simp add: quiet_evq_sync data_evq_read_def data_evq_consume_def live_softc_fields dma_mapped_def
        no_event_def ev_code_def tx_comp_idx_def ex_tx_event_def softc_emit Let_def)
  then show ?thesis using tx_poll_sound by blast
qed



text \<open>C36 The length in a frame's prefix is not checked against the buffer: there are states and frames for
  which a successful receive copies 65535 bytes from the last slot, far past the end of the 1 MB buffer.\<close>

theorem rx_copies_past_buffer:
  "\<exists>s r s'. dp_ok s \<and> sfc7120_ioctl quiet_env SFC7120_RX s = Some (0, r, s')
     \<and> (\<exists>src len. CopyOut src len \<in> set (io s') \<and> SFC7120_NUM_RX_DESC * SFC7120_RX_BUFFER_SIZE < src + len)"
proof -
  let ?s = "live_softc\<lparr>rx_head := 511, data_evq_ring := (\<lambda>_. 0)(0 := 64), rx_buffer := (\<lambda>_. 0xff)\<rparr>"
  have poll: "rx_poll quiet_env n 0 t = Some (Some 64, 1, t\<lparr>io := EvqZero DMA_DATA_EVQ 0 # EvqPostread DMA_DATA_EVQ # io t,
      data_evq_ring := (data_evq_ring t)(0 := 0), data_evq_read_ptr := 1\<rparr>)"
    if "0 < n" "dma_mapped DMA_DATA_EVQ t" "data_evq_read_ptr t = 0" "data_evq_ring t 0 = 64" for n t
    using that
    by (cases n) (simp_all add: quiet_evq_sync data_evq_read_def data_evq_consume_def dma_mapped_def no_event_def ev_code_def
        softc_emit evq_next_def Let_def)
  have in0: "dma_in (rxb_mem quiet_env h) b = b" for h b by (rule ext) (simp add: dma_in_def quiet_env_def)
  have cp: "copyout quiet_env h a n = 0" for h a n by (simp add: quiet_env_def)
  have "dp_ok ?s" using live_dp_ok by (simp add: dp_ok_def dma_mapped_def)
  moreover have "\<exists>r s'. sfc7120_ioctl quiet_env SFC7120_RX ?s = Some (0, r, s') \<and> CopyOut 1046542 65535 \<in> set (io s')"
    by (simp add: sfc7120_ioctl_def sfc7120_ioctl_rx_def poll live_softc_fields dma_mapped_def data_evq_ack_eq rx_buf_sync_eq in0
        rx_buf_read_def rx_frame_len_def le16_def rx_desc_write_def softc_io cp Let_def)
  moreover have "SFC7120_NUM_RX_DESC * SFC7120_RX_BUFFER_SIZE < (1046542::nat) + 65535" by simp
  ultimately show ?thesis by blast
qed

text \<open>The indices a client hands back with \<open>SFC7120_SET_EVQ_RPTR\<close> are the ones the next
  \<open>SFC7120_GET_VI_INFO\<close> reports; any index outside its ring is refused with \<open>EINVAL\<close> and changes nothing.\<close>

theorem index_round_trip:
  assumes "dp_ok s"
  shows "if unat rptr < SFC7120_NUM_EVQ_ENTRY \<and> unat tx < SFC7120_NUM_TX_DESC \<and> unat rx < SFC7120_NUM_RX_DESC
    then \<exists>s' v. sfc7120_ioctl K (SFC7120_SET_EVQ_RPTR rptr tx rx) s = Some (0, NoReply, s')
      \<and> sfc7120_ioctl K SFC7120_GET_VI_INFO s' = Some (0, ViReply v, s')
      \<and> vi_evq_read_ptr v = rptr \<and> vi_tx_head v = tx \<and> vi_rx_head v = rx
    else sfc7120_ioctl K (SFC7120_SET_EVQ_RPTR rptr tx rx) s = Some (EINVAL, NoReply, s)"
proof (cases "unat rptr < 512 \<and> unat tx < 512 \<and> unat rx < 512")
  case True
  have "sc_mtx s = MtxFree" using assms by (simp add: dp_ok_def)
  then show ?thesis using True by (simp add: sfc7120_ioctl_def)
next
  case False
  then show ?thesis by (auto simp: sfc7120_ioctl_def not_less)
qed

theorem index_round_trip_witness:
  "\<exists>s' v. sfc7120_ioctl quiet_env (SFC7120_SET_EVQ_RPTR 5 6 511) live_softc = Some (0, NoReply, s')
      \<and> sfc7120_ioctl quiet_env SFC7120_GET_VI_INFO s' = Some (0, ViReply v, s')
      \<and> vi_evq_read_ptr v = 5 \<and> vi_tx_head v = 6 \<and> vi_rx_head v = 511"
  using index_round_trip [OF live_dp_ok, of 5 6 511 quiet_env] by simp

text \<open>A descriptor carries its byte count in bits 61 to 48 and its 48-bit bus address below, and nothing else:
  both are recovered exactly for every count up to 16383 and every 48-bit address, and the top two bits are clear.\<close>

theorem descriptor_round_trip:
  "drop_bit 48 (ef10_desc len paddr) = take_bit 14 len \<and> take_bit 48 (ef10_desc len paddr) = take_bit 48 paddr"
  by (auto simp: ef10_desc_def mask_simps bit_eq_iff bit_simps)

end
