(* ===== verification/Intr.thy ===== *)
theory Intr
  imports Datapath
begin

text \<open>
  Interrupts of \<open>sfc7120.c\<close>: the handler of the control event queue (EVQ 0), the receive task, and
  the setup and teardown of the single MSI-X vector.  The handler is compared with a specification
  that takes the run of events pending in the ring and folds the link changes over the softc; setup
  and teardown are shown to hold all four kernel resources of the vector or none.
\<close>

section \<open>The control event queue\<close>

definition sfc7120_linkchange_speed_mbps :: "u32 \<Rightarrow> u32" where
  "sfc7120_linkchange_speed_mbps code =
     (if code = 1 then 100 else if code = 2 then 1000 else if code = 3 then 10000
      else if code = 4 then 40000 else if code = 5 then 25000 else if code = 6 then 50000
      else if code = 7 then 100000 else 0)"

definition evq_sync :: "env \<Rightarrow> softc \<Rightarrow> softc" where
  "evq_sync K s =
     (let s = emit (EvqPostread DMA_EVQ) s
      in s\<lparr>evq_ring := dma_in (evq_mem K (io s) DMA_EVQ) (evq_ring s)\<rparr>)"

definition evq_read :: "softc \<Rightarrow> u64 option" where
  "evq_read s =
     (if dma_mapped DMA_EVQ s \<and> evq_read_ptr s < SFC7120_NUM_EVQ_ENTRY
      then Some (evq_ring s (evq_read_ptr s)) else None)"

definition evq_consume :: "softc \<Rightarrow> softc option" where
  "evq_consume s =
     (if dma_mapped DMA_EVQ s \<and> evq_read_ptr s < SFC7120_NUM_EVQ_ENTRY
      then Some ((emit (EvqZero DMA_EVQ (evq_read_ptr s)) s)
                   \<lparr>evq_ring := (evq_ring s)(evq_read_ptr s := 0), evq_read_ptr := evq_next (evq_read_ptr s)\<rparr>)
      else None)"

text \<open>The switch on the event code: only an MCDI \<open>LINKCHANGE\<close> changes the softc.\<close>

definition control_event :: "u64 \<Rightarrow> softc \<Rightarrow> softc" where
  "control_event ev s =
     (let lo = (ucast (ev AND 0xffffffff) :: u32);
          hi = (ucast (drop_bit 32 ev) :: u32);
          code = drop_bit 28 hi AND 0xf
      in if code = 12 then
           let mcdi_code = drop_bit 12 hi AND 0xff
           in if mcdi_code = 4 then
                let flags = drop_bit 24 lo AND 0xff;
                    scode = drop_bit 16 lo AND 0xf;
                    fcntl = drop_bit 20 lo AND 0xf
                in s\<lparr>link_up := flags AND 1 \<noteq> 0, full_duplex := flags AND 2 \<noteq> 0,
                     link_speed_mbps := sfc7120_linkchange_speed_mbps scode, link_fcntl := fcntl\<rparr>
              else s
         else s)"

function intr_loop :: "nat \<Rightarrow> softc \<Rightarrow> (nat \<times> softc) option" where
  "intr_loop processed s = do {
     ev \<leftarrow> evq_read s;
     if no_event ev then Some (processed, s)
     else do {
       s \<leftarrow> evq_consume (control_event ev s);
       if processed + 1 \<ge> SFC7120_NUM_EVQ_ENTRY then Some (processed + 1, s)
       else intr_loop (processed + 1) s } }"
  by pat_completeness auto
termination by (relation "measure (\<lambda>(processed, s). 512 - processed)") auto

declare intr_loop.simps [simp del]

definition sfc7120_interrupt_handler :: "env \<Rightarrow> softc \<Rightarrow> softc option" where
  "sfc7120_interrupt_handler K s =
     (if \<not> dma_mapped DMA_EVQ s then Some s
      else if dying s \<or> \<not> evq_initialized s then Some s
      else do {
        s \<leftarrow> SFC7120_LOCK s;
        let s = evq_sync K s;
        (processed, s) \<leftarrow> intr_loop 0 s;
        let s = (if processed > 0
                 then SFC7120_WRITE_REG SFC7120_REG_EVQ_RPTR_DBL (of_nat (evq_read_ptr s) AND SFC7120_EVQ_RPTR_MASK) s
                 else s);
        SFC7120_UNLOCK s })"

definition sfc7120_rx_task_handler :: "softc \<Rightarrow> softc option" where
  "sfc7120_rx_task_handler s = do {
     s \<leftarrow> SFC7120_RX_LOCK s;
     let s = emit (Call ''selwakeuppri'') (s\<lparr>rx_received := True\<rparr>);
     SFC7120_RX_UNLOCK s }"

section \<open>MSI-X setup and teardown\<close>

text \<open>The labels \<open>fail_bar\<close>, \<open>fail_msi\<close> and \<open>fail_irq\<close>, each falling through to the next.\<close>

definition intr_fail_bar :: "int \<Rightarrow> softc \<Rightarrow> (int \<times> softc) option" where
  "intr_fail_bar error s = do {
     s \<leftarrow> release KBar4 s;
     Some (error, s\<lparr>msix_bar_resource := False\<rparr>) }"

definition intr_fail_msi :: "int \<Rightarrow> softc \<Rightarrow> (int \<times> softc) option" where
  "intr_fail_msi error s = do {
     s \<leftarrow> release KMsix s;
     intr_fail_bar error (s\<lparr>msix_nvec := 0\<rparr>) }"

definition intr_fail_irq :: "int \<Rightarrow> softc \<Rightarrow> (int \<times> softc) option" where
  "intr_fail_irq error s = do {
     s \<leftarrow> release KIrq s;
     intr_fail_msi error (s\<lparr>irq_resource := False\<rparr>) }"

definition sfc7120_intr_setup :: "env \<Rightarrow> softc \<Rightarrow> (int \<times> softc) option" where
  "sfc7120_intr_setup K s =
     (if msix_count K (io s) \<le> 0 then Some (ENXIO, s)
      else if alloc_resource K (io s) KBar4 = None then Some (ENOMEM, emit (Call ''bus_alloc_resource_any'') s)
      else do {
        let s = (grab KBar4 s)\<lparr>msix_bar_resource := True\<rparr>;
        let (error, count) = alloc_msix K (io s);
        if error \<noteq> 0 then intr_fail_bar error s
        else do {
          let s = grab KMsix s;
          if count \<noteq> 1 then intr_fail_msi ENXIO s
          else do {
            let s = s\<lparr>msix_nvec := count\<rparr>;
            if alloc_resource K (io s) KIrq = None then intr_fail_msi ENOMEM s
            else do {
              let s = (grab KIrq s)\<lparr>irq_resource := True\<rparr>;
              let error = setup_intr K (io s);
              if error \<noteq> 0 then intr_fail_irq error s
              else Some (0, (grab KIntr s)\<lparr>irq_handle := True, intr_initialized := True\<rparr>) } } } })"

definition sfc7120_intr_teardown :: "softc \<Rightarrow> softc option" where
  "sfc7120_intr_teardown s = do {
     s \<leftarrow> (if intr_initialized s \<and> irq_resource s \<and> irq_handle s
           then do { s \<leftarrow> release KIntr s; Some (s\<lparr>irq_handle := False\<rparr>) } else Some s);
     let s = s\<lparr>intr_initialized := False\<rparr>;
     s \<leftarrow> (if irq_resource s then do { s \<leftarrow> release KIrq s; Some (s\<lparr>irq_resource := False\<rparr>) } else Some s);
     s \<leftarrow> (if msix_nvec s > 0 then do { s \<leftarrow> release KMsix s; Some (s\<lparr>msix_nvec := 0\<rparr>) } else Some s);
     if msix_bar_resource s then do { s \<leftarrow> release KBar4 s; Some (s\<lparr>msix_bar_resource := False\<rparr>) } else Some s }"

section \<open>The pending events\<close>

text \<open>Specification: the events pending from the read pointer, at most one lap of the ring.\<close>

definition pending :: "nat \<Rightarrow> (nat \<Rightarrow> u64) \<Rightarrow> nat \<Rightarrow> u64 list" where
  "pending k q p = takeWhile (\<lambda>ev. \<not> no_event ev) (map (\<lambda>i. q ((p + i) mod 512)) [0..<k])"

text \<open>The ring after \<open>n\<close> entries from \<open>p\<close> were consumed.\<close>

definition zeroed :: "nat \<Rightarrow> nat \<Rightarrow> (nat \<Rightarrow> u64) \<Rightarrow> nat \<Rightarrow> u64" where
  "zeroed n p q i = (if \<exists>j<n. i = (p + j) mod 512 then 0 else q i)"

lemma pending_cong:
  "(\<And>i. i < k \<Longrightarrow> f ((p + i) mod 512) = g ((p + i) mod 512)) \<Longrightarrow> pending k f p = pending k g p"
  unfolding pending_def by (rule arg_cong [where f = "takeWhile _"]) simp

lemma pending_step:
  assumes "p < 512" "k < 512"
  shows "pending (Suc k) q p =
    (if no_event (q p) then [] else q p # pending k (q(p := 0)) ((p + 1) mod 512))"
proof -
  have "[0..<Suc k] = 0 # map Suc [0..<k]" by (simp add: map_Suc_upt upt_conv_Cons)
  then have 1: "pending (Suc k) q p = (if no_event (q p) then [] else q p # pending k q ((p + 1) mod 512))"
    using assms(1) by (simp add: pending_def comp_def mod_Suc_eq mod_add_left_eq)
  have "(p + 1 + i) mod 512 \<noteq> p" if "i < k" for i
    using that assms by (cases "p + 1 + i < 512") (auto simp: mod_if)
  then have "pending k q ((p + 1) mod 512) = pending k (q(p := 0)) ((p + 1) mod 512)"
    by (intro pending_cong) (simp add: mod_add_left_eq)
  with 1 show ?thesis by simp
qed

lemma length_pending: "length (pending k q p) \<le> k"
  unfolding pending_def using length_takeWhile_le [of _ "map (\<lambda>i. q ((p + i) mod 512)) [0..<k]"] by simp

lemma zeroed_0 [simp]: "zeroed 0 p q = q"
  by (rule ext) (simp add: zeroed_def)

lemma zeroed_Suc:
  assumes "p < 512"
  shows "zeroed (Suc n) p q = zeroed n ((p + 1) mod 512) (q(p := 0))"
proof (rule ext)
  fix i
  have "(\<exists>j<Suc n. i = (p + j) mod 512) \<longleftrightarrow> i = p \<or> (\<exists>j<n. i = ((p + 1) mod 512 + j) mod 512)"
    using assms by (auto simp: less_Suc_eq_0_disj mod_add_left_eq)
  then show "zeroed (Suc n) p q i = zeroed n ((p + 1) mod 512) (q(p := 0)) i"
    by (auto simp: zeroed_def)
qed

section \<open>The handler\<close>

text \<open>The part of the softc an event leaves alone.\<close>

definition no_link :: "softc \<Rightarrow> softc" where
  "no_link s = s\<lparr>link_up := False, full_duplex := False, link_speed_mbps := 0, link_fcntl := 0\<rparr>"

lemma no_link_upd:
  "no_link (s\<lparr>link_up := u, full_duplex := f, link_speed_mbps := v, link_fcntl := c\<rparr>) = no_link s"
  by (simp add: no_link_def)

lemma no_link_event [simp]: "no_link (control_event ev s) = no_link s"
  by (simp only: control_event_def Let_def no_link_upd split: if_split) simp

lemma control_event_simps [simp]:
  "evq_ring (control_event ev s) = evq_ring s" "evq_read_ptr (control_event ev s) = evq_read_ptr s"
  "io (control_event ev s) = io s" "kres (control_event ev s) = kres s" "dma (control_event ev s) = dma s"
  "sc_mtx (control_event ev s) = sc_mtx s" "dma_mapped d (control_event ev s) = dma_mapped d s"
  by (simp_all add: control_event_def Let_def dma_mapped_def)

lemma control_event_commute:
  "control_event ev (s\<lparr>io := h\<rparr>) = (control_event ev s)\<lparr>io := h\<rparr>"
  "control_event ev (s\<lparr>evq_ring := q\<rparr>) = (control_event ev s)\<lparr>evq_ring := q\<rparr>"
  "control_event ev (s\<lparr>evq_read_ptr := p\<rparr>) = (control_event ev s)\<lparr>evq_read_ptr := p\<rparr>"
  by (simp_all add: control_event_def Let_def)

lemma fold_events_simps:
  "io (fold control_event evs s) = io s \<and> evq_ring (fold control_event evs s) = evq_ring s
   \<and> evq_read_ptr (fold control_event evs s) = evq_read_ptr s \<and> sc_mtx (fold control_event evs s) = sc_mtx s"
  by (induction evs arbitrary: s) simp_all

lemma fold_events_commute:
  "fold control_event evs (s\<lparr>io := h, evq_ring := q, evq_read_ptr := p\<rparr>) =
   (fold control_event evs s)\<lparr>io := h, evq_ring := q, evq_read_ptr := p\<rparr>"
  by (induction evs arbitrary: s) (simp_all add: control_event_commute)

fun ctl_event :: "io \<Rightarrow> bool" where
  "ctl_event (EvqZero d i) = (d = DMA_EVQ)"
| "ctl_event (EvqPostread d) = (d = DMA_EVQ)"
| "ctl_event _ = False"

lemma ctl_quiet: "list_all ctl_event h \<Longrightarrow> list_all quiet_event h"
proof (induction h)
  case (Cons e h)
  then show ?case by (cases e) auto
qed simp

text \<open>The effect of a run of events: fold them over the softc, zero their slots, advance the pointer.\<close>

definition ctl_done :: "u64 list \<Rightarrow> io list \<Rightarrow> softc \<Rightarrow> softc" where
  "ctl_done evs h s = (fold control_event evs s)
     \<lparr>io := h @ io s, evq_ring := zeroed (length evs) (evq_read_ptr s) (evq_ring s),
      evq_read_ptr := (evq_read_ptr s + length evs) mod 512\<rparr>"

lemma ctl_done_fields:
  "io (ctl_done evs h s) = h @ io s" "evq_ring (ctl_done evs h s) = zeroed (length evs) (evq_read_ptr s) (evq_ring s)"
  "evq_read_ptr (ctl_done evs h s) = (evq_read_ptr s + length evs) mod 512"
  by (simp_all add: ctl_done_def)

lemma ctl_done_Nil: "evq_read_ptr s < 512 \<Longrightarrow> ctl_done [] [] s = s"
  by (simp add: ctl_done_def)

lemma ctl_done_one: "ctl_done [ev] h s =
    control_event ev s\<lparr>io := h @ io s, evq_ring := zeroed 1 (evq_read_ptr s) (evq_ring s), evq_read_ptr := (evq_read_ptr s + 1) mod 512\<rparr>"
  by (simp add: ctl_done_def)

lemma ctl_done_Cons:
  assumes "evq_read_ptr s < 512"
  shows "ctl_done evs h (ctl_done [ev] h' s) = ctl_done (ev # evs) (h @ h') s"
proof -
  let ?t = "ctl_done [ev] h' s"
  have f: "fold control_event evs ?t = (fold control_event (ev # evs) s)
      \<lparr>io := h' @ io s, evq_ring := zeroed 1 (evq_read_ptr s) (evq_ring s), evq_read_ptr := (evq_read_ptr s + 1) mod 512\<rparr>"
    by (simp only: ctl_done_one fold_events_commute fold_simps)
  have z: "zeroed (length evs) ((evq_read_ptr s + 1) mod 512) (zeroed 1 (evq_read_ptr s) (evq_ring s)) =
      zeroed (length (ev # evs)) (evq_read_ptr s) (evq_ring s)"
    using zeroed_Suc [OF assms, of 0 "evq_ring s"] zeroed_Suc [OF assms, of "length evs" "evq_ring s"] by simp
  have p: "((evq_read_ptr s + length [ev]) mod 512 + length evs) mod 512 = (evq_read_ptr s + length (ev # evs)) mod 512"
    by (simp add: mod_add_left_eq)
  show ?thesis
    unfolding ctl_done_def [of evs] ctl_done_def [of "ev # evs"] f ctl_done_fields p
    using z by (simp del: fold_simps)
qed

lemma evq_consume_eq:
  assumes "dma_mapped DMA_EVQ s" "evq_read_ptr s < 512"
  shows "evq_consume (control_event ev s) = Some (ctl_done [ev] [EvqZero DMA_EVQ (evq_read_ptr s)] s)"
proof -
  have "zeroed 1 (evq_read_ptr s) (evq_ring s) = (evq_ring s)(evq_read_ptr s := 0)"
    using zeroed_Suc [OF assms(2), of 0 "evq_ring s"] by simp
  then show ?thesis
    using assms by (simp add: evq_consume_def softc_emit ctl_done_one evq_ring.step_mod)
qed

lemma ctl_done_mapped: "dma_mapped d (ctl_done evs h s) = dma_mapped d s"
proof -
  have "dma (fold control_event evs s) = dma s" by (induction evs arbitrary: s) simp_all
  then show ?thesis by (simp add: ctl_done_def dma_mapped_def)
qed

lemma intr_loop_spec:
  assumes "dma_mapped DMA_EVQ s" "evq_read_ptr s < 512" "processed + k = 512" "0 < k"
    "evs = pending k (evq_ring s) (evq_read_ptr s)"
  shows "\<exists>h. list_all ctl_event h \<and> intr_loop processed s = Some (processed + length evs, ctl_done evs h s)"
  using assms
proof (induction k arbitrary: processed s evs)
  case (Suc k)
  define p where "p = evq_read_ptr s"
  define ev where "ev = evq_ring s p"
  have rd: "evq_read s = Some ev" using Suc.prems by (simp add: evq_read_def ev_def p_def)
  have step: "evs = (if no_event ev then [] else ev # pending k ((evq_ring s)(p := 0)) ((p + 1) mod 512))"
    using pending_step [of p k "evq_ring s"] Suc.prems by (simp add: ev_def p_def)
  show ?case
  proof (cases "no_event ev")
    case True
    then have "intr_loop processed s = Some (processed, s)" by (subst intr_loop.simps) (simp add: rd)
    with True step ctl_done_Nil [OF Suc.prems(2)] show ?thesis by (intro exI [of _ "[]"]) simp
  next
    case False
    let ?z = "[EvqZero DMA_EVQ p]"
    let ?t = "ctl_done [ev] ?z s"
    have c: "evq_consume (control_event ev s) = Some ?t"
      using evq_consume_eq [OF Suc.prems(1,2)] by (simp add: p_def)
    have one: "zeroed 1 p (evq_ring s) = (evq_ring s)(p := 0)"
      using zeroed_Suc [of p 0 "evq_ring s"] Suc.prems(2) by (simp add: p_def)
    define es where "es = pending k (evq_ring ?t) (evq_read_ptr ?t)"
    have evs: "evs = ev # es" using step False one by (simp add: es_def ctl_done_fields p_def)
    show ?thesis
    proof (cases "k = 0")
      case True
      then have "intr_loop processed s = Some (processed + 1, ?t)"
        using Suc.prems(3) by (subst intr_loop.simps) (simp add: rd False c)
      moreover have "evs = [ev]" using evs True by (simp add: es_def pending_def)
      ultimately show ?thesis by (intro exI [of _ ?z]) simp
    next
      case k: False
      have "dma_mapped DMA_EVQ ?t" "evq_read_ptr ?t < 512" using Suc.prems(1) by (simp_all add: ctl_done_mapped ctl_done_fields)
      from Suc.IH [OF this _ _ es_def, of "processed + 1"] Suc.prems(3) k obtain h where h: "list_all ctl_event h"
          "intr_loop (processed + 1) ?t = Some (processed + 1 + length es, ctl_done es h ?t)" by auto
      have "intr_loop processed s = intr_loop (processed + 1) ?t"
        using Suc.prems(3) k by (subst intr_loop.simps) (simp add: rd False c)
      then show ?thesis
        using h ctl_done_Cons [OF Suc.prems(2), of es h ev ?z] evs by (intro exI [of _ "h @ ?z"]) simp
    qed
  qed
qed simp

text \<open>The ring as the handler sees it after its one \<open>POSTREAD\<close>.\<close>

definition intr_ring :: "env \<Rightarrow> softc \<Rightarrow> nat \<Rightarrow> u64" where
  "intr_ring K s = dma_in (evq_mem K (EvqPostread DMA_EVQ # io s) DMA_EVQ) (evq_ring s)"

definition intr_live :: "softc \<Rightarrow> bool" where
  "intr_live s \<longleftrightarrow> dma_mapped DMA_EVQ s \<and> evq_read_ptr s < SFC7120_NUM_EVQ_ENTRY \<and> evq_initialized s \<and> \<not> dying s
     \<and> sc_mtx s = MtxFree"

lemma fold_events_upd:
  "fold control_event evs (s\<lparr>io := h, evq_ring := q\<rparr>) = (fold control_event evs s)\<lparr>io := h, evq_ring := q\<rparr>"
  "fold control_event evs (s\<lparr>sc_mtx := m\<rparr>) = (fold control_event evs s)\<lparr>sc_mtx := m\<rparr>"
proof -
  have "control_event ev (s\<lparr>sc_mtx := m\<rparr>) = (control_event ev s)\<lparr>sc_mtx := m\<rparr>" for ev s
    by (simp add: control_event_def Let_def)
  then show "fold control_event evs (s\<lparr>sc_mtx := m\<rparr>) = (fold control_event evs s)\<lparr>sc_mtx := m\<rparr>"
    by (induction evs arbitrary: s) simp_all
qed (induction evs arbitrary: s; simp add: control_event_commute)

lemma interrupt_handler_spec:
  assumes "intr_live s" "evs = pending 512 (intr_ring K s) (evq_read_ptr s)"
    "p = (evq_read_ptr s + length evs) mod 512"
  shows "\<exists>h. sfc7120_interrupt_handler K s = Some ((fold control_event evs s)
      \<lparr>io := h @ io s, evq_ring := zeroed (length evs) (evq_read_ptr s) (intr_ring K s), evq_read_ptr := p\<rparr>)
    \<and> reg_writes (h @ io s) = reg_writes (io s) @ (if evs = [] then [] else [(SFC7120_REG_EVQ_RPTR_DBL, of_nat p)])"
proof -
  let ?sL = "s\<lparr>sc_mtx := MtxOwned\<rparr>"
  let ?s1 = "?sL\<lparr>io := EvqPostread DMA_EVQ # io s, evq_ring := intr_ring K s\<rparr>"
  have a: "dma_mapped DMA_EVQ s" "evq_read_ptr s < 512" "evq_initialized s" "\<not> dying s" "sc_mtx s = MtxFree"
    using assms(1) by (auto simp: intr_live_def)
  have L: "SFC7120_LOCK s = Some ?sL" using a by simp
  have S: "evq_sync K ?sL = ?s1" by (simp add: evq_sync_def softc_emit Let_def intr_ring_def)
  obtain h where h: "list_all ctl_event h" "intr_loop 0 ?s1 = Some (length evs, ctl_done evs h ?s1)"
    using intr_loop_spec [of ?s1 0 512 evs] a assms(2) by (auto simp: dma_mapped_def)
  let ?ack = "if evs = [] then [] else [RegWrite SFC7120_REG_EVQ_RPTR_DBL (of_nat p)]"
  let ?h = "?ack @ h @ [EvqPostread DMA_EVQ]"
  let ?fin = "(fold control_event evs s)\<lparr>io := ?h @ io s, evq_ring := zeroed (length evs) (evq_read_ptr s) (intr_ring K s), evq_read_ptr := p\<rparr>"
  have mt: "sc_mtx (fold control_event evs s) = MtxFree" using fold_events_simps [of evs s] a(5) by simp
  have d: "ctl_done evs h ?s1 = (fold control_event evs s)\<lparr>sc_mtx := MtxOwned, io := h @ EvqPostread DMA_EVQ # io s,
      evq_ring := zeroed (length evs) (evq_read_ptr s) (intr_ring K s), evq_read_ptr := p\<rparr>"
    unfolding ctl_done_def fold_events_upd by (simp add: assms(3))
  have m: "of_nat p AND SFC7120_EVQ_RPTR_MASK = (of_nat p :: u32)" by (rule rptr_mask) (simp add: assms(3))
  have run: "sfc7120_interrupt_handler K s = Some ?fin"
    unfolding sfc7120_interrupt_handler_def L bind.bind_lunit S Let_def h(2) prod.case d
    using a mt by (cases "evs = []") (simp_all add: softc_io m)
  have "reg_writes (?h @ io s) = reg_writes (io s) @ (if evs = [] then [] else [(SFC7120_REG_EVQ_RPTR_DBL, of_nat p)])"
    using quiet_append(1) [OF ctl_quiet [OF h(1)], of "EvqPostread DMA_EVQ # io s"] by simp
  with run show ?thesis by blast
qed

lemma interrupt_handler_ignored:
  "\<not> dma_mapped DMA_EVQ s \<or> dying s \<or> \<not> evq_initialized s \<Longrightarrow> sfc7120_interrupt_handler K s = Some s"
  by (auto simp: sfc7120_interrupt_handler_def)

section \<open>The vector: all or nothing\<close>

definition intr_res :: "kres set" where
  "intr_res = {KBar4, KMsix, KIrq, KIntr}"

definition intr_down :: "softc \<Rightarrow> bool" where
  "intr_down s \<longleftrightarrow> \<not> msix_bar_resource s \<and> msix_nvec s = 0 \<and> \<not> irq_resource s \<and> \<not> irq_handle s
     \<and> \<not> intr_initialized s \<and> kres s \<inter> intr_res = {}"

definition intr_up :: "softc \<Rightarrow> bool" where
  "intr_up s \<longleftrightarrow> msix_bar_resource s \<and> msix_nvec s = 1 \<and> irq_resource s \<and> irq_handle s
     \<and> intr_initialized s \<and> intr_res \<subseteq> kres s"

definition intr_mark :: "bool \<Rightarrow> softc \<Rightarrow> softc" where
  "intr_mark b s = s\<lparr>msix_bar_resource := b, msix_nvec := (if b then 1 else 0), irq_resource := b,
                     irq_handle := b, intr_initialized := b\<rparr>"

lemma intr_setup_total:
  assumes "intr_down s"
  shows "\<exists>e h. sfc7120_intr_setup K s =
    Some (e, if e = 0 then intr_mark True (s\<lparr>io := h, kres := kres s \<union> intr_res\<rparr>) else s\<lparr>io := h\<rparr>)"
proof -
  have nr: "KBar4 \<notin> kres s" "KMsix \<notin> kres s" "KIrq \<notin> kres s" "KIntr \<notin> kres s"
    and fs: "\<not> msix_bar_resource s" "msix_nvec s = 0" "\<not> irq_resource s" "\<not> irq_handle s" "\<not> intr_initialized s"
    using assms by (auto simp: intr_down_def intr_res_def)
  have ins: "kres s \<union> intr_res = insert KIntr (insert KIrq (insert KMsix (insert KBar4 (kres s))))"
    by (auto simp: intr_res_def)
  have down: "s\<lparr>io := h, msix_bar_resource := False\<rparr> = s\<lparr>io := h\<rparr>" "s\<lparr>io := h, msix_bar_resource := False, msix_nvec := 0\<rparr> = s\<lparr>io := h\<rparr>"
      "s\<lparr>io := h, msix_nvec := 0, msix_bar_resource := False\<rparr> = s\<lparr>io := h\<rparr>"
      "s\<lparr>io := h, irq_resource := False, msix_nvec := 0, msix_bar_resource := False\<rparr> = s\<lparr>io := h\<rparr>" for h
    using fs by (auto intro!: sfc7120_softc.equality)
  have same: "insert KBar4 (kres s) - {KBar4} = kres s"
      "insert KMsix (insert KBar4 (kres s)) - {KMsix} - {KBar4} = kres s"
      "insert KIrq (insert KMsix (insert KBar4 (kres s))) - {KIrq} - {KMsix} - {KBar4} = kres s"
    using nr by auto
  obtain e c where m: "alloc_msix K (Grab KBar4 # io s) = (e, c)" by fastforce
  let ?a = "alloc_resource K (Grab KMsix # Grab KBar4 # io s) KIrq"
  let ?u = "setup_intr K (Grab KIrq # Grab KMsix # Grab KBar4 # io s)"
  note defs = sfc7120_intr_setup_def intr_fail_bar_def intr_fail_msi_def intr_fail_irq_def Let_def release_def grab_def softc_emit
  consider "msix_count K (io s) \<le> 0" | "0 < msix_count K (io s)" "alloc_resource K (io s) KBar4 = None"
    | "0 < msix_count K (io s)" "alloc_resource K (io s) KBar4 \<noteq> None" "e \<noteq> 0"
    | "0 < msix_count K (io s)" "alloc_resource K (io s) KBar4 \<noteq> None" "e = 0" "c \<noteq> 1"
    | "0 < msix_count K (io s)" "alloc_resource K (io s) KBar4 \<noteq> None" "e = 0" "c = 1" "?a = None"
    | "0 < msix_count K (io s)" "alloc_resource K (io s) KBar4 \<noteq> None" "e = 0" "c = 1" "?a \<noteq> None" "?u \<noteq> 0"
    | "0 < msix_count K (io s)" "alloc_resource K (io s) KBar4 \<noteq> None" "e = 0" "c = 1" "?a \<noteq> None" "?u = 0"
    by linarith
  then show ?thesis
  proof cases
    case 1
    then show ?thesis by (intro exI [of _ ENXIO] exI [of _ "io s"]) (simp add: defs)
  next
    case 2
    then show ?thesis by (intro exI [of _ ENOMEM] exI [of _ "Call ''bus_alloc_resource_any'' # io s"]) (simp add: defs)
  next
    case 3
    with m nr same show ?thesis
      by (intro exI [of _ e] exI [of _ "Release KBar4 # Grab KBar4 # io s"]) (simp add: defs down del: not_None_eq)
  next
    case 4
    with m nr same show ?thesis
      by (intro exI [of _ ENXIO] exI [of _ "Release KBar4 # Release KMsix # Grab KMsix # Grab KBar4 # io s"])
         (simp add: defs down del: not_None_eq)
  next
    case 5
    with m nr same show ?thesis
      by (intro exI [of _ ENOMEM] exI [of _ "Release KBar4 # Release KMsix # Grab KMsix # Grab KBar4 # io s"])
         (simp add: defs down del: not_None_eq)
  next
    case 6
    with m nr same show ?thesis
      by (intro exI [of _ "?u"] exI [of _ "Release KBar4 # Release KMsix # Release KIrq # Grab KIrq # Grab KMsix # Grab KBar4 # io s"])
         (simp add: defs down del: not_None_eq)
  next
    case 7
    with m nr show ?thesis
      by (intro exI [of _ 0] exI [of _ "Grab KIntr # Grab KIrq # Grab KMsix # Grab KBar4 # io s"])
         (simp add: defs ins intr_mark_def del: not_None_eq)
  qed
qed

lemma intr_teardown_up:
  assumes "intr_up s"
  shows "\<exists>h. sfc7120_intr_teardown s = Some (intr_mark False (s\<lparr>io := h, kres := kres s - intr_res\<rparr>))
    \<and> mc_requests h = mc_requests (io s)"
proof -
  have r: "KBar4 \<in> kres s" "KMsix \<in> kres s" "KIrq \<in> kres s" "KIntr \<in> kres s"
    and fs: "msix_bar_resource s" "msix_nvec s = 1" "irq_resource s" "irq_handle s" "intr_initialized s"
    using assms by (auto simp: intr_up_def intr_res_def)
  have d: "kres s - intr_res = kres s - {KIntr} - {KIrq} - {KMsix} - {KBar4}" by (auto simp: intr_res_def)
  show ?thesis
    by (intro exI [of _ "Release KBar4 # Release KMsix # Release KIrq # Release KIntr # io s"])
       (simp add: sfc7120_intr_teardown_def release_def softc_emit r fs d intr_mark_def Let_def)
qed

lemma intr_teardown_down: "intr_down s \<Longrightarrow> sfc7120_intr_teardown s = Some s"
  by (simp add: sfc7120_intr_teardown_def intr_down_def)

lemma intr_mark_simps:
  "intr_up (intr_mark True (s\<lparr>io := h, kres := R \<union> intr_res\<rparr>))" "intr_down (intr_mark False (s\<lparr>io := h, kres := R - intr_res\<rparr>))"
  by (auto simp: intr_up_def intr_down_def intr_mark_def)

interpretation intr_stage:
  bringup_stage sfc7120_intr_setup sfc7120_intr_teardown "\<lambda>_. True" intr_down intr_up intr_res
proof (unfold_locales, goal_cases)
  case (1 K s)
  obtain e h where e: "sfc7120_intr_setup K s =
      Some (e, if e = 0 then intr_mark True (s\<lparr>io := h, kres := kres s \<union> intr_res\<rparr>) else s\<lparr>io := h\<rparr>)"
    using intr_setup_total [OF 1(2)] by blast
  have "kres (intr_mark True (s\<lparr>io := h, kres := kres s \<union> intr_res\<rparr>)) = kres s \<union> intr_res" by (simp add: intr_mark_def)
  moreover have "intr_down (s\<lparr>io := h\<rparr>)" using 1(2) by (simp add: intr_down_def)
  ultimately show ?case using e intr_mark_simps(1) [where s = s and h = h and R = "kres s"] by (cases "e = 0") auto
next
  case (2 s)
  obtain h where h: "sfc7120_intr_teardown s = Some (intr_mark False (s\<lparr>io := h, kres := kres s - intr_res\<rparr>))"
    using intr_teardown_up [OF 2] by blast
  then show ?case using intr_mark_simps(2) [where s = s and h = h and R = "kres s"] by (simp add: intr_mark_def)
next
  case (3 s)
  then show ?case by (simp add: intr_down_def)
qed

section \<open>Properties\<close>

lemma live_intr: "intr_live live_softc"
  by (simp add: intr_live_def live_softc_fields) (simp add: live_softc_def)

text \<open>C10 The interrupt handler refines "handle the pending events in order": with the ring as it is after the
  handler's one \<open>POSTREAD\<close>, it applies \<open>control_event\<close> to every event pending from the read pointer, at most one
  lap of 512, zeroes exactly their slots, moves the read pointer past them and acknowledges with one doorbell
  write, none if there was no event; the rest of the softc is untouched and the lock is free again.\<close>

theorem interrupt_drains_ring:
  assumes "intr_live s" "evs = pending 512 (intr_ring K s) (evq_read_ptr s)"
    "p = (evq_read_ptr s + length evs) mod 512"
  shows "\<exists>h. sfc7120_interrupt_handler K s = Some ((fold control_event evs s)
      \<lparr>io := h @ io s, evq_ring := zeroed (length evs) (evq_read_ptr s) (intr_ring K s), evq_read_ptr := p\<rparr>)
    \<and> reg_writes (h @ io s) = reg_writes (io s) @ (if evs = [] then [] else [(SFC7120_REG_EVQ_RPTR_DBL, of_nat p)])"
  by (rule interrupt_handler_spec [OF assms])

text \<open>A link-up event at 10 Gb/s, full duplex.\<close>

definition ex_link_event :: u64 where
  "ex_link_event = 0xc000400003030000"

lemma ex_link_speed: "link_speed_mbps (control_event ex_link_event s) = 10000 \<and> link_up (control_event ex_link_event s)"
  by (simp add: control_event_def ex_link_event_def sfc7120_linkchange_speed_mbps_def Let_def)

lemma ex_link_pending: "pending 512 ((\<lambda>_. 0)(0 := ex_link_event)) 0 = [ex_link_event]"
proof -
  have "[0..<512] = 0 # [Suc 0..<512]" "[Suc 0..<512] = Suc 0 # [Suc (Suc 0)..<512]" by (rule upt_conv_Cons, simp)+
  then have "[0..<512] = 0 # 1 # [2..<512]" by (simp only: One_nat_def numeral_2_eq_2)
  then show ?thesis by (simp add: pending_def no_event_def ex_link_event_def)
qed

theorem interrupt_drains_ring_witness:
  "\<exists>s'. sfc7120_interrupt_handler quiet_env (live_softc\<lparr>evq_ring := (\<lambda>_. 0)(0 := ex_link_event)\<rparr>) = Some s'
     \<and> link_speed_mbps s' = 10000 \<and> link_up s' \<and> evq_read_ptr s' = 1 \<and> reg_writes (io s') = [(SFC7120_REG_EVQ_RPTR_DBL, 1)]"
proof -
  let ?s = "live_softc\<lparr>evq_ring := (\<lambda>_. 0)(0 := ex_link_event)\<rparr>"
  have r: "intr_ring quiet_env ?s = (\<lambda>_. 0)(0 := ex_link_event)"
    by (rule ext) (simp add: intr_ring_def dma_in_def quiet_env_def)
  have l: "intr_live ?s" using live_intr by (simp add: intr_live_def dma_mapped_def)
  have f: "io ?s = []" "evq_read_ptr ?s = 0" by (simp_all add: live_softc_fields)
  have e: "[ex_link_event] = pending 512 (intr_ring quiet_env ?s) (evq_read_ptr ?s)"
    unfolding r f(2) ex_link_pending ..
  have p: "1 = (evq_read_ptr ?s + length [ex_link_event]) mod 512" by (simp add: f)
  show ?thesis
    using interrupt_drains_ring [OF l e p] ex_link_speed [of ?s] f(1) by auto
qed

text \<open>Setting up the interrupt is all or nothing, whatever the bus answers: BAR, MSI-X vector, IRQ and handler are
  all held, or none is; \<open>sfc7120_intr_teardown\<close> gives all of them back and leaves a state from which setup works
  again.\<close>

theorem intr_all_or_nothing:
  assumes "intr_down s"
  shows "\<exists>e s'. sfc7120_intr_setup K s = Some (e, s')
    \<and> (if e = 0 then intr_up s' \<and> (\<exists>s''. sfc7120_intr_teardown s' = Some s'' \<and> intr_down s'' \<and> kres s'' = kres s)
       else intr_down s' \<and> kres s' = kres s)"
proof -
  obtain e s' where s': "sfc7120_intr_setup K s = Some (e, s')"
      "if e = 0 then intr_up s' \<and> intr_res \<subseteq> kres s' else intr_down s' \<and> kres s' \<inter> intr_res = {}" "kres s' - intr_res = kres s"
    using intr_stage.all_or_nothing [OF TrueI assms] by blast
  then show ?thesis using intr_stage.round_trip [OF TrueI assms, of K s'] by (auto split: if_splits)
qed

lemma zero_intr_down: "intr_down zero_softc"
  by (simp add: intr_down_def zero_softc_def)

theorem intr_all_or_nothing_witness:
  "\<exists>e s'. sfc7120_intr_setup quiet_env zero_softc = Some (e, s')
    \<and> (if e = 0 then intr_up s' \<and> (\<exists>s''. sfc7120_intr_teardown s' = Some s'' \<and> intr_down s'' \<and> kres s'' = {})
       else intr_down s' \<and> kres s' = {})"
  by (rule intr_all_or_nothing [OF zero_intr_down, unfolded zero_softc_fields(1)])

end
