(* ===== verification/Firmware.thy ===== *)
theory Firmware
  imports Intr
begin

text \<open>
  What the driver believes the MC holds for it.  The softc keeps eight flags, one per firmware
  resource: the driver attachment, the VIs, the vAdaptor, the two event queues, the receive and the
  transmit queue, and the receive filter; beside them it keeps the read pointer of the control event
  queue, which \<open>INIT_EVQ\<close> resets.  Each command wrapper changes these flags in one definite
  way, given its return code (interface \<open>fw_command\<close>); the wrappers that teardown calls send exactly
  one command, and only when their flag is set (interface \<open>teardown_command\<close>).
\<close>

record fw =
  fw_attached :: bool
  fw_vis :: bool
  fw_vadaptor :: bool
  fw_evq :: bool
  fw_data_evq :: bool
  fw_rxq :: bool
  fw_txq :: bool
  fw_filter :: bool
  fw_ctl_ptr :: nat

definition fwside :: "softc \<Rightarrow> fw" where
  "fwside s = \<lparr>fw_attached = drv_attached s, fw_vis = vis_allocated s, fw_vadaptor = vadaptor_allocated s,
               fw_evq = evq_initialized s, fw_data_evq = data_evq_initialized s, fw_rxq = rxq_initialized s,
               fw_txq = txq_initialized s, fw_filter = rx_filter_inserted s,
               fw_ctl_ptr = evq_read_ptr s\<rparr>"

definition no_fw :: fw where
  "no_fw = \<lparr>fw_attached = False, fw_vis = False, fw_vadaptor = False, fw_evq = False, fw_data_evq = False,
            fw_rxq = False, fw_txq = False, fw_filter = False, fw_ctl_ptr = 0\<rparr>"

definition all_fw :: fw where
  "all_fw = \<lparr>fw_attached = True, fw_vis = True, fw_vadaptor = True, fw_evq = True, fw_data_evq = True,
             fw_rxq = True, fw_txq = True, fw_filter = True, fw_ctl_ptr = 0\<rparr>"

lemma fwside_simps [simp]:
  "fw_attached (fwside s) = drv_attached s" "fw_vis (fwside s) = vis_allocated s"
  "fw_vadaptor (fwside s) = vadaptor_allocated s" "fw_evq (fwside s) = evq_initialized s"
  "fw_data_evq (fwside s) = data_evq_initialized s" "fw_rxq (fwside s) = rxq_initialized s"
  "fw_txq (fwside s) = txq_initialized s" "fw_filter (fwside s) = rx_filter_inserted s"
  "fw_ctl_ptr (fwside s) = evq_read_ptr s"
  by (simp_all add: fwside_def)

lemma mcdi_only_fwside:
  "mcdi_only s s' \<Longrightarrow> fwside s' = fwside s \<and> rx_filter_handle s' = rx_filter_handle s"
  by (auto simp: mcdi_only_def fwside_def)

lemma fwside_eqD:
  "fwside s' = fwside s \<Longrightarrow>
     drv_attached s' = drv_attached s \<and> vis_allocated s' = vis_allocated s \<and> vadaptor_allocated s' = vadaptor_allocated s
     \<and> evq_initialized s' = evq_initialized s \<and> data_evq_initialized s' = data_evq_initialized s
     \<and> rxq_initialized s' = rxq_initialized s \<and> txq_initialized s' = txq_initialized s
     \<and> rx_filter_inserted s' = rx_filter_inserted s \<and> evq_read_ptr s' = evq_read_ptr s"
  by (simp add: fwside_def)

text \<open>Taking a wrapper apart at its exchange with the MC.\<close>

lemma exec_elim:
  assumes "(sfc7120_mcdi_exec K cmd inp out used s \<bind> f) = Some (rc, t)"
    "mcdi_ready s" "fits cmd (length inp) (length inp)" "fits cmd (length inp) (length out)" "cmd < 0x8000" "used \<le> length out"
    "\<And>rc' out' used' s'. fwside s' = fwside s \<Longrightarrow> hostside s' = hostside s \<Longrightarrow> mcdi_ready s' \<Longrightarrow> exec_io cmd inp s s' \<Longrightarrow>
       length out' = length out \<Longrightarrow> used' \<le> length out \<Longrightarrow> f (rc', out', used', s') = Some (rc, t) \<Longrightarrow> P"
  shows P
proof -
  obtain rc' out' used' s' where e: "sfc7120_mcdi_exec K cmd inp out used s = Some (rc', out', used', s')" "mcdi_only s s'"
      "length out' = length out" "used' \<le> length out" "exec_io cmd inp s s'"
    using exec_summary [OF assms(2-6)] by blast
  note h = mcdi_only_hostside [OF e(2)]
  from assms(1) e(1) have "f (rc', out', used', s') = Some (rc, t)" by simp
  from assms(7) [OF conjunct1 [OF mcdi_only_fwside [OF e(2)]] h hostside_ready [OF h assms(2)] e(5,3,4) this] show P .
qed

locale fw_command = mcdi_command run for run +
  fixes eff :: "int \<Rightarrow> fw \<Rightarrow> fw"
  assumes run_fw: "mcdi_ready s \<Longrightarrow> run K s = Some (rc, s') \<Longrightarrow> fwside s' = eff rc (fwside s)"
begin

lemma run_fw_total:
  "mcdi_ready s \<Longrightarrow> \<exists>rc s'. run K s = Some (rc, s') \<and> hostside s' = hostside s \<and> mcdi_ready s' \<and> fwside s' = eff rc (fwside s)"
  using run_total [of s K] run_host [of s K] run_fw [of s K] by blast

end

section \<open>Commands that leave the flags alone\<close>

lemma get_asserts_fw:
  "get_asserts_retry K n (put32 0 1 (zeros 4)) (rc0, resp, used) s = Some (rc, resp', used', t) \<Longrightarrow>
   mcdi_ready s \<Longrightarrow> length resp = 140 \<Longrightarrow> used \<le> 140 \<Longrightarrow> fwside t = fwside s"
proof (induction n arbitrary: rc0 resp used s)
  case (Suc n)
  obtain rc1 resp1 used1 s1 where e: "sfc7120_mcdi_exec K MC_CMD_GET_ASSERTS (put32 0 1 (zeros 4)) resp used s = Some (rc1, resp1, used1, s1)"
      "mcdi_only s s1" "length resp1 = length resp" "used1 \<le> length resp"
    using exec_summary [of s MC_CMD_GET_ASSERTS "put32 0 1 (zeros 4)" resp used K] Suc.prems by (auto simp: fits_simps)
  note h = hostside_ready [OF mcdi_only_hostside [OF e(2)] Suc.prems(2)] mcdi_only_fwside [OF e(2)]
  show ?case
    using Suc.IH [of rc1 resp1 used1 s1] Suc.prems e h by (auto split: if_splits)
qed simp

interpretation clear_assertions: fw_command sfc7120_mcdi_clear_assertions "\<lambda>_ f. f"
proof
  fix s K rc s' assume "mcdi_ready s" "sfc7120_mcdi_clear_assertions K s = Some (rc, s')"
  then show "fwside s' = fwside s"
    using get_asserts_fw [of K 3 0 "zeros 140" 0 s]
    by (auto simp: sfc7120_mcdi_clear_assertions_def bind_eq_Some_conv split: if_splits)
qed

lemma upd_fwside [simp]:
  "fwside (s\<lparr>fw_version := a1\<rparr>) = fwside s" "fwside (s\<lparr>mac_addr := a2\<rparr>) = fwside s"
  "fwside (s\<lparr>mcdi_cap_flags1 := a3\<rparr>) = fwside s" "fwside (s\<lparr>mcdi_caps_valid := a4\<rparr>) = fwside s"
  "fwside (s\<lparr>mcdi_func_flags := a5\<rparr>) = fwside s"
  "fwside (s\<lparr>vi_count := a7\<rparr>) = fwside s" "fwside (s\<lparr>vi_base := a8\<rparr>) = fwside s"
  "fwside (s\<lparr>phy_supported_cap_mask := a9\<rparr>) = fwside s" "fwside (s\<lparr>phy_media_type := b1\<rparr>) = fwside s"
  "fwside (s\<lparr>phy_adv_cap_mask := b2\<rparr>) = fwside s" "fwside (s\<lparr>mac_configured := b3\<rparr>) = fwside s"
  "fwside (s\<lparr>link_configured := b4\<rparr>) = fwside s" "fwside (s\<lparr>link_up := b5\<rparr>) = fwside s"
  "fwside (s\<lparr>full_duplex := b6\<rparr>) = fwside s" "fwside (s\<lparr>link_speed_mbps := b7\<rparr>) = fwside s"
  "fwside (s\<lparr>link_fcntl := b8\<rparr>) = fwside s" "fwside (s\<lparr>rx_filter_handle := b9\<rparr>) = fwside s"
  "fwside (s\<lparr>io := c1\<rparr>) = fwside s"
  by (simp_all add: fwside_def)

lemma upd_fwside_flag [simp]:
  "fwside (s\<lparr>drv_attached := b\<rparr>) = (fwside s)\<lparr>fw_attached := b\<rparr>"
  "fwside (s\<lparr>vis_allocated := b\<rparr>) = (fwside s)\<lparr>fw_vis := b\<rparr>"
  "fwside (s\<lparr>vadaptor_allocated := b\<rparr>) = (fwside s)\<lparr>fw_vadaptor := b\<rparr>"
  "fwside (s\<lparr>evq_initialized := b\<rparr>) = (fwside s)\<lparr>fw_evq := b\<rparr>"
  "fwside (s\<lparr>data_evq_initialized := b\<rparr>) = (fwside s)\<lparr>fw_data_evq := b\<rparr>"
  "fwside (s\<lparr>rxq_initialized := b\<rparr>) = (fwside s)\<lparr>fw_rxq := b\<rparr>"
  "fwside (s\<lparr>txq_initialized := b\<rparr>) = (fwside s)\<lparr>fw_txq := b\<rparr>"
  "fwside (s\<lparr>rx_filter_inserted := b\<rparr>) = (fwside s)\<lparr>fw_filter := b\<rparr>"
  "fwside (s\<lparr>evq_read_ptr := p\<rparr>) = (fwside s)\<lparr>fw_ctl_ptr := p\<rparr>"
  by (simp_all add: fwside_def)

lemma upd_flag_same [simp]:
  "drv_attached s = b \<Longrightarrow> (fwside s)\<lparr>fw_attached := b\<rparr> = fwside s"
  "vis_allocated s = b \<Longrightarrow> (fwside s)\<lparr>fw_vis := b\<rparr> = fwside s"
  "vadaptor_allocated s = b \<Longrightarrow> (fwside s)\<lparr>fw_vadaptor := b\<rparr> = fwside s"
  "rxq_initialized s = b \<Longrightarrow> (fwside s)\<lparr>fw_rxq := b\<rparr> = fwside s"
  "txq_initialized s = b \<Longrightarrow> (fwside s)\<lparr>fw_txq := b\<rparr> = fwside s"
  "rx_filter_inserted s = b \<Longrightarrow> (fwside s)\<lparr>fw_filter := b\<rparr> = fwside s"
  "evq_initialized s = b \<Longrightarrow> (fwside s)\<lparr>fw_evq := b\<rparr> = fwside s"
  "data_evq_initialized s = b \<Longrightarrow> (fwside s)\<lparr>fw_data_evq := b\<rparr> = fwside s"
  by (auto simp: fwside_def)

interpretation entity_reset: fw_command sfc7120_mcdi_entity_reset "\<lambda>_ f. f"
  by unfold_locales (auto simp: sfc7120_mcdi_entity_reset_def fits_simps elim!: exec_elim split: if_splits)

interpretation get_version: fw_command sfc7120_mcdi_get_version "\<lambda>_ f. f"
  by unfold_locales (auto simp: sfc7120_mcdi_get_version_def fits_simps elim!: exec_elim split: if_splits)

interpretation get_mac: fw_command sfc7120_mcdi_get_mac "\<lambda>_ f. f"
  by unfold_locales (auto simp: sfc7120_mcdi_get_mac_def fits_simps elim!: exec_elim split: if_splits)

interpretation dump_func_info: fw_command sfc7120_mcdi_dump_func_info "\<lambda>_ f. f"
  by unfold_locales (auto simp: sfc7120_mcdi_dump_func_info_def fits_simps elim!: exec_elim split: if_splits)

interpretation get_phy_cfg: fw_command sfc7120_mcdi_get_phy_cfg "\<lambda>_ f. f"
  by unfold_locales (auto simp: sfc7120_mcdi_get_phy_cfg_def fits_simps elim!: exec_elim split: if_splits)

interpretation set_mac: fw_command sfc7120_mcdi_set_mac "\<lambda>_ f. f"
  by unfold_locales (auto simp: sfc7120_mcdi_set_mac_def fits_simps elim!: exec_elim split: if_splits)

interpretation set_link: fw_command sfc7120_mcdi_set_link "\<lambda>_ f. f"
  by unfold_locales (auto simp: sfc7120_mcdi_set_link_def fits_simps elim!: exec_elim split: if_splits)

interpretation get_link: fw_command sfc7120_mcdi_get_link "\<lambda>_ f. f"
  by unfold_locales (auto simp: sfc7120_mcdi_get_link_def fits_simps elim!: exec_elim split: if_splits)

section \<open>Commands that set a flag\<close>

interpretation drv_attach: fw_command sfc7120_mcdi_drv_attach "\<lambda>rc f. if rc = 0 then f\<lparr>fw_attached := True\<rparr> else f"
  by unfold_locales (auto simp: sfc7120_mcdi_drv_attach_def fits_simps elim!: exec_elim split: if_splits)

interpretation alloc_vis: fw_command "\<lambda>K. sfc7120_mcdi_alloc_vis K lo hi" "\<lambda>rc f. if rc = 0 then f\<lparr>fw_vis := True\<rparr> else f" for lo hi
  by unfold_locales (auto simp: sfc7120_mcdi_alloc_vis_def fits_simps elim!: exec_elim split: if_splits)

interpretation vadaptor_alloc: fw_command sfc7120_mcdi_vadaptor_alloc "\<lambda>rc f. if rc = 0 then f\<lparr>fw_vadaptor := True\<rparr> else f"
  by unfold_locales (auto simp: sfc7120_mcdi_vadaptor_alloc_def Let_def fits_simps elim!: exec_elim split: if_splits)

interpretation init_evq: fw_command "\<lambda>K. sfc7120_mcdi_init_evq K inst paddr 512"
  "\<lambda>rc f. if rc = 0 then f\<lparr>fw_evq := True, fw_ctl_ptr := 0\<rparr> else f" for inst paddr
  by unfold_locales (auto simp: sfc7120_mcdi_init_evq_def fits_simps elim!: exec_elim split: if_splits)

interpretation init_rxq: fw_command "\<lambda>K. sfc7120_mcdi_init_rxq K inst evq paddr 512" "\<lambda>rc f. if rc = 0 then f\<lparr>fw_rxq := True\<rparr> else f" for inst evq paddr
  by unfold_locales (auto simp: sfc7120_mcdi_init_rxq_def fits_simps elim!: exec_elim split: if_splits)

interpretation init_txq: fw_command "\<lambda>K. sfc7120_mcdi_init_txq K inst evq paddr 512" "\<lambda>rc f. if rc = 0 then f\<lparr>fw_txq := True\<rparr> else f" for inst evq paddr
  by unfold_locales (auto simp: sfc7120_mcdi_init_txq_def fits_simps elim!: exec_elim split: if_splits)

interpretation filter_insert: fw_command sfc7120_mcdi_filter_insert "\<lambda>rc f. if rc = 0 then f\<lparr>fw_filter := True\<rparr> else f"
  by unfold_locales (auto simp: sfc7120_mcdi_filter_insert_def fits_simps Let_def elim!: exec_elim split: if_splits)

section \<open>Commands of teardown\<close>

locale teardown_command = fw_command run eff for run eff +
  fixes due :: "fw \<Rightarrow> bool" and req :: "softc \<Rightarrow> u32 \<times> u8 list"
  assumes run_sends: "mcdi_ready s \<Longrightarrow> mcdi_initialized s \<Longrightarrow> run K s = Some (rc, s') \<Longrightarrow>
      mc_requests (io s') = mc_requests (io s) @ (if due (fwside s) then [req s] else [])"
begin

lemma teardown_step:
  assumes "mcdi_ready s" "mcdi_initialized s"
  obtains rc s' where "run K s = Some (rc, s')" "hostside s' = hostside s" "mcdi_ready s'" "mcdi_initialized s'"
    "fwside s' = eff rc (fwside s)" "mc_requests (io s') = mc_requests (io s) @ (if due (fwside s) then [req s] else [])"
proof -
  obtain rc s' where r: "run K s = Some (rc, s')" "hostside s' = hostside s" "mcdi_ready s'" "fwside s' = eff rc (fwside s)"
    using run_fw_total [OF assms(1)] by blast
  moreover have "mcdi_initialized s'" using r(2) assms(2) by (simp add: hostside_def)
  ultimately show thesis using that run_sends [OF assms r(1)] by blast
qed

end

interpretation filter_remove: teardown_command sfc7120_mcdi_filter_remove "\<lambda>_ f. f\<lparr>fw_filter := False\<rparr>"
  fw_filter "\<lambda>s. (MC_CMD_FILTER_OP, filter_remove_in (rx_filter_handle s))"
  by unfold_locales (auto simp: sfc7120_mcdi_filter_remove_def fits_simps exec_io_def elim!: exec_elim split: if_splits)

interpretation fini_txq: teardown_command "\<lambda>K. sfc7120_mcdi_fini_txq K inst" "\<lambda>_ f. f\<lparr>fw_txq := False\<rparr>"
  fw_txq "\<lambda>_. (MC_CMD_FINI_TXQ, put32 0 inst (zeros 4))" for inst
  by unfold_locales (auto simp: sfc7120_mcdi_fini_txq_def fits_simps exec_io_def elim!: exec_elim split: if_splits)

interpretation fini_rxq: teardown_command "\<lambda>K. sfc7120_mcdi_fini_rxq K inst" "\<lambda>_ f. f\<lparr>fw_rxq := False\<rparr>"
  fw_rxq "\<lambda>_. (MC_CMD_FINI_RXQ, put32 0 inst (zeros 4))" for inst
  by unfold_locales (auto simp: sfc7120_mcdi_fini_rxq_def fits_simps exec_io_def elim!: exec_elim split: if_splits)

interpretation fini_data_evq: teardown_command "\<lambda>K. sfc7120_mcdi_fini_evq K 1"
  "\<lambda>rc f. if rc = EBUSY then f else f\<lparr>fw_data_evq := False\<rparr>" fw_data_evq "\<lambda>_. (MC_CMD_FINI_EVQ, put32 0 1 (zeros 4))"
  by unfold_locales
    (auto simp: sfc7120_mcdi_fini_evq_def evq_done_def fits_simps exec_io_def intro: fini_evq.run_total [simplified]
      elim!: exec_elim split: if_splits)

interpretation fini_ctl_evq: teardown_command "\<lambda>K. sfc7120_mcdi_fini_evq K 0"
  "\<lambda>rc f. if rc = EBUSY then f else f\<lparr>fw_evq := False\<rparr>" fw_evq "\<lambda>_. (MC_CMD_FINI_EVQ, put32 0 0 (zeros 4))"
  by unfold_locales
    (auto simp: sfc7120_mcdi_fini_evq_def evq_done_def fits_simps exec_io_def intro: fini_evq.run_total [simplified]
      elim!: exec_elim split: if_splits)

interpretation vadaptor_free: teardown_command sfc7120_mcdi_vadaptor_free "\<lambda>_ f. f\<lparr>fw_vadaptor := False\<rparr>"
  fw_vadaptor "\<lambda>_. (MC_CMD_VADAPTOR_FREE, put32 0 EVB_PORT_ID_ASSIGNED (zeros 4))"
  by unfold_locales (auto simp: sfc7120_mcdi_vadaptor_free_def fits_simps exec_io_def elim!: exec_elim split: if_splits)

interpretation free_vis: teardown_command sfc7120_mcdi_free_vis "\<lambda>rc f. if rc = 0 then f\<lparr>fw_vis := False\<rparr> else f"
  fw_vis "\<lambda>_. (MC_CMD_FREE_VIS, [])"
  by unfold_locales (auto simp: sfc7120_mcdi_free_vis_def fits_simps exec_io_def elim!: exec_elim split: if_splits)

interpretation drv_detach: teardown_command sfc7120_mcdi_drv_detach "\<lambda>rc f. if rc = 0 then f\<lparr>fw_attached := False\<rparr> else f"
  fw_attached "\<lambda>_. (MC_CMD_DRV_ATTACH, drv_attach_in 0)"
  by unfold_locales (auto simp: sfc7120_mcdi_drv_detach_def fits_simps exec_io_def elim!: exec_elim split: if_splits)

end
