(* ===== verification/Lifecycle.thy ===== *)
theory Lifecycle
  imports Firmware
begin

text \<open>
  The life of a device instance (\<open>sfc7120.c\<close>): hardware bring-up and teardown, \<open>probe\<close>, \<open>attach\<close>
  with its failure labels, \<open>detach\<close>.  Every path of \<open>attach\<close> either ends with the device ready for
  service or gives back everything it took.
\<close>

section \<open>Bring-up of the hardware\<close>

text \<open>The C idiom \<open>error = f(sc); if (error != 0) goto label;\<close>.\<close>

definition attempt ::
  "(softc \<Rightarrow> (int \<times> softc) option) \<Rightarrow> (int \<Rightarrow> softc \<Rightarrow> (int \<times> softc) option) \<Rightarrow> (softc \<Rightarrow> (int \<times> softc) option)
   \<Rightarrow> softc \<Rightarrow> (int \<times> softc) option" where
  "attempt f label rest s = do {
     (error, s) \<leftarrow> f s;
     if error \<noteq> 0 then label error s else rest s }"

text \<open>The link poll: up to \<open>n\<close> \<open>GET_LINK\<close> commands, 100 ms apart, until the link is up.\<close>

fun link_poll :: "env \<Rightarrow> nat \<Rightarrow> softc \<Rightarrow> (int \<times> softc) option" where
  "link_poll K 0 s = Some (0, s)"
| "link_poll K (Suc n) s = do {
     (error, s) \<leftarrow> sfc7120_mcdi_get_link K s;
     if error \<noteq> 0 then Some (error, s)
     else if link_up s then Some (0, s)
     else link_poll K n (emit (Delay 100000) s) }"

definition hw_init_fail_mcdi :: "int \<Rightarrow> softc \<Rightarrow> (int \<times> softc) option" where
  "hw_init_fail_mcdi error s = do {
     s \<leftarrow> sfc7120_mcdi_fini s;
     Some (error, s) }"

definition hw_init_fail_attach :: "env \<Rightarrow> int \<Rightarrow> softc \<Rightarrow> (int \<times> softc) option" where
  "hw_init_fail_attach K error s = do {
     (_, s) \<leftarrow> sfc7120_mcdi_drv_detach K s;
     hw_init_fail_mcdi error s }"

text \<open>From \<open>GET_PHY_CFG\<close> to the link poll, from \<open>GET_CAPABILITIES\<close> on, and the whole.\<close>

definition hw_init_link :: "env \<Rightarrow> softc \<Rightarrow> (int \<times> softc) option" where
  "hw_init_link K =
     attempt (sfc7120_mcdi_get_phy_cfg K) (hw_init_fail_attach K)
     (attempt (sfc7120_mcdi_set_mac K) (hw_init_fail_attach K)
     (attempt (sfc7120_mcdi_set_link K) (hw_init_fail_attach K)
     (attempt (link_poll K 30) (hw_init_fail_attach K) (\<lambda>s. Some (0, s)))))"

definition hw_init_vis :: "env \<Rightarrow> softc \<Rightarrow> (int \<times> softc) option" where
  "hw_init_vis K s = do {
     (_, s) \<leftarrow> sfc7120_mcdi_dump_func_info K s;
     attempt (sfc7120_mcdi_alloc_vis K 1 32) (\<lambda>error s. hw_init_fail_attach K error (sfc7120_mcdi_log_mc_state K s))
     (attempt (sfc7120_mcdi_vadaptor_alloc K) (\<lambda>error s. hw_init_fail_attach K error (sfc7120_mcdi_log_mc_state K s))
     (hw_init_link K)) s }"

definition sfc7120_hw_init :: "env \<Rightarrow> softc \<Rightarrow> (int \<times> softc) option" where
  "sfc7120_hw_init K =
     attempt (sfc7120_mcdi_init K) (\<lambda>error s. Some (error, s))
     (attempt (sfc7120_mcdi_get_version K) hw_init_fail_mcdi
     (attempt (sfc7120_mcdi_drv_attach K) hw_init_fail_mcdi
     (attempt (sfc7120_mcdi_clear_assertions K) hw_init_fail_mcdi
     (attempt (sfc7120_mcdi_entity_reset K) (hw_init_fail_attach K)
     (attempt (sfc7120_mcdi_get_mac K) (hw_init_fail_attach K)
     (hw_init_vis K))))))"

definition sfc7120_hw_teardown :: "env \<Rightarrow> softc \<Rightarrow> softc option" where
  "sfc7120_hw_teardown K s = do {
     (_, s) \<leftarrow> sfc7120_mcdi_filter_remove K s;
     (_, s) \<leftarrow> sfc7120_mcdi_fini_txq K 0 s;
     (_, s) \<leftarrow> sfc7120_mcdi_fini_rxq K 0 s;
     (_, s) \<leftarrow> sfc7120_mcdi_fini_evq K 1 s;
     (_, s) \<leftarrow> sfc7120_mcdi_fini_evq K 0 s;
     (_, s) \<leftarrow> sfc7120_mcdi_vadaptor_free K s;
     (_, s) \<leftarrow> sfc7120_mcdi_free_vis K s;
     (_, s) \<leftarrow> sfc7120_mcdi_drv_detach K s;
     sfc7120_mcdi_fini s }"

section \<open>Probe\<close>

definition sfc7120_fbsd_devs :: "(u16 \<times> u16 \<times> string) list" where
  "sfc7120_fbsd_devs =
     [(0x1924, 0x0903, ''AMD Solarflare SFC9120 10G Ethernet Controller''),
      (0x1924, 0x0903, ''AMD Solarflare SFC9120 10G Ethernet Controller'')]"

text \<open>The result of the probe and the description it sets; \<open>BUS_PROBE_DEFAULT\<close> is -20.\<close>

definition sfc7120_fbsd_probe :: "env \<Rightarrow> int \<times> string option" where
  "sfc7120_fbsd_probe K =
     (case find (\<lambda>(vendor, device, desc). pci_vendor K = vendor \<and> pci_device K = device) sfc7120_fbsd_devs of
        Some (_, _, desc) \<Rightarrow> (-20, Some desc)
      | None \<Rightarrow> (ENXIO, None))"

section \<open>Attach\<close>

text \<open>The region table; the order is that of the enum.  Fields attach does not assign are zero.\<close>

definition smem_dma :: "sfc7120_vm_map_type \<Rightarrow> u64 \<Rightarrow> nat \<Rightarrow> shared_mem_region" where
  "smem_dma ty addr len =
     \<lparr>sm_type = map_type_code ty, sm_is_physical = False, sm_addr = addr, sm_paddr = 0, sm_offset = 0,
      sm_len = of_nat len, sm_mapped = False, sm_is_sliced = False, sm_slices = [], sm_slice_def_len = 0\<rparr>"

definition smem_mmio :: "u64 \<Rightarrow> u64 \<Rightarrow> shared_mem_region" where
  "smem_mmio start sz =
     \<lparr>sm_type = map_type_code SFC7120_MMIO_REGION, sm_is_physical = True, sm_addr = 0, sm_paddr = start, sm_offset = 0,
      sm_len = sz, sm_mapped = False, sm_is_sliced = True, sm_slices = sfc7120_reg_slices,
      sm_slice_def_len = SFC7120_MMIO_SLICE_COUNT\<rparr>"

definition attach_smem :: "softc \<Rightarrow> shared_mem_region list option" where
  "attach_smem s = do {
     (start, sz) \<leftarrow> mem_resource s;
     Some [smem_dma SFC7120_TX_BUFFER (dm_vaddr (dma s DMA_TX_BUF)) (SFC7120_NUM_TX_DESC * SFC7120_TX_BUFFER_SIZE),
           smem_dma SFC7120_RX_BUFFER (dm_vaddr (dma s DMA_RX_BUF)) (SFC7120_NUM_RX_DESC * SFC7120_RX_BUFFER_SIZE),
           smem_mmio start sz,
           smem_dma SFC7120_TX_DESC_RING (dm_vaddr (dma s DMA_TX_DESC)) (SFC7120_NUM_TX_DESC * SFC7120_TX_DESC_SIZE),
           smem_dma SFC7120_RX_DESC_RING (dm_vaddr (dma s DMA_RX_DESC)) (SFC7120_NUM_RX_DESC * SFC7120_RX_DESC_SIZE),
           smem_dma SFC7120_EVQ_RING (dm_vaddr (dma s DMA_DATA_EVQ)) (SFC7120_NUM_EVQ_ENTRY * SFC7120_EVQ_ENTRY_SIZE)] }"

text \<open>The labels \<open>fail_lock\<close>, \<open>fail_bar\<close>, \<open>fail_hw\<close>, \<open>fail_dma\<close>.\<close>

definition attach_fail_lock :: "int \<Rightarrow> softc \<Rightarrow> (int \<times> softc) option" where
  "attach_fail_lock error s = do {
     m \<leftarrow> mtx_destroy (rx_mtx s);
     let s = s\<lparr>rx_mtx := m\<rparr>;
     m \<leftarrow> mtx_destroy (sc_mtx s);
     Some (error, s\<lparr>sc_mtx := m\<rparr>) }"

definition attach_fail_bar :: "int \<Rightarrow> softc \<Rightarrow> (int \<times> softc) option" where
  "attach_fail_bar error s = do {
     s \<leftarrow> release KBusMaster s;
     s \<leftarrow> release KBar2 s;
     attach_fail_lock error s }"

definition attach_fail_hw :: "env \<Rightarrow> int \<Rightarrow> softc \<Rightarrow> (int \<times> softc) option" where
  "attach_fail_hw K error s = do {
     s \<leftarrow> sfc7120_hw_teardown K s;
     attach_fail_bar error s }"

definition attach_fail_dma :: "env \<Rightarrow> int \<Rightarrow> softc \<Rightarrow> (int \<times> softc) option" where
  "attach_fail_dma K error s = do {
     s \<leftarrow> sfc7120_intr_teardown s;
     s \<leftarrow> sfc7120_hw_teardown K s;
     s \<leftarrow> sfc7120_free_dma_resources s;
     attach_fail_bar error s }"

text \<open>Steps 4 to 7: the cdev, the region table, the CAPIO state.\<close>

definition attach_publish :: "env \<Rightarrow> softc \<Rightarrow> (int \<times> softc) option" where
  "attach_publish K s = do {
     let (made, s) = make_dev_capio K s;
     let s = s\<lparr>cdev := made\<rparr>;
     if \<not> made then attach_fail_dma K ENOMEM s
     else do {
       smem \<leftarrow> attach_smem s;
       s \<leftarrow> init_capio_sc K smem s;
       let s = s\<lparr>device_attached := True\<rparr>;
       let (_, s) = sfc7120_dump_regs K s;
       Some (0, s) } }"

text \<open>From the receive buffers to the receive filter, and the queues before that.\<close>

definition attach_txq :: "env \<Rightarrow> softc \<Rightarrow> (int \<times> softc) option" where
  "attach_txq K s = do {
     s \<leftarrow> sfc7120_post_rx_buffers s;
     attempt (\<lambda>s. sfc7120_mcdi_init_txq K 0 1 (dm_paddr (dma s DMA_TX_DESC)) SFC7120_NUM_TX_DESC s) (attach_fail_dma K)
     (attempt (sfc7120_mcdi_filter_insert K) (attach_fail_dma K)
     (attach_publish K)) s }"

definition attach_rxq :: "env \<Rightarrow> softc \<Rightarrow> (int \<times> softc) option" where
  "attach_rxq K s = do {
     let s = s\<lparr>data_evq_initialized := True\<rparr>;
     attempt (\<lambda>s. sfc7120_mcdi_init_rxq K 0 1 (dm_paddr (dma s DMA_RX_DESC)) SFC7120_NUM_RX_DESC s) (attach_fail_dma K)
     (attach_txq K) s }"

definition attach_data_evq :: "env \<Rightarrow> softc \<Rightarrow> (int \<times> softc) option" where
  "attach_data_evq K s = do {
     let s = s\<lparr>evq_initialized := True\<rparr>;
     attempt (\<lambda>s. sfc7120_mcdi_init_evq K 1 (dm_paddr (dma s DMA_DATA_EVQ)) SFC7120_NUM_EVQ_ENTRY s) (attach_fail_dma K)
     (attach_rxq K) s }"

definition attach_queues :: "env \<Rightarrow> softc \<Rightarrow> (int \<times> softc) option" where
  "attach_queues K =
     attempt (\<lambda>s. sfc7120_mcdi_init_evq K 0 (dm_paddr (dma s DMA_EVQ)) SFC7120_NUM_EVQ_ENTRY s) (attach_fail_dma K)
     (attach_data_evq K)"

definition sfc7120_fbsd_attach :: "env \<Rightarrow> softc \<Rightarrow> (int \<times> softc) option" where
  "sfc7120_fbsd_attach K s = do {
     let s = s\<lparr>dying := False, device_attached := False\<rparr>;
     m \<leftarrow> mtx_init (sc_mtx s);
     let s = s\<lparr>sc_mtx := m\<rparr>;
     m \<leftarrow> mtx_init (rx_mtx s);
     let s = s\<lparr>rx_mtx := m\<rparr>;
     (case alloc_resource K (io s) KBar2 of
        None \<Rightarrow> attach_fail_lock ENXIO ((emit (Call ''bus_alloc_resource_any'') s)\<lparr>mem_resource := None\<rparr>)
      | Some r \<Rightarrow> do {
          let s = grab KBusMaster ((grab KBar2 s)\<lparr>mem_resource := Some r\<rparr>);
          attempt (sfc7120_hw_init K) attach_fail_bar
          (attempt (sfc7120_alloc_dma_resources K) (attach_fail_hw K)
          (attempt (sfc7120_intr_setup K) (attach_fail_dma K)
          (attach_queues K))) s }) }"

section \<open>Detach\<close>

definition sfc7120_fbsd_detach :: "env \<Rightarrow> softc \<Rightarrow> (int \<times> softc) option" where
  "sfc7120_fbsd_detach K s = do {
     s \<leftarrow> SFC7120_LOCK s;
     let s = s\<lparr>device_attached := False, dying := True\<rparr>;
     s \<leftarrow> SFC7120_UNLOCK s;
     s \<leftarrow> (if cdev s then do {
             s \<leftarrow> release KCdev (emit (Call ''modmap_unregister_vaddr_callback'') s);
             Some (s\<lparr>cdev := False\<rparr>) } else Some s);
     s \<leftarrow> sfc7120_intr_teardown s;
     s \<leftarrow> sfc7120_hw_teardown K s;
     s \<leftarrow> sfc7120_free_dma_resources s;
     s \<leftarrow> (if mem_resource s \<noteq> None then do {
             s \<leftarrow> release KBar2 s;
             Some (s\<lparr>mem_resource := None\<rparr>) } else Some s);
     s \<leftarrow> release KBusMaster s;
     s \<leftarrow> capio_destroy s;
     m \<leftarrow> mtx_destroy (rx_mtx s);
     let s = s\<lparr>rx_mtx := m\<rparr>;
     m \<leftarrow> mtx_destroy (sc_mtx s);
     Some (0, s\<lparr>sc_mtx := m\<rparr>) }"

section \<open>Chains of attempts\<close>

text \<open>Reasoning about one link of a chain: the stage returns in some state, and both ways on lead to \<open>Q\<close>.\<close>

lemma attempt_rule:
  assumes "\<exists>e t. f s = Some (e, t) \<and> H e t"
    "\<And>e t. e \<noteq> 0 \<Longrightarrow> H e t \<Longrightarrow> \<exists>e' t'. label e t = Some (e', t') \<and> Q e' t'"
    "\<And>t. H 0 t \<Longrightarrow> \<exists>e' t'. rest t = Some (e', t') \<and> Q e' t'"
  shows "\<exists>e' t'. attempt f label rest s = Some (e', t') \<and> Q e' t'"
proof -
  obtain e t where t: "f s = Some (e, t)" "H e t" using assms(1) by blast
  show ?thesis
  proof (cases "e = 0")
    case True
    with t assms(3) [of t] show ?thesis by (simp add: attempt_def)
  next
    case False
    with t assms(2) [of e t] show ?thesis by (simp add: attempt_def)
  qed
qed

section \<open>Teardown of the hardware\<close>

text \<open>The commands teardown sends, given the flags: filter first, then the queues that refer to the
  event queues, the data event queue before the control one, the vAdaptor before the VIs, the
  driver attachment last.\<close>

definition teardown_requests :: "softc \<Rightarrow> (u32 \<times> u8 list) list" where
  "teardown_requests s =
     (if rx_filter_inserted s then [(MC_CMD_FILTER_OP, filter_remove_in (rx_filter_handle s))] else [])
     @ (if txq_initialized s then [(MC_CMD_FINI_TXQ, put32 0 0 (zeros 4))] else [])
     @ (if rxq_initialized s then [(MC_CMD_FINI_RXQ, put32 0 0 (zeros 4))] else [])
     @ (if data_evq_initialized s then [(MC_CMD_FINI_EVQ, put32 0 1 (zeros 4))] else [])
     @ (if evq_initialized s then [(MC_CMD_FINI_EVQ, put32 0 0 (zeros 4))] else [])
     @ (if vadaptor_allocated s then [(MC_CMD_VADAPTOR_FREE, put32 0 EVB_PORT_ID_ASSIGNED (zeros 4))] else [])
     @ (if vis_allocated s then [(MC_CMD_FREE_VIS, [])] else [])
     @ (if drv_attached s then [(MC_CMD_DRV_ATTACH, drv_attach_in 0)] else [])"

definition hw_down :: "softc \<Rightarrow> softc \<Rightarrow> bool" where
  "hw_down s s' \<longleftrightarrow>
     \<not> mcdi_initialized s' \<and> mcdi_mtx s' = MtxAbsent \<and> kside s' = kside s \<and> dma_inv s'
     \<and> kres s' = kres s - dmabuf_res DMA_MCDI \<and> dma s' = (dma s)(DMA_MCDI := no_dmabuf)"

lemma hw_down_host:
  assumes "hostside s = hostside t" "hw_down s s'"
  shows "hw_down t s'"
  using assms by (simp add: hw_down_def hostside_def)

lemma mcdi_fini_down:
  assumes "mcdi_ready s" "mcdi_initialized s" "dma_inv s"
  shows "\<exists>s'. sfc7120_mcdi_fini s = Some s' \<and> hw_down s s'"
  using mcdi_fini_total [OF assms(3,1,2)] by (auto simp: hw_down_def)

lemma mcdi_fini_io: "sfc7120_mcdi_fini s = Some s' \<Longrightarrow> mc_requests (io s') = mc_requests (io s) \<and> fwside s' = fwside s"
  by (auto simp: sfc7120_mcdi_fini_def sfc7120_mcdi_free_buf_def release_def dma_upd_def emit_def fwside_def
      bind_eq_Some_conv split: if_splits)

lemma hw_teardown_total:
  assumes "mcdi_ready s" "mcdi_initialized s" "dma_inv s"
  shows "\<exists>s'. sfc7120_hw_teardown K s = Some s' \<and> hw_down s s'
    \<and> mc_requests (io s') = mc_requests (io s) @ teardown_requests s"
proof -
  obtain r1 s1 where s1: "sfc7120_mcdi_filter_remove K s = Some (r1, s1)" "hostside s1 = hostside s" "mcdi_ready s1" "mcdi_initialized s1"
      "fwside s1 = (fwside s)\<lparr>fw_filter := False\<rparr>"
      "mc_requests (io s1) = mc_requests (io s) @ (if fw_filter (fwside s) then [(MC_CMD_FILTER_OP, filter_remove_in (rx_filter_handle s))] else [])"
    by (rule filter_remove.teardown_step [OF assms(1,2)])
  obtain r2 s2 where s2: "sfc7120_mcdi_fini_txq K 0 s1 = Some (r2, s2)" "hostside s2 = hostside s1" "mcdi_ready s2" "mcdi_initialized s2"
      "fwside s2 = (fwside s1)\<lparr>fw_txq := False\<rparr>"
      "mc_requests (io s2) = mc_requests (io s1) @ (if fw_txq (fwside s1) then [(MC_CMD_FINI_TXQ, put32 0 0 (zeros 4))] else [])"
    by (rule fini_txq.teardown_step [OF s1(3,4)])
  obtain r3 s3 where s3: "sfc7120_mcdi_fini_rxq K 0 s2 = Some (r3, s3)" "hostside s3 = hostside s2" "mcdi_ready s3" "mcdi_initialized s3"
      "fwside s3 = (fwside s2)\<lparr>fw_rxq := False\<rparr>"
      "mc_requests (io s3) = mc_requests (io s2) @ (if fw_rxq (fwside s2) then [(MC_CMD_FINI_RXQ, put32 0 0 (zeros 4))] else [])"
    by (rule fini_rxq.teardown_step [OF s2(3,4)])
  obtain r4 s4 where s4: "sfc7120_mcdi_fini_evq K 1 s3 = Some (r4, s4)" "hostside s4 = hostside s3" "mcdi_ready s4" "mcdi_initialized s4"
      "fwside s4 = (if r4 = EBUSY then fwside s3 else (fwside s3)\<lparr>fw_data_evq := False\<rparr>)"
      "mc_requests (io s4) = mc_requests (io s3) @ (if fw_data_evq (fwside s3) then [(MC_CMD_FINI_EVQ, put32 0 1 (zeros 4))] else [])"
    by (rule fini_data_evq.teardown_step [OF s3(3,4)])
  obtain r5 s5 where s5: "sfc7120_mcdi_fini_evq K 0 s4 = Some (r5, s5)" "hostside s5 = hostside s4" "mcdi_ready s5" "mcdi_initialized s5"
      "fwside s5 = (if r5 = EBUSY then fwside s4 else (fwside s4)\<lparr>fw_evq := False\<rparr>)"
      "mc_requests (io s5) = mc_requests (io s4) @ (if fw_evq (fwside s4) then [(MC_CMD_FINI_EVQ, put32 0 0 (zeros 4))] else [])"
    by (rule fini_ctl_evq.teardown_step [OF s4(3,4)])
  obtain r6 s6 where s6: "sfc7120_mcdi_vadaptor_free K s5 = Some (r6, s6)" "hostside s6 = hostside s5" "mcdi_ready s6" "mcdi_initialized s6"
      "fwside s6 = (fwside s5)\<lparr>fw_vadaptor := False\<rparr>"
      "mc_requests (io s6) = mc_requests (io s5) @ (if fw_vadaptor (fwside s5) then [(MC_CMD_VADAPTOR_FREE, put32 0 EVB_PORT_ID_ASSIGNED (zeros 4))] else [])"
    by (rule vadaptor_free.teardown_step [OF s5(3,4)])
  obtain r7 s7 where s7: "sfc7120_mcdi_free_vis K s6 = Some (r7, s7)" "hostside s7 = hostside s6" "mcdi_ready s7" "mcdi_initialized s7"
      "fwside s7 = (if r7 = 0 then (fwside s6)\<lparr>fw_vis := False\<rparr> else fwside s6)"
      "mc_requests (io s7) = mc_requests (io s6) @ (if fw_vis (fwside s6) then [(MC_CMD_FREE_VIS, [])] else [])"
    by (rule free_vis.teardown_step [OF s6(3,4)])
  obtain r8 s8 where s8: "sfc7120_mcdi_drv_detach K s7 = Some (r8, s8)" "hostside s8 = hostside s7" "mcdi_ready s8" "mcdi_initialized s8"
      "fwside s8 = (if r8 = 0 then (fwside s7)\<lparr>fw_attached := False\<rparr> else fwside s7)"
      "mc_requests (io s8) = mc_requests (io s7) @ (if fw_attached (fwside s7) then [(MC_CMD_DRV_ATTACH, drv_attach_in 0)] else [])"
    by (rule drv_detach.teardown_step [OF s7(3,4)])
  have host: "hostside s8 = hostside s" using s1(2) s2(2) s3(2) s4(2) s5(2) s6(2) s7(2) s8(2) by simp
  obtain s' where s': "sfc7120_mcdi_fini s8 = Some s'" "hw_down s8 s'"
    using mcdi_fini_down [OF s8(3,4)] hostside_dma_inv [OF host] assms(3) by blast
  have "fw_txq (fwside s1) = txq_initialized s" "fw_rxq (fwside s2) = rxq_initialized s" "fw_data_evq (fwside s3) = data_evq_initialized s"
      "fw_evq (fwside s4) = evq_initialized s" "fw_vadaptor (fwside s5) = vadaptor_allocated s" "fw_vis (fwside s6) = vis_allocated s"
      "fw_attached (fwside s7) = drv_attached s"
    by (simp_all only: s1(5) s2(5) s3(5) s4(5) s5(5) s6(5) s7(5) split: if_split) simp_all
  then have "mc_requests (io s') = mc_requests (io s) @ teardown_requests s"
    unfolding conjunct1 [OF mcdi_fini_io [OF s'(1)]] s8(6) s7(6) s6(6) s5(6) s4(6) s3(6) s2(6) s1(6)
    by (simp only: teardown_requests_def fwside_simps append_assoc)
  moreover have "sfc7120_hw_teardown K s = Some s'"
    unfolding sfc7120_hw_teardown_def
    by (simp only: s1(1) s2(1) s3(1) s4(1) s5(1) s6(1) s7(1) s8(1) s'(1) bind.bind_lunit prod.case)
  ultimately show ?thesis using hw_down_host [OF host s'(2)] by blast
qed

section \<open>Bring-up: all or nothing\<close>

text \<open>A state in the middle of bring-up: the transport is up, the rest of the host side is as it was
  right after \<open>mcdi_init\<close>, and the flags are \<open>f\<close>.\<close>

definition midway :: "softc \<Rightarrow> fw \<Rightarrow> softc \<Rightarrow> bool" where
  "midway s1 f t \<longleftrightarrow> hostside t = hostside s1 \<and> mcdi_ready t \<and> fwside t = f"

lemma midway_io [simp]: "midway s1 f (t\<lparr>io := h\<rparr>) = midway s1 f t"
  by (simp add: midway_def mcdi_ready_def dma_mapped_def)

context fw_command
begin

lemma midway_run: "midway s1 f t \<Longrightarrow> \<exists>e t'. run K t = Some (e, t') \<and> midway s1 (eff e f) t'"
  using run_fw_total [of t K] by (auto simp: midway_def)

lemma midway_attempt:
  assumes "midway s1 f t"
    "\<And>e t'. e \<noteq> 0 \<Longrightarrow> midway s1 (eff e f) t' \<Longrightarrow> \<exists>e' t''. label e t' = Some (e', t'') \<and> Q e' t''"
    "\<And>t'. midway s1 (eff 0 f) t' \<Longrightarrow> \<exists>e' t''. rest t' = Some (e', t'') \<and> Q e' t''"
  shows "\<exists>e' t''. attempt (run K) label rest t = Some (e', t'') \<and> Q e' t''"
  by (rule attempt_rule [where H = "\<lambda>e. midway s1 (eff e f)"]) (use assms midway_run in blast)+

end

lemma link_poll_midway: "midway s1 f t \<Longrightarrow> \<exists>e t'. link_poll K n t = Some (e, t') \<and> midway s1 f t'"
proof (induction n arbitrary: t)
  case (Suc n)
  obtain e t1 where t1: "sfc7120_mcdi_get_link K t = Some (e, t1)" "midway s1 f t1"
    using get_link.midway_run [OF Suc.prems] by blast
  then show ?case using Suc.IH [of "emit (Delay 100000) t1"] by (auto simp: softc_emit)
qed simp

definition hw_init_post :: "softc \<Rightarrow> int \<Rightarrow> softc \<Rightarrow> bool" where
  "hw_init_post s e s' \<longleftrightarrow> init_post s e s'
     \<and> (e = 0 \<longrightarrow> fwside s' = (fwside s)\<lparr>fw_attached := True, fw_vis := True, fw_vadaptor := True\<rparr>)"

lemma fail_mcdi_post:
  assumes "mcdi_down s" "init_post s 0 s1" "midway s1 f t" "e \<noteq> 0"
  shows "\<exists>e' t'. hw_init_fail_mcdi e t = Some (e', t') \<and> hw_init_post s e' t'"
proof -
  have s1: "mcdi_initialized s1" "dma_inv s1" "kside s1 = kside s" "kres s1 = kres s \<union> dmabuf_res DMA_MCDI"
      "\<And>d. d \<noteq> DMA_MCDI \<Longrightarrow> dma s1 d = dma s d"
    using assms(2) by (simp_all add: init_post_def)
  have h: "hostside t = hostside s1" "mcdi_ready t" using assms(3) by (simp_all add: midway_def)
  then have "mcdi_initialized t" using s1(1) by (simp add: hostside_def)
  then obtain t' where t': "sfc7120_mcdi_fini t = Some t'" "hw_down t t'"
    using mcdi_fini_down [OF h(2)] hostside_dma_inv [OF h(1)] s1(2) by blast
  note d = hw_down_host [OF h(1) t'(2)]
  have "kres s \<inter> dmabuf_res DMA_MCDI = {}" "dma s DMA_MCDI = no_dmabuf"
    using assms(1) dma_inv_free [of s DMA_MCDI] by (simp_all add: mcdi_down_def)
  then have "kres t' = kres s" "dma t' = dma s" using d s1(4,5) by (auto simp: hw_down_def)
  then have "init_post s e t'" using d s1(3) assms(4) by (simp add: init_post_def hw_down_def)
  then show ?thesis using t'(1) assms(4) by (simp add: hw_init_fail_mcdi_def hw_init_post_def)
qed

lemma fail_attach_post:
  assumes "mcdi_down s" "init_post s 0 s1" "midway s1 f t" "e \<noteq> 0"
  shows "\<exists>e' t'. hw_init_fail_attach K e t = Some (e', t') \<and> hw_init_post s e' t'"
proof -
  obtain r t1 where "sfc7120_mcdi_drv_detach K t = Some (r, t1)" "midway s1 (if r = 0 then f\<lparr>fw_attached := False\<rparr> else f) t1"
    using drv_detach.midway_run [OF assms(3)] by blast
  with fail_mcdi_post [OF assms(1,2) this(2) assms(4)] show ?thesis by (simp add: hw_init_fail_attach_def)
qed

lemma log_mc_state_midway: "midway s1 f t \<Longrightarrow> midway s1 f (sfc7120_mcdi_log_mc_state K t)"
  by (simp add: sfc7120_mcdi_log_mc_state_def softc_io)

lemma fwside_world [simp]: "fwside (s\<lparr>mcdi_buf := m\<rparr>) = fwside s" "fwside (emit e s) = fwside s" "fwside (grab r s) = fwside s"
    "fwside (dma_upd d f s) = fwside s" "fwside (dma_zero d s) = fwside s"
  by (simp_all add: emit_def grab_def fwside_def dma_upd_def) (cases d; simp)

lemma release_fwside: "release r s = Some s' \<Longrightarrow> fwside s' = fwside s"
  by (auto simp: release_def emit_def fwside_def split: if_splits)

lemma mcdi_buf_fwside:
  "sfc7120_mcdi_alloc_buf K s = Some (e, t) \<Longrightarrow> fwside t = fwside s" "sfc7120_mcdi_free_buf s = Some t \<Longrightarrow> fwside t = fwside s"
proof -
  show "sfc7120_mcdi_alloc_buf K s = Some (e, t) \<Longrightarrow> fwside t = fwside s"
    by (auto simp: sfc7120_mcdi_alloc_buf_def dmamap_load_def Let_def bind_eq_Some_conv
        split: if_splits prod.splits dest!: release_fwside)
  show "sfc7120_mcdi_free_buf s = Some t \<Longrightarrow> fwside t = fwside s"
    by (auto simp: sfc7120_mcdi_free_buf_def release_def dma_upd_def emit_def fwside_def bind_eq_Some_conv split: if_splits)
qed

lemma mcdi_init_fwside: "sfc7120_mcdi_init K s = Some (e, t) \<Longrightarrow> fwside t = fwside s"
proof -
  have u: "fwside (x\<lparr>mcdi_mtx := m\<rparr>) = fwside x" "fwside (x\<lparr>mcdi_seq := q\<rparr>) = fwside x" "fwside (x\<lparr>mcdi_new_epoch := b\<rparr>) = fwside x"
      "fwside (x\<lparr>mcdi_prev_reboot_status := r\<rparr>) = fwside x" "fwside (x\<lparr>mcdi_initialized := b\<rparr>) = fwside x" for x m q b r
    by (simp_all add: fwside_def)
  show "sfc7120_mcdi_init K s = Some (e, t) \<Longrightarrow> fwside t = fwside s"
    by (auto simp: sfc7120_mcdi_init_def mcdi_init_fail_def Let_def bind_eq_Some_conv u SFC7120_READ_REG_def SFC7120_WRITE_REG_def
        split: if_splits dest!: mcdi_buf_fwside)
qed

lemma hw_init_link_post:
  assumes s: "mcdi_down s" and s1: "init_post s 0 s1"
    and t: "midway s1 ((fwside s)\<lparr>fw_attached := True, fw_vis := True, fw_vadaptor := True\<rparr>) t" (is "midway _ ?f _")
  shows "\<exists>e t'. hw_init_link K t = Some (e, t') \<and> hw_init_post s e t'"
proof -
  have fa: "e \<noteq> 0 \<Longrightarrow> midway s1 f u \<Longrightarrow> \<exists>e' t'. hw_init_fail_attach K e u = Some (e', t') \<and> hw_init_post s e' t'" for e f u
    by (rule fail_attach_post [OF s s1])
  have fin: "\<exists>e' t'. Some (0, u) = Some (e', t') \<and> hw_init_post s e' t'" if "midway s1 ?f u" for u
    using that s1 hostside_dma_inv [of u s1] by (auto simp: midway_def hw_init_post_def init_post_def hostside_def)
  show ?thesis
    unfolding hw_init_link_def
    by (rule get_phy_cfg.midway_attempt [OF t], erule (1) fa,
        rule set_mac.midway_attempt, assumption, erule (1) fa,
        rule set_link.midway_attempt, assumption, erule (1) fa,
        rule attempt_rule [where H = "\<lambda>_. midway s1 ?f"], erule link_poll_midway, erule (1) fa, erule fin)
qed

lemma hw_init_vis_post:
  assumes s: "mcdi_down s" and s1: "init_post s 0 s1" and t: "midway s1 ((fwside s)\<lparr>fw_attached := True\<rparr>) t"
  shows "\<exists>e t'. hw_init_vis K t = Some (e, t') \<and> hw_init_post s e t'"
proof -
  have fa: "e \<noteq> 0 \<Longrightarrow> midway s1 f u \<Longrightarrow>
      \<exists>e' t'. hw_init_fail_attach K e (sfc7120_mcdi_log_mc_state K u) = Some (e', t') \<and> hw_init_post s e' t'" for e f u
    by (rule fail_attach_post [OF s s1 log_mc_state_midway])
  have ok: "midway s1 ((fwside s)\<lparr>fw_attached := True\<rparr>) u \<Longrightarrow> \<exists>e t'. attempt (sfc7120_mcdi_alloc_vis K 1 32) (\<lambda>error s. hw_init_fail_attach K error (sfc7120_mcdi_log_mc_state K s))
     (attempt (sfc7120_mcdi_vadaptor_alloc K) (\<lambda>error s. hw_init_fail_attach K error (sfc7120_mcdi_log_mc_state K s))
     (hw_init_link K)) u = Some (e, t') \<and> hw_init_post s e t'" for u
    by (rule alloc_vis.midway_attempt, assumption, erule (1) fa,
        rule vadaptor_alloc.midway_attempt, assumption, erule (1) fa, rule hw_init_link_post [OF s s1]) simp
  obtain e u where "sfc7120_mcdi_dump_func_info K t = Some (e, u)" "midway s1 ((fwside s)\<lparr>fw_attached := True\<rparr>) u"
    using dump_func_info.midway_run [OF t] by blast
  with ok [OF this(2)] show ?thesis by (simp add: hw_init_vis_def)
qed

lemma hw_init_total:
  assumes "mcdi_env_ok K" "mcdi_down s"
  shows "\<exists>e s'. sfc7120_hw_init K s = Some (e, s') \<and> hw_init_post s e s'"
proof -
  have init: "\<exists>e t. sfc7120_mcdi_init K s = Some (e, t) \<and> init_post s e t \<and> fwside t = fwside s"
    using mcdi_init_total [of K s] mcdi_init_fwside [of K s] assms by (auto simp: mcdi_env_ok_def mcdi_down_def)
  show ?thesis
    unfolding sfc7120_hw_init_def
  proof (rule attempt_rule [where H = "\<lambda>e t. init_post s e t \<and> fwside t = fwside s"])
    show "\<exists>e t. sfc7120_mcdi_init K s = Some (e, t) \<and> init_post s e t \<and> fwside t = fwside s" by (rule init)
  next
    fix e t assume "e \<noteq> 0" "init_post s e t \<and> fwside t = fwside s"
    then show "\<exists>e' t'. Some (e, t) = Some (e', t') \<and> hw_init_post s e' t'" by (simp add: hw_init_post_def)
  next
    fix s1 assume s1: "init_post s 0 s1 \<and> fwside s1 = fwside s"
    have fm: "e \<noteq> 0 \<Longrightarrow> midway s1 f u \<Longrightarrow> \<exists>e' t'. hw_init_fail_mcdi e u = Some (e', t') \<and> hw_init_post s e' t'" for e f u
      by (rule fail_mcdi_post [OF assms(2) conjunct1 [OF s1]])
    have fa: "e \<noteq> 0 \<Longrightarrow> midway s1 f u \<Longrightarrow> \<exists>e' t'. hw_init_fail_attach K e u = Some (e', t') \<and> hw_init_post s e' t'" for e f u
      by (rule fail_attach_post [OF assms(2) conjunct1 [OF s1]])
    have m0: "midway s1 (fwside s) s1" using s1 by (simp add: midway_def init_post_def)
    show "\<exists>e' t'. attempt (sfc7120_mcdi_get_version K) hw_init_fail_mcdi
     (attempt (sfc7120_mcdi_drv_attach K) hw_init_fail_mcdi
     (attempt (sfc7120_mcdi_clear_assertions K) hw_init_fail_mcdi
     (attempt (sfc7120_mcdi_entity_reset K) (hw_init_fail_attach K)
     (attempt (sfc7120_mcdi_get_mac K) (hw_init_fail_attach K)
     (hw_init_vis K))))) s1 = Some (e', t') \<and> hw_init_post s e' t'"
      by (rule get_version.midway_attempt [OF m0], erule (1) fm,
          rule drv_attach.midway_attempt, assumption, erule (1) fm,
          rule clear_assertions.midway_attempt, assumption, erule (1) fm,
          rule entity_reset.midway_attempt, assumption, erule (1) fa,
          rule get_mac.midway_attempt, assumption, erule (1) fa,
          rule hw_init_vis_post [OF assms(2) conjunct1 [OF s1]]) simp
  qed
qed

section \<open>Seeding the receive ring\<close>

lemma post_rx_loop_eq:
  "dma_mapped DMA_RX_DESC s \<Longrightarrow> list_all (\<lambda>i. i < 512) is \<Longrightarrow> \<exists>h. list_all quiet_event h \<and> post_rx_loop is s =
     Some (s\<lparr>io := h @ io s, rx_desc_ring := (\<lambda>i. if i \<in> set is then ef10_desc 2048 (rx_slot_pa i s) else rx_desc_ring s i)\<rparr>)"
proof (induction "is" arbitrary: s)
  case Nil
  then show ?case by (intro exI [of _ "[]"]) simp
next
  case (Cons i js)
  let ?v = "ef10_desc 2048 (rx_slot_pa i s)"
  let ?t = "s\<lparr>io := RxDescStore i ?v # io s, rx_desc_ring := (rx_desc_ring s)(i := ?v)\<rparr>"
  have w: "rx_desc_write i ?v s = Some ?t" using Cons.prems by (simp add: rx_desc_write_def softc_emit)
  have pa: "rx_slot_pa j ?t = rx_slot_pa j s" for j by (simp add: rx_slot_pa_def)
  have "dma_mapped DMA_RX_DESC ?t" using Cons.prems(1) by (simp add: dma_mapped_def)
  then obtain h where h: "list_all quiet_event h" "post_rx_loop js ?t =
      Some (?t\<lparr>io := h @ io ?t, rx_desc_ring := (\<lambda>k. if k \<in> set js then ef10_desc 2048 (rx_slot_pa k ?t) else rx_desc_ring ?t k)\<rparr>)"
    using Cons.IH [of ?t] Cons.prems(2) by auto
  have r: "(\<lambda>k. if k \<in> set js then ef10_desc 2048 (rx_slot_pa k s) else ((rx_desc_ring s)(i := ?v)) k) =
      (\<lambda>k. if k \<in> set (i # js) then ef10_desc 2048 (rx_slot_pa k s) else rx_desc_ring s k)"
    by (rule ext) simp
  have rr: "rx_desc_ring ?t = (rx_desc_ring s)(i := ?v)" by simp
  note h' = h(2) [unfolded pa rr r]
  show ?case
    using w h(1) h' by (intro exI [of _ "h @ [RxDescStore i ?v]"]) simp
qed

lemma post_rx_buffers_eq:
  assumes "dma_mapped DMA_RX_DESC s"
  shows "\<exists>h. sfc7120_post_rx_buffers s = Some (s\<lparr>io := h, rx_head := 0,
      rx_desc_ring := (\<lambda>i. if i < 512 then ef10_desc 2048 (rx_slot_pa i s) else rx_desc_ring s i)\<rparr>)
    \<and> reg_writes h = reg_writes (io s) @ [(SFC7120_REG_DATA_RX_DESC_DBL, 511)] \<and> mc_requests h = mc_requests (io s)"
proof -
  obtain h where h: "list_all quiet_event h" "post_rx_loop [0..<512] s =
     Some (s\<lparr>io := h @ io s, rx_desc_ring := (\<lambda>i. if i \<in> set [0..<512] then ef10_desc 2048 (rx_slot_pa i s) else rx_desc_ring s i)\<rparr>)"
    using post_rx_loop_eq [OF assms, of "[0..<512]"] by (auto simp: list_all_iff)
  then show ?thesis
    using quiet_append [OF h(1)]
    by (intro exI [of _ "RegWrite SFC7120_REG_DATA_RX_DESC_DBL 511 # h @ io s"])
       (simp add: sfc7120_post_rx_buffers_def softc_io)
qed

section \<open>States of attach\<close>

text \<open>A device instance the driver does not hold anything for, and one that is ready to serve.\<close>

definition idle :: "softc \<Rightarrow> bool" where
  "idle s \<longleftrightarrow> kres s = {} \<and> dma s = (\<lambda>_. no_dmabuf) \<and> \<not> mcdi_initialized s \<and> mcdi_mtx s = MtxAbsent
     \<and> sc_mtx s = MtxAbsent \<and> rx_mtx s = MtxAbsent \<and> cap_mtx (capio_sc s) = MtxAbsent \<and> intr_down s \<and> \<not> cdev s"

text \<open>A zero-filled softc is idle, and more: no session, no firmware state, indices at 0.\<close>

definition fresh :: "softc \<Rightarrow> bool" where
  "fresh s \<longleftrightarrow> idle s \<and> is_null (sealed_cap (capio_sc s)) \<and> is_null (original_cap (capio_sc s))
     \<and> tx_head s = 0 \<and> rx_head s = 0 \<and> data_evq_read_ptr s = 0 \<and> fwside s = no_fw"

definition serving :: "softc \<Rightarrow> bool" where
  "serving s \<longleftrightarrow> dp_ok s \<and> rx_mtx s = MtxFree \<and> mcdi_up s \<and> dma_up s \<and> intr_up s \<and> cdev s
     \<and> dev_res (kres s) = {r. \<not> session_res r} \<and> (fwside s)\<lparr>fw_ctl_ptr := 0\<rparr> = all_fw \<and> evq_read_ptr s < 512"

text \<open>In between: the part of the softc no stage before publication changes.\<close>

definition base :: "softc \<Rightarrow> bool" where
  "base t \<longleftrightarrow> cap_mtx (capio_sc t) = MtxAbsent \<and> is_null (sealed_cap (capio_sc t)) \<and> is_null (original_cap (capio_sc t))
     \<and> sc_mtx t = MtxFree \<and> rx_mtx t = MtxFree \<and> mem_resource t \<noteq> None \<and> \<not> cdev t
     \<and> tx_head t < 512 \<and> rx_head t < 512 \<and> data_evq_read_ptr t < 512"

abbreviation bar_res :: "kres set" where "bar_res \<equiv> {KBar2, KBusMaster}"

definition stage_hw :: "softc \<Rightarrow> bool" where
  "stage_hw t \<longleftrightarrow> base t \<and> intr_down t \<and> mcdi_up t \<and> kres t = bar_res \<union> dmabuf_res DMA_MCDI
     \<and> list_all (\<lambda>d. dma t d = no_dmabuf) six_bufs"

definition stage_dma :: "softc \<Rightarrow> bool" where
  "stage_dma t \<longleftrightarrow> base t \<and> intr_down t \<and> mcdi_up t \<and> dma_up t
     \<and> kres t = bar_res \<union> dmabuf_res DMA_MCDI \<union> res_of six_bufs"

definition stage_intr :: "softc \<Rightarrow> bool" where
  "stage_intr t \<longleftrightarrow> base t \<and> intr_up t \<and> mcdi_up t \<and> dma_up t
     \<and> kres t = bar_res \<union> dmabuf_res DMA_MCDI \<union> res_of six_bufs \<union> intr_res"

lemmas res_defs = dmabuf_res_def res_of_def six_bufs_def intr_res_def

lemma res_algebra:
  "bar_res \<union> dmabuf_res DMA_MCDI - dmabuf_res DMA_MCDI = bar_res"
  "bar_res \<union> dmabuf_res DMA_MCDI \<union> res_of six_bufs - dmabuf_res DMA_MCDI - res_of six_bufs = bar_res"
  "bar_res \<union> dmabuf_res DMA_MCDI \<union> res_of six_bufs \<union> intr_res - intr_res = bar_res \<union> dmabuf_res DMA_MCDI \<union> res_of six_bufs"
  "(bar_res \<union> dmabuf_res DMA_MCDI) \<inter> intr_res = {}" "(bar_res \<union> dmabuf_res DMA_MCDI \<union> res_of six_bufs) \<inter> intr_res = {}"
  "bar_res \<inter> intr_res = {}"
  by (auto simp: res_defs)

lemma all_device_res: "insert KCdev (bar_res \<union> dmabuf_res DMA_MCDI \<union> res_of six_bufs \<union> intr_res) = {r. \<not> session_res r}"
proof -
  have "r \<in> insert KCdev (bar_res \<union> dmabuf_res DMA_MCDI \<union> res_of six_bufs \<union> intr_res)" if "\<not> session_res r" for r
    using that
  proof (cases r)
    case (KTag d) then show ?thesis by (cases d) (simp_all add: res_defs)
  next
    case (KMem d) then show ?thesis by (cases d) (simp_all add: res_defs)
  next
    case (KMap d) then show ?thesis by (cases d) (simp_all add: res_defs)
  qed (simp_all add: res_defs)
  then show ?thesis by (auto simp: res_defs)
qed

lemma base_kside: "kside t = kside s \<Longrightarrow> base t = base s"
  by (simp add: base_def kside_def)

lemma intr_down_kside: "kside t = kside s \<Longrightarrow> kres t \<inter> intr_res = {} \<Longrightarrow> intr_down s \<Longrightarrow> intr_down t"
  by (simp add: intr_down_def kside_def)

lemma stage_host:
  assumes h: "hostside t = hostside s"
  shows "stage_intr s \<Longrightarrow> stage_intr t" "stage_dma s \<Longrightarrow> stage_dma t"
proof -
  from h have k: "kside t = kside s" "kres t = kres s" "dma t = dma s" "mcdi_initialized t = mcdi_initialized s"
    by (simp_all add: hostside_def)
  have "mcdi_up s \<Longrightarrow> mcdi_up t" using hostside_ready [OF h] hostside_dma_inv [OF h] k by (simp add: mcdi_up_def)
  moreover have "dma_up t = dma_up s" using k by (simp add: dma_up_def dma_inv_def dma_mapped_def)
  moreover have "intr_up t = intr_up s" "intr_down t = intr_down s" using k by (simp_all add: intr_up_def intr_down_def kside_def)
  ultimately show "stage_intr s \<Longrightarrow> stage_intr t" "stage_dma s \<Longrightarrow> stage_dma t"
    using k base_kside [OF k(1)] by (simp_all add: stage_intr_def stage_dma_def)
qed

section \<open>Failure labels\<close>

lemma fail_lock_eq:
  "rx_mtx s = MtxFree \<Longrightarrow> sc_mtx s = MtxFree \<Longrightarrow>
   attach_fail_lock e s = Some (e, s\<lparr>rx_mtx := MtxAbsent, sc_mtx := MtxAbsent\<rparr>)"
  by (simp add: attach_fail_lock_def)

lemma all_free: "dma_inv s \<Longrightarrow> kres s = bar_res \<Longrightarrow> dma s = (\<lambda>_. no_dmabuf)"
proof (rule ext)
  fix d assume "dma_inv s" "kres s = bar_res"
  then have "dmabuf_held (dma s d) d = {}" by (simp add: dma_inv_def dmabuf_res_def)
  then show "dma s d = no_dmabuf"
    by (cases "dma s d") (auto simp: dmabuf_held_def no_dmabuf_def split: if_splits)
qed

lemma fail_bar_idle:
  assumes "base s" "kres s = bar_res" "dma_inv s" "\<not> mcdi_initialized s" "mcdi_mtx s = MtxAbsent" "intr_down s"
  shows "\<exists>s'. attach_fail_bar e s = Some (e, s') \<and> idle s'"
proof -
  let ?t = "s\<lparr>io := Release KBar2 # Release KBusMaster # io s, kres := {}\<rparr>"
  have "insert KBusMaster {KBar2} - {KBusMaster} = {KBar2}" by auto
  then have "attach_fail_bar e s = attach_fail_lock e ?t"
    using assms(2) by (simp add: attach_fail_bar_def release_def softc_emit insert_commute)
  moreover have "idle (?t\<lparr>rx_mtx := MtxAbsent, sc_mtx := MtxAbsent\<rparr>)"
    using assms all_free [OF assms(3,2)] by (simp add: idle_def base_def intr_down_def)
  ultimately show ?thesis using assms(1) by (simp add: fail_lock_eq base_def)
qed

lemma fail_hw_idle:
  assumes "stage_hw s"
  shows "\<exists>s'. attach_fail_hw K e s = Some (e, s') \<and> idle s'"
proof -
  have s: "mcdi_ready s" "mcdi_initialized s" "dma_inv s" "base s" "intr_down s" "kres s = bar_res \<union> dmabuf_res DMA_MCDI"
    using assms by (simp_all add: stage_hw_def mcdi_up_def)
  obtain t where t: "sfc7120_hw_teardown K s = Some t" "hw_down s t"
    using hw_teardown_total [OF s(1-3)] by blast
  have "kres t = bar_res" using t(2) s(6) res_algebra(1) by (simp add: hw_down_def)
  moreover have "base t" "dma_inv t" "\<not> mcdi_initialized t" "mcdi_mtx t = MtxAbsent" "kside t = kside s"
    using t(2) s(4) base_kside [of t s] by (auto simp: hw_down_def)
  ultimately show ?thesis
    using fail_bar_idle [of t e] intr_down_kside [of t s] s(5) res_algebra(6) t(1) by (simp add: attach_fail_hw_def)
qed

lemma fail_dma_idle:
  assumes "stage_dma s"
  shows "\<exists>s'. attach_fail_dma K e s = Some (e, s') \<and> idle s'"
proof -
  have s: "mcdi_ready s" "mcdi_initialized s" "dma_inv s" "base s" "intr_down s"
      "kres s = bar_res \<union> dmabuf_res DMA_MCDI \<union> res_of six_bufs"
    using assms by (simp_all add: stage_dma_def mcdi_up_def)
  obtain t where t: "sfc7120_hw_teardown K s = Some t" "hw_down s t"
    using hw_teardown_total [OF s(1-3)] by blast
  then have "dma_inv t" by (simp add: hw_down_def)
  then obtain u where u: "sfc7120_free_dma_resources t = Some u" "kres u = kres t - res_of six_bufs" "dma_frame u = dma_frame t" "dma_inv u"
    using free_dmabufs_total [of t six_bufs] by (auto simp: free_dma_resources_eq)
  have ku: "kside u = kside s" using t(2) kside_dma_frame [OF u(3)] by (simp add: hw_down_def)
  have kr: "kres u = bar_res" using t(2) u(2) s(6) res_algebra(2) by (simp add: hw_down_def)
  have "\<not> mcdi_initialized u" "mcdi_mtx u = MtxAbsent" using t(2) dma_frame_mcdi [OF u(3)] by (simp_all add: hw_down_def)
  then obtain s' where "attach_fail_bar e u = Some (e, s')" "idle s'"
    using fail_bar_idle [of u e] kr u(4) base_kside [OF ku] s(4) intr_down_kside [OF ku] s(5) res_algebra(6) by auto
  then show ?thesis using t(1) u(1) by (simp add: attach_fail_dma_def intr_teardown_down [OF s(5)])
qed

lemma intr_mark_stage:
  assumes "stage_intr s"
  shows "stage_dma (intr_mark False (s\<lparr>io := h, kres := kres s - intr_res\<rparr>))"
proof -
  let ?t = "intr_mark False (s\<lparr>io := h, kres := kres s - intr_res\<rparr>)"
  have k: "kres ?t = bar_res \<union> dmabuf_res DMA_MCDI \<union> res_of six_bufs"
    using assms res_algebra(3) by (simp add: stage_intr_def intr_mark_def)
  have inv: "dma_inv ?t"
    using assms by (auto simp: stage_intr_def dma_up_def dma_inv_def intr_mark_def intr_res_def dmabuf_res_def)
  show ?thesis
    unfolding stage_dma_def
  proof (intro conjI k)
    show "base ?t" using assms by (simp add: stage_intr_def base_def intr_mark_def)
    show "intr_down ?t" by (rule intr_mark_simps)
    show "mcdi_up ?t" using assms inv by (simp add: stage_intr_def mcdi_up_def mcdi_ready_def intr_mark_def dma_mapped_def)
    show "dma_up ?t" using assms inv by (simp add: stage_intr_def dma_up_def intr_mark_def dma_mapped_def)
  qed
qed

lemma fail_dma_idle_intr:
  assumes "stage_intr s"
  shows "\<exists>s'. attach_fail_dma K e s = Some (e, s') \<and> idle s'"
proof -
  obtain h where h: "sfc7120_intr_teardown s = Some (intr_mark False (s\<lparr>io := h, kres := kres s - intr_res\<rparr>))"
    using intr_teardown_up [of s] assms by (auto simp: stage_intr_def)
  note d = intr_mark_stage [OF assms, of h]
  then have "intr_down (intr_mark False (s\<lparr>io := h, kres := kres s - intr_res\<rparr>))" by (simp add: stage_dma_def)
  from intr_teardown_down [OF this] h have "attach_fail_dma K e s = attach_fail_dma K e (intr_mark False (s\<lparr>io := h, kres := kres s - intr_res\<rparr>))"
    by (simp add: attach_fail_dma_def)
  with fail_dma_idle [OF d] show ?thesis by simp
qed

section \<open>Attach, stage by stage\<close>

lemma fwside_dma_frame: "dma_frame t = dma_frame s \<Longrightarrow> fwside t = fwside s"
proof -
  have "fwside (dma_frame u) = fwside u" for u by (simp add: fwside_def dma_frame_def)
  then show "dma_frame t = dma_frame s \<Longrightarrow> fwside t = fwside s" by metis
qed

lemma mcdi_up_frame:
  "mcdi_up s \<Longrightarrow> dma_inv t \<Longrightarrow> dma_frame t = dma_frame s \<Longrightarrow> dma t DMA_MCDI = dma s DMA_MCDI \<Longrightarrow> mcdi_up t"
  using dma_frame_mcdi [of t s] by (simp add: mcdi_up_def mcdi_ready_def dma_mapped_def)

lemma alloc_dma_stage:
  assumes "bus_dma_ok K" "stage_hw s"
  shows "\<exists>e t. sfc7120_alloc_dma_resources K s = Some (e, t) \<and> (if e = 0 then stage_dma t else stage_hw t) \<and> fwside t = fwside s
    \<and> dying t = dying s"
proof -
  have s: "base s" "intr_down s" "mcdi_up s" "dma_inv s" "kres s = bar_res \<union> dmabuf_res DMA_MCDI" "\<forall>d \<in> set six_bufs. dma s d = no_dmabuf"
    using assms(2) by (simp_all add: stage_hw_def mcdi_up_def list_all_iff)
  obtain e t where t: "sfc7120_alloc_dma_resources K s = Some (e, t)" "alloc_post six_bufs s e t"
    using alloc_dma_resources_total [OF assms(1) s(4,6)] by blast
  have fr: "dma_frame t = dma_frame s" "dma_inv t"
    using t(2) by (auto simp: alloc_post_def allocated_def restored_def split: if_splits)
  note k = kside_dma_frame [OF fr(1)]
  have mc: "dma t DMA_MCDI = dma s DMA_MCDI"
    using t(2) by (auto simp: alloc_post_def allocated_def restored_def six_bufs_def split: if_splits)
  note up = mcdi_up_frame [OF s(3) fr(2,1) mc]
  have "if e = 0 then stage_dma t else stage_hw t"
  proof (cases "e = 0")
    case True
    then have a: "allocated six_bufs s t" using t(2) by (simp add: alloc_post_def)
    then have "dma_up t" "kres t = bar_res \<union> dmabuf_res DMA_MCDI \<union> res_of six_bufs"
      using s(5) by (auto simp: allocated_def dma_up_def list_all_iff)
    then show ?thesis
      using True up base_kside [OF k] s(1) intr_down_kside [OF k _ s(2)] res_algebra(5) by (simp add: stage_dma_def)
  next
    case False
    then have "restored s t" using t(2) by (simp add: alloc_post_def)
    then show ?thesis
      using False up base_kside [OF k] s intr_down_kside [OF k _ s(2)] res_algebra(4)
      by (simp add: stage_hw_def restored_def list_all_iff)
  qed
  moreover have "dying t = dying s" using k by (simp add: kside_def)
  ultimately show ?thesis using t(1) fwside_dma_frame [OF fr(1)] by blast
qed

lemma stage_dma_io: "stage_dma s \<Longrightarrow> stage_dma (s\<lparr>io := h\<rparr>)"
  by (rule stage_host(2)) simp_all

lemma intr_mark_up_stage:
  assumes "stage_dma s"
  shows "stage_intr (intr_mark True (s\<lparr>io := h, kres := kres s \<union> intr_res\<rparr>))"
proof -
  let ?t = "intr_mark True (s\<lparr>io := h, kres := kres s \<union> intr_res\<rparr>)"
  have k: "kres ?t = bar_res \<union> dmabuf_res DMA_MCDI \<union> res_of six_bufs \<union> intr_res"
    using assms by (simp add: stage_dma_def intr_mark_def)
  have inv: "dma_inv ?t"
    using assms by (auto simp: stage_dma_def dma_up_def dma_inv_def intr_mark_def intr_res_def dmabuf_res_def)
  show ?thesis
    unfolding stage_intr_def
  proof (intro conjI k)
    show "base ?t" using assms by (simp add: stage_dma_def base_def intr_mark_def)
    show "intr_up ?t" by (rule intr_mark_simps)
    show "mcdi_up ?t" using assms inv by (simp add: stage_dma_def mcdi_up_def mcdi_ready_def intr_mark_def dma_mapped_def)
    show "dma_up ?t" using assms inv by (simp add: stage_dma_def dma_up_def intr_mark_def dma_mapped_def)
  qed
qed

lemma intr_stage_step:
  assumes "stage_dma s"
  shows "\<exists>e t. sfc7120_intr_setup K s = Some (e, t) \<and> (if e = 0 then stage_intr t else stage_dma t) \<and> fwside t = fwside s
    \<and> dying t = dying s"
proof -
  obtain e h where e: "sfc7120_intr_setup K s =
      Some (e, if e = 0 then intr_mark True (s\<lparr>io := h, kres := kres s \<union> intr_res\<rparr>) else s\<lparr>io := h\<rparr>)"
    using intr_setup_total [of s K] assms by (auto simp: stage_dma_def)
  have "fwside (intr_mark True (s\<lparr>io := h, kres := R\<rparr>)) = fwside s" "dying (intr_mark True (s\<lparr>io := h, kres := R\<rparr>)) = dying s" for R
    by (simp_all add: fwside_def intr_mark_def)
  with e stage_dma_io [OF assms, of h] intr_mark_up_stage [OF assms, of h] show ?thesis by (cases "e = 0") auto
qed

definition attach_post :: "int \<Rightarrow> softc \<Rightarrow> bool" where
  "attach_post e t \<longleftrightarrow> (if e = 0 then serving t \<and> session_inv (capio_sc t) \<and> \<not> dying t \<and> device_attached t else idle t)"

lemma smem_unmapped: "attach_smem s = Some smem \<Longrightarrow> \<not> list_ex sm_mapped smem"
  by (auto simp: attach_smem_def smem_dma_def smem_mmio_def bind_eq_Some_conv)

lemma publish_post:
  assumes "stage_intr s" "fwside s = all_fw" "\<not> dying s"
  shows "\<exists>e t. attach_publish K s = Some (e, t) \<and> attach_post e t"
proof -
  have b: "base s" "intr_up s" "mcdi_up s" "dma_up s" "kres s = bar_res \<union> dmabuf_res DMA_MCDI \<union> res_of six_bufs \<union> intr_res"
    using assms(1) by (simp_all add: stage_intr_def)
  show ?thesis
  proof (cases "vasprintf_ok K (io s)")
    case False
    let ?t = "s\<lparr>io := Call ''vasprintf'' # io s, cdev := False\<rparr>"
    have "hostside ?t = hostside s" using b(1) by (simp add: hostside_def kside_def base_def)
    from fail_dma_idle_intr [OF stage_host(1) [OF this assms(1)], of K ENOMEM]
    obtain t' where "attach_fail_dma K ENOMEM ?t = Some (ENOMEM, t')" "idle t'" by blast
    then show ?thesis
      using False by (intro exI [of _ ENOMEM] exI [of _ t']) (simp add: attach_publish_def make_dev_capio_def softc_emit attach_post_def)
  next
    case True
    obtain start sz where mr: "mem_resource s = Some (start, sz)" using b(1) by (auto simp: base_def)
    let ?h = "Call ''modmap_register_slice_callback'' # Call ''modmap_register_vaddr_callback'' # Grab KCdev # io s"
    let ?u = "s\<lparr>io := ?h, kres := insert KCdev (kres s), cdev := True\<rparr>"
    obtain smem where sm: "attach_smem ?u = Some smem" using mr by (simp add: attach_smem_def)
    let ?c = "(capio_sc s)\<lparr>cap_mtx := MtxFree, sealing_key := create_sealing_key K 0x1234, shared_mem_regs := smem\<rparr>"
    let ?t = "?u\<lparr>io := RegRead SFC7120_REG_BIU_HW_REV_ID # ?h, capio_sc := ?c, device_attached := True\<rparr>"
    have mk: "make_dev_capio K s = (True, s\<lparr>io := ?h, kres := insert KCdev (kres s)\<rparr>)"
      using True by (simp add: make_dev_capio_def softc_emit grab_def)
    have ic: "init_capio_sc K smem ?u = Some (?u\<lparr>capio_sc := ?c\<rparr>)"
      using b(1) by (simp add: init_capio_sc_def capio_upd_def base_def)
    have run: "attach_publish K s = Some (0, ?t)"
      by (simp add: attach_publish_def mk sm [simplified] ic [simplified] sfc7120_dump_regs_def softc_io)
    have ses: "session_inv ?c" using b(1) smem_unmapped [OF sm] by (simp add: session_inv_def base_def)
    have inv: "dma_inv ?t" using b(3) by (simp add: mcdi_up_def dma_inv_def dmabuf_res_def)
    have srv: "serving ?t"
      unfolding serving_def
    proof (intro conjI)
      show "dp_ok ?t" using b(1,4) by (simp add: dp_ok_def base_def dma_up_def six_bufs_def dma_mapped_def)
      show "mcdi_up ?t" using b(3) inv by (simp add: mcdi_up_def mcdi_ready_def dma_mapped_def)
      show "dma_up ?t" using b(4) inv by (simp add: dma_up_def dma_mapped_def)
      show "intr_up ?t" using b(2) by (auto simp: intr_up_def)
      have "kres ?t = {r. \<not> session_res r}" using b(5) all_device_res by simp
      then show "dev_res (kres ?t) = {r. \<not> session_res r}" by (auto simp: dev_res_def)
      have "fwside ?t = all_fw" using assms(2) by (simp add: fwside_def)
      then show "(fwside ?t)\<lparr>fw_ctl_ptr := 0\<rparr> = all_fw" by (simp add: all_fw_def)
      show "evq_read_ptr ?t < 512" using arg_cong [OF assms(2), of fw_ctl_ptr] by (simp add: all_fw_def)
    qed (use b(1) in \<open>simp_all add: base_def\<close>)
    have "attach_post 0 ?t" using srv ses assms(3) by (simp add: attach_post_def)
    with run show ?thesis by blast
  qed
qed

lemma midway_stage: "stage_intr s \<Longrightarrow> midway s f t \<Longrightarrow> stage_intr t"
  by (rule stage_host(1) [of t s]) (simp_all add: midway_def)

lemma midway_self: "stage_intr s \<Longrightarrow> fwside s = f \<Longrightarrow> midway s f s"
  by (simp add: midway_def stage_intr_def mcdi_up_def)

lemma fail_dma_post:
  assumes "stage_intr s" "e \<noteq> 0" "midway s f t"
  shows "\<exists>e' t'. attach_fail_dma K e t = Some (e', t') \<and> attach_post e' t'"
  using fail_dma_idle_intr [OF midway_stage [OF assms(1,3)], of K e] assms(2) by (auto simp: attach_post_def)

lemma midway_dying: "midway s f t \<Longrightarrow> dying t = dying s"
  by (simp add: midway_def hostside_def kside_def)

lemma attempt_arg: "attempt (\<lambda>s. f (g s) s) label rest s = attempt (f (g s)) label rest s"
  by (simp add: attempt_def)

lemma attach_txq_post:
  assumes s: "stage_intr s" "\<not> dying s" and f: "fwside s = all_fw\<lparr>fw_txq := False, fw_filter := False\<rparr>"
  shows "\<exists>e t. attach_txq K s = Some (e, t) \<and> attach_post e t"
proof -
  have "dma_mapped DMA_RX_DESC s" using s(1) by (simp add: stage_intr_def dma_up_def six_bufs_def)
  then obtain h rd where p: "sfc7120_post_rx_buffers s = Some (s\<lparr>io := h, rx_head := 0, rx_desc_ring := rd\<rparr>)" (is "_ = Some ?u")
    using post_rx_buffers_eq by blast
  have u: "stage_intr ?u"
    using s(1) by (auto simp: stage_intr_def base_def intr_up_def mcdi_up_def dma_up_def dma_inv_def mcdi_ready_def dma_mapped_def)
  have fu: "fwside ?u = all_fw\<lparr>fw_txq := False, fw_filter := False\<rparr>" using f by (simp add: fwside_def)
  have pub: "\<exists>e t'. attach_publish K t = Some (e, t') \<and> attach_post e t'" if "midway ?u all_fw t" for t
    using publish_post [OF midway_stage [OF u that]] that s(2) midway_dying [OF that] by (simp add: midway_def)
  have "\<exists>e t. attempt (sfc7120_mcdi_init_txq K 0 1 (dm_paddr (dma ?u DMA_TX_DESC)) 512) (attach_fail_dma K)
      (attempt (sfc7120_mcdi_filter_insert K) (attach_fail_dma K) (attach_publish K)) ?u = Some (e, t) \<and> attach_post e t"
    by (rule init_txq.midway_attempt [OF midway_self [OF u fu]], erule (1) fail_dma_post [OF u],
        rule filter_insert.midway_attempt, assumption, erule (1) fail_dma_post [OF u], rule pub)
       (simp add: all_fw_def)
  then show ?thesis
    by (simp only: attach_txq_def p bind.bind_lunit attempt_arg [of "\<lambda>p. sfc7120_mcdi_init_txq K 0 1 p 512" "\<lambda>s. dm_paddr (dma s DMA_TX_DESC)"])
qed

lemma stage_flag:
  "stage_intr s \<Longrightarrow> stage_intr (s\<lparr>evq_initialized := b\<rparr>)" "stage_intr s \<Longrightarrow> stage_intr (s\<lparr>data_evq_initialized := b\<rparr>)"
  by (erule stage_host(1) [rotated], simp)+

lemma attach_rxq_post:
  assumes s: "stage_intr s" "\<not> dying s"
    and f: "fwside s = all_fw\<lparr>fw_data_evq := False, fw_rxq := False, fw_txq := False, fw_filter := False\<rparr>"
  shows "\<exists>e t. attach_rxq K s = Some (e, t) \<and> attach_post e t"
proof -
  let ?u = "s\<lparr>data_evq_initialized := True\<rparr>"
  have u: "stage_intr ?u" using s(1) by (rule stage_flag)
  have fu: "fwside ?u = all_fw\<lparr>fw_rxq := False, fw_txq := False, fw_filter := False\<rparr>" using f by (simp add: all_fw_def)
  have rest: "\<exists>e t'. attach_txq K t = Some (e, t') \<and> attach_post e t'"
    if "midway ?u (all_fw\<lparr>fw_txq := False, fw_filter := False\<rparr>) t" for t
    using attach_txq_post [OF midway_stage [OF u that]] that s(2) midway_dying [OF that] by (simp add: midway_def)
  have "\<exists>e t. attempt (sfc7120_mcdi_init_rxq K 0 1 (dm_paddr (dma ?u DMA_RX_DESC)) 512) (attach_fail_dma K) (attach_txq K) ?u
      = Some (e, t) \<and> attach_post e t"
    by (rule init_rxq.midway_attempt [OF midway_self [OF u fu]], erule (1) fail_dma_post [OF u], rule rest) (simp add: all_fw_def)
  then show ?thesis
    by (simp only: attach_rxq_def Let_def attempt_arg [of "\<lambda>p. sfc7120_mcdi_init_rxq K 0 1 p 512" "\<lambda>s. dm_paddr (dma s DMA_RX_DESC)"])
qed

lemma attach_data_evq_post:
  assumes s: "stage_intr s" "\<not> dying s"
    and f: "fwside s = all_fw\<lparr>fw_data_evq := False, fw_rxq := False, fw_txq := False, fw_filter := False\<rparr>"
  shows "\<exists>e t. attach_data_evq K s = Some (e, t) \<and> attach_post e t"
proof -
  let ?u = "s\<lparr>evq_initialized := True\<rparr>"
  have u: "stage_intr ?u" using s(1) by (rule stage_flag)
  have fu: "fwside ?u = all_fw\<lparr>fw_data_evq := False, fw_rxq := False, fw_txq := False, fw_filter := False\<rparr>"
    using f by (simp add: all_fw_def)
  have rest: "\<exists>e t'. attach_rxq K t = Some (e, t') \<and> attach_post e t'"
    if "midway ?u (all_fw\<lparr>fw_data_evq := False, fw_rxq := False, fw_txq := False, fw_filter := False\<rparr>) t" for t
    using attach_rxq_post [OF midway_stage [OF u that]] that s(2) midway_dying [OF that] by (simp add: midway_def)
  have "\<exists>e t. attempt (sfc7120_mcdi_init_evq K 1 (dm_paddr (dma ?u DMA_DATA_EVQ)) 512) (attach_fail_dma K) (attach_rxq K) ?u
      = Some (e, t) \<and> attach_post e t"
    by (rule init_evq.midway_attempt [OF midway_self [OF u fu]], erule (1) fail_dma_post [OF u], rule rest) (simp add: all_fw_def)
  then show ?thesis
    by (simp only: attach_data_evq_def Let_def attempt_arg [of "\<lambda>p. sfc7120_mcdi_init_evq K 1 p 512" "\<lambda>s. dm_paddr (dma s DMA_DATA_EVQ)"])
qed

lemma attach_queues_post:
  assumes s: "stage_intr s" "\<not> dying s" and f: "fwside s = no_fw\<lparr>fw_attached := True, fw_vis := True, fw_vadaptor := True\<rparr>"
  shows "\<exists>e t. attach_queues K s = Some (e, t) \<and> attach_post e t"
proof -
  have rest: "\<exists>e t'. attach_data_evq K t = Some (e, t') \<and> attach_post e t'"
    if "midway s (all_fw\<lparr>fw_data_evq := False, fw_rxq := False, fw_txq := False, fw_filter := False\<rparr>) t" for t
    using attach_data_evq_post [OF midway_stage [OF s(1) that]] that s(2) midway_dying [OF that] by (simp add: midway_def)
  have "\<exists>e t. attempt (sfc7120_mcdi_init_evq K 0 (dm_paddr (dma s DMA_EVQ)) 512) (attach_fail_dma K) (attach_data_evq K) s
      = Some (e, t) \<and> attach_post e t"
    by (rule init_evq.midway_attempt [OF midway_self [OF s(1) f]], erule (1) fail_dma_post [OF s(1)], rule rest)
       (simp add: all_fw_def no_fw_def)
  then show ?thesis
    by (simp only: attach_queues_def attempt_arg [of "\<lambda>p. sfc7120_mcdi_init_evq K 0 p 512" "\<lambda>s. dm_paddr (dma s DMA_EVQ)"])
qed

section \<open>Attach\<close>

definition fw_hw :: fw where
  "fw_hw = no_fw\<lparr>fw_attached := True, fw_vis := True, fw_vadaptor := True\<rparr>"

definition hw_init_result :: "int \<Rightarrow> softc \<Rightarrow> bool" where
  "hw_init_result e t \<longleftrightarrow>
     (if e = 0 then stage_hw t \<and> \<not> dying t \<and> fwside t = fw_hw
      else \<exists>t'. attach_fail_bar e t = Some (e, t') \<and> idle t')"

definition attach_begun :: "softc \<Rightarrow> bool" where
  "attach_begun s \<longleftrightarrow> base s \<and> intr_down s \<and> mcdi_down s \<and> kres s = bar_res \<and> dma s = (\<lambda>_. no_dmabuf) \<and> \<not> dying s \<and> fwside s = no_fw"

lemma hw_init_stage:
  assumes "mcdi_env_ok K" "attach_begun s"
  shows "\<exists>e t. sfc7120_hw_init K s = Some (e, t) \<and> hw_init_result e t"
proof -
  have s: "base s" "intr_down s" "mcdi_down s" "kres s = bar_res" "dma s = (\<lambda>_. no_dmabuf)" "\<not> dying s" "fwside s = no_fw"
    using assms(2) by (simp_all add: attach_begun_def)
  obtain e t where t: "sfc7120_hw_init K s = Some (e, t)" "hw_init_post s e t"
    using hw_init_total [OF assms(1) s(3)] by blast
  have p: "dma_inv t" "kside t = kside s" "\<And>d. d \<noteq> DMA_MCDI \<Longrightarrow> dma t d = no_dmabuf"
    using t(2) s(5) by (simp_all add: hw_init_post_def init_post_def)
  have dy: "dying t = dying s" using p(2) by (simp add: kside_def)
  have "hw_init_result e t"
  proof (cases "e = 0")
    case True
    then have up: "mcdi_up t" "kres t = bar_res \<union> dmabuf_res DMA_MCDI" "fwside t = fw_hw"
      using t(2) s(4,7) by (simp_all add: hw_init_post_def init_post_def mcdi_up_def fw_hw_def)
    have "stage_hw t"
      using up(1,2) p(3) base_kside [OF p(2)] s(1) intr_down_kside [OF p(2) _ s(2)] res_algebra(4)
      by (simp add: stage_hw_def six_bufs_def)
    with True up(3) s(6) dy show ?thesis by (simp add: hw_init_result_def)
  next
    case False
    then have "\<not> mcdi_initialized t" "mcdi_mtx t = MtxAbsent" "kres t = bar_res"
      using t(2) s(4) by (simp_all add: hw_init_post_def init_post_def)
    then have "\<exists>t'. attach_fail_bar e t = Some (e, t') \<and> idle t'"
      using fail_bar_idle [of t e] p(1) base_kside [OF p(2)] s(1) intr_down_kside [OF p(2) _ s(2)] res_algebra(6) by simp
    with False show ?thesis by (simp add: hw_init_result_def)
  qed
  with t(1) show ?thesis by blast
qed

lemma attach_hw_post:
  assumes "mcdi_env_ok K" "attach_begun s"
  shows "\<exists>e t. attempt (sfc7120_hw_init K) attach_fail_bar
      (attempt (sfc7120_alloc_dma_resources K) (attach_fail_hw K)
      (attempt (sfc7120_intr_setup K) (attach_fail_dma K)
      (attach_queues K))) s = Some (e, t) \<and> attach_post e t"
proof (rule attempt_rule [where H = hw_init_result])
  show "\<exists>e t. sfc7120_hw_init K s = Some (e, t) \<and> hw_init_result e t" by (rule hw_init_stage [OF assms])
next
  fix e t assume "e \<noteq> 0" "hw_init_result e t"
  then show "\<exists>e' t'. attach_fail_bar e t = Some (e', t') \<and> attach_post e' t'" by (auto simp: hw_init_result_def attach_post_def)
next
  fix t assume "hw_init_result 0 t"
  then have t: "stage_hw t" "\<not> dying t" "fwside t = fw_hw" by (simp_all add: hw_init_result_def)
  have K: "bus_dma_ok K" using assms(1) by (simp add: mcdi_env_ok_def)
  show "\<exists>e' t'. attempt (sfc7120_alloc_dma_resources K) (attach_fail_hw K)
      (attempt (sfc7120_intr_setup K) (attach_fail_dma K) (attach_queues K)) t = Some (e', t') \<and> attach_post e' t'"
  proof (rule attempt_rule [where H = "\<lambda>e u. (if e = 0 then stage_dma u else stage_hw u) \<and> fwside u = fwside t \<and> dying u = dying t"])
    show "\<exists>e u. sfc7120_alloc_dma_resources K t = Some (e, u)
        \<and> (if e = 0 then stage_dma u else stage_hw u) \<and> fwside u = fwside t \<and> dying u = dying t"
      by (rule alloc_dma_stage [OF K t(1)])
  next
    fix e :: int and u assume "e \<noteq> 0" "(if e = 0 then stage_dma u else stage_hw u) \<and> fwside u = fwside t \<and> dying u = dying t"
    then show "\<exists>e' t'. attach_fail_hw K e u = Some (e', t') \<and> attach_post e' t'"
      using fail_hw_idle [of u K e] by (auto simp: attach_post_def)
  next
    fix u assume "(if 0 = (0::int) then stage_dma u else stage_hw u) \<and> fwside u = fwside t \<and> dying u = dying t"
    then have u: "stage_dma u" "fwside u = fw_hw" "\<not> dying u" using t by simp_all
    show "\<exists>e' t'. attempt (sfc7120_intr_setup K) (attach_fail_dma K) (attach_queues K) u = Some (e', t') \<and> attach_post e' t'"
    proof (rule attempt_rule [where H = "\<lambda>e v. (if e = 0 then stage_intr v else stage_dma v) \<and> fwside v = fwside u \<and> dying v = dying u"])
      show "\<exists>e v. sfc7120_intr_setup K u = Some (e, v)
          \<and> (if e = 0 then stage_intr v else stage_dma v) \<and> fwside v = fwside u \<and> dying v = dying u"
        by (rule intr_stage_step [OF u(1)])
    next
      fix e :: int and v assume "e \<noteq> 0" "(if e = 0 then stage_intr v else stage_dma v) \<and> fwside v = fwside u \<and> dying v = dying u"
      then show "\<exists>e' t'. attach_fail_dma K e v = Some (e', t') \<and> attach_post e' t'"
        using fail_dma_idle [of v K e] by (auto simp: attach_post_def)
    next
      fix v assume "(if 0 = (0::int) then stage_intr v else stage_dma v) \<and> fwside v = fwside u \<and> dying v = dying u"
      then show "\<exists>e' t'. attach_queues K v = Some (e', t') \<and> attach_post e' t'"
        using attach_queues_post [of v K] u(2,3) by (simp add: fw_hw_def)
    qed
  qed
qed

lemma attach_total:
  assumes "mcdi_env_ok K" "fresh s"
  shows "\<exists>e s'. sfc7120_fbsd_attach K s = Some (e, s') \<and> attach_post e s'"
proof -
  let ?t = "s\<lparr>dying := False, device_attached := False, sc_mtx := MtxFree, rx_mtx := MtxFree\<rparr>"
  have s: "idle s" "is_null (sealed_cap (capio_sc s))" "is_null (original_cap (capio_sc s))"
      "tx_head s = 0" "rx_head s = 0" "data_evq_read_ptr s = 0" "fwside s = no_fw"
    using assms(2) by (simp_all add: fresh_def)
  have m: "sc_mtx s = MtxAbsent" "rx_mtx s = MtxAbsent" using s(1) by (simp_all add: idle_def)
  have run: "sfc7120_fbsd_attach K s =
      (case alloc_resource K (io s) KBar2 of
         None \<Rightarrow> attach_fail_lock ENXIO ((emit (Call ''bus_alloc_resource_any'') ?t)\<lparr>mem_resource := None\<rparr>)
       | Some r \<Rightarrow> attempt (sfc7120_hw_init K) attach_fail_bar
          (attempt (sfc7120_alloc_dma_resources K) (attach_fail_hw K)
          (attempt (sfc7120_intr_setup K) (attach_fail_dma K)
          (attach_queues K))) (grab KBusMaster ((grab KBar2 ?t)\<lparr>mem_resource := Some r\<rparr>)))"
    using m by (simp add: sfc7120_fbsd_attach_def Let_def split: option.split)
  show ?thesis
  proof (cases "alloc_resource K (io s) KBar2")
    case None
    let ?u = "?t\<lparr>io := Call ''bus_alloc_resource_any'' # io s, mem_resource := None\<rparr>"
    have "idle (?u\<lparr>rx_mtx := MtxAbsent, sc_mtx := MtxAbsent\<rparr>)" using s(1) by (simp add: idle_def intr_down_def)
    with None run show ?thesis by (simp add: softc_emit fail_lock_eq attach_post_def)
  next
    case (Some r)
    let ?u = "grab KBusMaster ((grab KBar2 ?t)\<lparr>mem_resource := Some r\<rparr>)"
    have u: "?u = ?t\<lparr>io := Grab KBusMaster # Grab KBar2 # io s, kres := bar_res, mem_resource := Some r\<rparr>"
      using s(1) by (simp add: grab_def softc_emit idle_def insert_commute)
    have "dma_inv ?u" using s(1) unfolding u by (simp add: dma_inv_def idle_def dmabuf_held_def no_dmabuf_def dmabuf_res_def)
    then have "attach_begun ?u"
      using s unfolding u by (simp add: attach_begun_def base_def idle_def mcdi_down_def intr_down_def intr_res_def fwside_def)
    from attach_hw_post [OF assms(1) this] show ?thesis using Some run by simp
  qed
qed

section \<open>Properties\<close>

text \<open>C33 Posting the receive ring: every one of the 512 entries describes its own 2 KB slot of the receive
  buffer, the doorbell is rung once with 511, and consumption starts at slot 0.\<close>

theorem rx_ring_posted:
  assumes "dma_mapped DMA_RX_DESC s"
  shows "\<exists>h. sfc7120_post_rx_buffers s = Some (s\<lparr>io := h, rx_head := 0,
      rx_desc_ring := (\<lambda>i. if i < 512 then ef10_desc 2048 (rx_slot_pa i s) else rx_desc_ring s i)\<rparr>)
    \<and> reg_writes h = reg_writes (io s) @ [(SFC7120_REG_DATA_RX_DESC_DBL, 511)]"
  using post_rx_buffers_eq [OF assms] by blast

theorem rx_ring_posted_witness:
  "\<exists>h. sfc7120_post_rx_buffers live_softc = Some (live_softc\<lparr>io := h, rx_head := 0,
      rx_desc_ring := (\<lambda>i. if i < 512 then ef10_desc 2048 (rx_slot_pa i live_softc) else rx_desc_ring live_softc i)\<rparr>)
    \<and> reg_writes h = reg_writes (io live_softc) @ [(SFC7120_REG_DATA_RX_DESC_DBL, 511)]"
  by (rule rx_ring_posted) (simp add: live_softc_fields)

text \<open>C34 The region table that attach publishes agrees with what the driver answers to the framework: one
  region per map type, in the order of the enum, each with the length \<open>sfc7120_get_buffer_size\<close> reports for it
  and a whole number of pages long, and only the BAR is physical and sliced.\<close>

theorem region_table_wf:
  assumes "dp_ok s"
  shows "\<exists>smem. attach_smem s = Some smem \<and> map sm_type smem = [0, 1, 2, 3, 4, 5]
    \<and> map (\<lambda>r. sfc7120_get_buffer_size (sm_type r) s) smem = map (\<lambda>r. Some (sm_len r, s)) smem
    \<and> map sm_is_physical smem = [False, False, True, False, False, False]
    \<and> map sm_slice_def_len smem = [0, 0, SFC7120_MMIO_SLICE_COUNT, 0, 0, 0]
    \<and> map (\<lambda>r. unat (sm_len r) mod 4096) (filter (\<lambda>r. \<not> sm_is_physical r) smem) = [0, 0, 0, 0, 0]"
proof -
  obtain start sz where m: "mem_resource s = Some (start, sz)" using assms by (auto simp: dp_ok_def)
  note g = get_buffer_size_eq [OF assms]
  show ?thesis
    unfolding attach_smem_def
    by (simp add: m g region_size_def smem_dma_def smem_mmio_def)
qed

theorem region_table_wf_witness:
  "\<exists>smem. attach_smem live_softc = Some smem \<and> map sm_type smem = [0, 1, 2, 3, 4, 5]
    \<and> map (\<lambda>r. sfc7120_get_buffer_size (sm_type r) live_softc) smem = map (\<lambda>r. Some (sm_len r, live_softc)) smem
    \<and> map sm_is_physical smem = [False, False, True, False, False, False]
    \<and> map sm_slice_def_len smem = [0, 0, SFC7120_MMIO_SLICE_COUNT, 0, 0, 0]
    \<and> map (\<lambda>r. unat (sm_len r) mod 4096) (filter (\<lambda>r. \<not> sm_is_physical r) smem) = [0, 0, 0, 0, 0]"
  by (rule region_table_wf [OF live_dp_ok])

lemma live_dma_inv: "dma_inv live_softc"
  by (auto simp: dma_inv_def dmabuf_held_def dmabuf_res_def live_softc_fields)

lemma live_mcdi_up: "mcdi_up live_softc"
  by (simp add: mcdi_up_def live_dma_inv mcdi_ready_def live_softc_fields)

lemma live_intr_up: "intr_up live_softc"
  by (simp add: intr_up_def live_softc_fields intr_res_def) (simp add: live_softc_def)

lemma live_fw: "fwside live_softc = all_fw"
  by (simp add: fwside_def all_fw_def live_softc_def zero_softc_def)

lemma live_serving: "serving live_softc"
proof -
  have "cdev live_softc" by (simp add: live_softc_def)
  moreover have "dma_up live_softc" by (simp add: dma_up_def live_dma_inv live_softc_fields list_all_iff)
  moreover have "all_fw\<lparr>fw_ctl_ptr := 0\<rparr> = all_fw" by (simp add: all_fw_def)
  ultimately show ?thesis
    by (simp add: serving_def live_dp_ok live_mcdi_up live_intr_up live_fw live_softc_fields dev_res_def)
qed

lemma zero_fresh: "fresh zero_softc"
  using zero_intr_down by (simp add: fresh_def idle_def zero_softc_fields) (simp add: zero_softc_def is_null_def null_cap_def fwside_def no_fw_def)

text \<open>C2 Attach is all or nothing: on a zeroed softc it always returns; on success the device is in service
  (every queue up, interrupt, node and locks in place, no session, not dying), on any failure, of the bus, of an
  allocation or of any MC command, nothing at all is held.\<close>

theorem attach_all_or_nothing:
  assumes "mcdi_env_ok K" "fresh s"
  shows "\<exists>e s'. sfc7120_fbsd_attach K s = Some (e, s')
    \<and> (if e = 0 then serving s' \<and> session_inv (capio_sc s') \<and> \<not> dying s' \<and> device_attached s' else idle s')"
  using attach_total [OF assms] by (simp add: attach_post_def)

theorem attach_all_or_nothing_witness:
  "\<exists>e s'. sfc7120_fbsd_attach quiet_env zero_softc = Some (e, s')
    \<and> (if e = 0 then serving s' \<and> session_inv (capio_sc s') \<and> \<not> dying s' \<and> device_attached s' else idle s')"
  by (rule attach_all_or_nothing [OF quiet_mcdi_env zero_fresh])

text \<open>Hardware teardown always returns, issues the MC commands in the one order the firmware accepts (filter, TX
  queue, RX queue, data then control event queue, vAdaptor, VIs, driver detach), each exactly when its object
  exists, whatever the MC answers, and leaves the transport down with its mailbox freed.\<close>

theorem hw_teardown_order:
  assumes "mcdi_up s"
  shows "\<exists>s'. sfc7120_hw_teardown K s = Some s' \<and> hw_down s s'
    \<and> mc_requests (io s') = mc_requests (io s) @ teardown_requests s"
  using hw_teardown_total [of s K] assms by (simp add: mcdi_up_def)

theorem hw_teardown_order_witness:
  "\<exists>s'. sfc7120_hw_teardown quiet_env live_softc = Some s' \<and> hw_down live_softc s'
    \<and> map fst (mc_requests (io s')) = [MC_CMD_FILTER_OP, MC_CMD_FINI_TXQ, MC_CMD_FINI_RXQ, MC_CMD_FINI_EVQ, MC_CMD_FINI_EVQ,
        MC_CMD_VADAPTOR_FREE, MC_CMD_FREE_VIS, MC_CMD_DRV_ATTACH]"
proof -
  have "map fst (mc_requests (io live_softc) @ teardown_requests live_softc) = [MC_CMD_FILTER_OP, MC_CMD_FINI_TXQ, MC_CMD_FINI_RXQ,
      MC_CMD_FINI_EVQ, MC_CMD_FINI_EVQ, MC_CMD_VADAPTOR_FREE, MC_CMD_FREE_VIS, MC_CMD_DRV_ATTACH]"
    unfolding teardown_requests_def live_softc_fields by (simp add: live_softc_def)
  with hw_teardown_order [OF live_mcdi_up, of quiet_env] show ?thesis by metis
qed

text \<open>Hardware bring-up returns whatever the MC does: on success the driver is attached to the MC and has its VIs and
  vAdaptor; on failure the transport is down again, the mailbox freed and nothing more is held than before.\<close>

theorem hw_init_all_or_nothing:
  assumes "mcdi_env_ok K" "mcdi_down s"
  shows "\<exists>e s'. sfc7120_hw_init K s = Some (e, s')
    \<and> (if e = 0 then mcdi_up s' \<and> fwside s' = (fwside s)\<lparr>fw_attached := True, fw_vis := True, fw_vadaptor := True\<rparr>
         \<and> kres s' = kres s \<union> dmabuf_res DMA_MCDI
       else mcdi_down s' \<and> kres s' = kres s)"
proof -
  obtain e s' where s': "sfc7120_hw_init K s = Some (e, s')" "hw_init_post s e s'" using hw_init_total [OF assms] by blast
  then show ?thesis
    using assms(2) by (auto simp: hw_init_post_def init_post_def mcdi_up_def mcdi_down_def split: if_splits)
qed

theorem hw_init_all_or_nothing_witness:
  "\<exists>e s'. sfc7120_hw_init quiet_env zero_softc = Some (e, s')
    \<and> (if e = 0 then mcdi_up s' \<and> fwside s' = (fwside zero_softc)\<lparr>fw_attached := True, fw_vis := True, fw_vadaptor := True\<rparr>
         \<and> kres s' = {} \<union> dmabuf_res DMA_MCDI
       else mcdi_down s' \<and> kres s' = {})"
  by (rule hw_init_all_or_nothing [OF quiet_mcdi_env zero_mcdi_down, unfolded zero_softc_fields(1)])

end
