(* ===== verification/Driver.thy ===== *)
theory Driver
  imports Lifecycle
begin

text \<open>
  The driver as a system: every entry point (system calls through the CAPIO framework, the
  interrupt, the receive task, poll, open and close) as one step relation on the softc, the
  invariant \<open>serving\<close> that \<open>attach\<close> establishes and every step keeps, and \<open>detach\<close>, which from any
  reachable state gives back everything the device holds.  Steps are sequential: a handler runs to
  its end before the next starts.
\<close>

section \<open>Steps keep the device serving\<close>

lemma serving_dp: "serving s \<Longrightarrow> dp_ok s"
  by (simp add: serving_def)

lemma dev_res_inter:
  assumes "dev_res R = dev_res R'" "\<And>r. r \<in> D \<Longrightarrow> \<not> session_res r"
  shows "R \<inter> D = R' \<inter> D"
  using assms unfolding dev_res_def by blast

lemma not_session_dmabuf: "r \<in> dmabuf_res d \<Longrightarrow> \<not> session_res r"
  by (auto simp: dmabuf_res_def)

lemma not_session_intr: "r \<in> intr_res \<Longrightarrow> \<not> session_res r"
  by (auto simp: intr_res_def)

lemma serving_capio:
  assumes "serving s" "dev_res R = dev_res (kres s)"
  shows "serving (s\<lparr>io := h, kres := R, capio_sc := c\<rparr>)"
proof -
  let ?t = "s\<lparr>io := h, kres := R, capio_sc := c\<rparr>"
  have "R \<inter> dmabuf_res d = kres s \<inter> dmabuf_res d" for d
    by (rule dev_res_inter [OF assms(2)]) (rule not_session_dmabuf)
  then have inv: "dma_inv ?t" using assms(1) by (simp add: serving_def dma_up_def dma_inv_def)
  have "R \<inter> intr_res = kres s \<inter> intr_res"
    by (rule dev_res_inter [OF assms(2)]) (rule not_session_intr)
  then have "intr_up ?t" using assms(1) by (auto simp: serving_def intr_up_def)
  moreover have "dp_ok ?t" using assms(1) by (simp add: serving_def dp_ok_def dma_mapped_def)
  moreover have "mcdi_up ?t" "dma_up ?t"
    using assms(1) inv by (simp_all add: serving_def mcdi_up_def mcdi_ready_def dma_up_def dma_mapped_def)
  moreover have fw: "fwside ?t = fwside s" by (simp add: fwside_def)
  ultimately show ?thesis using assms unfolding serving_def fw by simp
qed

lemma serving_dp_only: "serving s \<Longrightarrow> dp_only s s' \<Longrightarrow> dp_ok s' \<Longrightarrow> serving s'"
  by (auto simp: serving_def dp_only_def mcdi_up_def mcdi_ready_def dma_up_def dma_inv_def intr_up_def dma_mapped_def fwside_def)

interpretation drv: capio_driver "sfc7120_capio_ops K" serving for K
proof (unfold_locales, goal_cases)
  case (1 s r)
  obtain e out s' where s': "sfc7120_ioctl K r s = Some (e, out, s')" "dp_ok s'" "dp_only s s'"
    using sfc7120_ioctl_total [OF serving_dp [OF 1]] by blast
  with serving_dp_only [OF 1 s'(3,2)] dp_only_fields(2) [OF s'(3)] show ?case by (simp add: sfc7120_capio_ops_def)
next
  case (2 s)
  then show ?case by (simp add: sfc7120_capio_ops_def is_dying_eq [OF serving_dp])
next
  case (3 s ty)
  then show ?case by (simp add: sfc7120_capio_ops_def get_buffer_size_eq [OF serving_dp])
next
  case (4 s R h c)
  then show ?case by (rule serving_capio)
qed

lemma no_link_fields:
  assumes "no_link s' = no_link s"
  shows "hostside s' = hostside s" "fwside s' = fwside s"
  using arg_cong [OF assms, of hostside] arg_cong [OF assms, of fwside] by (simp_all add: no_link_def)

lemma no_link_fold: "no_link (fold control_event evs s) = no_link s"
  by (induction evs arbitrary: s) simp_all

lemma serving_host:
  assumes "hostside t = hostside s" "(fwside t)\<lparr>fw_ctl_ptr := 0\<rparr> = (fwside s)\<lparr>fw_ctl_ptr := 0\<rparr>" "evq_read_ptr t < 512" "serving s"
  shows "serving t"
proof -
  from assms(1) have k: "kside t = kside s" "kres t = kres s" "dma t = dma s" "mcdi_initialized t = mcdi_initialized s"
    by (simp_all add: hostside_def)
  have "mcdi_up t" using assms(4) hostside_ready [OF assms(1)] hostside_dma_inv [OF assms(1)] k by (simp add: serving_def mcdi_up_def)
  moreover have "dma_up t" using assms(4) k by (simp add: serving_def dma_up_def dma_inv_def dma_mapped_def)
  moreover have "intr_up t" "dp_ok t" using assms(4) k by (simp_all add: serving_def intr_up_def dp_ok_def kside_def dma_mapped_def)
  ultimately show ?thesis using assms k by (simp add: serving_def kside_def)
qed

lemma interrupt_serving:
  assumes "serving s"
  shows "\<exists>s'. sfc7120_interrupt_handler K s = Some s' \<and> serving s' \<and> capio_sc s' = capio_sc s"
proof (cases "dying s")
  case True
  with assms show ?thesis by (simp add: interrupt_handler_ignored)
next
  case False
  have "(fwside s)\<lparr>fw_ctl_ptr := 0\<rparr> = all_fw" using assms by (simp add: serving_def)
  from arg_cong [OF this, of fw_evq] have f: "evq_initialized s" by (simp add: all_fw_def)
  have live: "intr_live s"
    using assms False f by (simp add: intr_live_def serving_def dp_ok_def dma_up_def six_bufs_def)
  define evs where "evs = pending 512 (intr_ring K s) (evq_read_ptr s)"
  define p where "p = (evq_read_ptr s + length evs) mod 512"
  obtain h where h: "sfc7120_interrupt_handler K s = Some ((fold control_event evs s)
      \<lparr>io := h @ io s, evq_ring := zeroed (length evs) (evq_read_ptr s) (intr_ring K s), evq_read_ptr := p\<rparr>)" (is "_ = Some ?t")
    using interrupt_handler_spec [OF live evs_def p_def] by blast
  note n = no_link_fields [OF no_link_fold [of evs s]]
  have upd: "hostside (u\<lparr>io := a, evq_ring := b, evq_read_ptr := c\<rparr>) = hostside u"
      "fwside (u\<lparr>io := a, evq_ring := b, evq_read_ptr := c\<rparr>) = (fwside u)\<lparr>fw_ctl_ptr := c\<rparr>" for u a b c
    by (simp_all add: hostside_def kside_def fwside_def)
  have host: "hostside ?t = hostside s" unfolding upd by (rule n)
  have fw: "fwside ?t = (fwside s)\<lparr>fw_ctl_ptr := p\<rparr>" unfolding upd n ..
  have "serving ?t"
    by (rule serving_host [OF host _ _ assms]) (simp_all only: fw, simp_all add: p_def)
  moreover have "capio_sc ?t = capio_sc s" using host by (simp add: hostside_def kside_def)
  ultimately show ?thesis using h by blast
qed

lemma rx_task_eq:
  "rx_mtx s = MtxFree \<Longrightarrow> sfc7120_rx_task_handler s = Some (s\<lparr>io := Call ''selwakeuppri'' # io s, rx_received := True\<rparr>)"
  by (simp add: sfc7120_rx_task_handler_def softc_emit)

lemma poll_eq:
  "rx_mtx s = MtxFree \<Longrightarrow> sfc7120_poll events s =
     (if rx_received s then Some (events AND 0x41, s) else Some (0, s\<lparr>io := Call ''selrecord'' # io s\<rparr>))"
  by (simp add: sfc7120_poll_def softc_emit Let_def)

lemma serving_light:
  assumes "serving s"
  shows "serving (s\<lparr>io := h\<rparr>)" "serving (s\<lparr>io := h, rx_received := b\<rparr>)"
  by (rule serving_host [OF _ _ _ assms]; use assms in \<open>simp add: hostside_def kside_def fwside_def serving_def\<close>)+

section \<open>Executions\<close>

inductive driver_step :: "env \<Rightarrow> softc \<Rightarrow> softc \<Rightarrow> bool" for K where
  Capio: "capio_step K (sfc7120_capio_ops K) s s' \<Longrightarrow> driver_step K s s'"
| Interrupt: "sfc7120_interrupt_handler K s = Some s' \<Longrightarrow> driver_step K s s'"
| RxTask: "sfc7120_rx_task_handler s = Some s' \<Longrightarrow> driver_step K s s'"
| Poll: "sfc7120_poll events s = Some (revents, s') \<Longrightarrow> driver_step K s s'"
| Open: "sfc7120_open s = (e, s') \<Longrightarrow> driver_step K s s'"
| Close: "sfc7120_close K s = Some (e, s') \<Longrightarrow> driver_step K s s'"

inductive driver_run :: "env \<Rightarrow> softc \<Rightarrow> softc \<Rightarrow> bool" for K where
  Start: "driver_run K s s"
| Step: "driver_run K s s' \<Longrightarrow> driver_step K s' s'' \<Longrightarrow> driver_run K s s''"

lemma close_serving:
  assumes "serving s" "session_inv (capio_sc s)"
  shows "\<exists>s'. sfc7120_close K s = Some (0, s') \<and> serving s' \<and> session_inv (capio_sc s')"
proof -
  obtain e s' where r: "revoke_cap_token K s = Some (e, s')" "serving s'" by (rule drv.revoke_ok [OF assms])
  with session_inv_revoke [OF assms(2) r(1)] show ?thesis by (simp add: sfc7120_close_def revoke_access_def)
qed

lemma driver_step_inv:
  assumes "driver_step K s s'" "serving s" "session_inv (capio_sc s)"
  shows "serving s' \<and> session_inv (capio_sc s')"
  using assms(1)
proof cases
  case Capio
  then show ?thesis using drv.capio_step_inv assms(2,3) by blast
next
  case Interrupt
  then show ?thesis using interrupt_serving [OF assms(2), of K] assms(3) by auto
next
  case RxTask
  then show ?thesis using rx_task_eq [of s] serving_light [OF assms(2)] assms(2,3) by (auto simp: serving_def)
next
  case (Poll events revents)
  have "s' = s \<or> s' = s\<lparr>io := Call ''selrecord'' # io s\<rparr>"
    using Poll poll_eq [of s events] assms(2) by (auto simp: serving_def split: if_splits)
  then show ?thesis using serving_light(1) [OF assms(2)] assms(2,3) by auto
next
  case (Open e)
  then show ?thesis using assms(2,3) by (simp add: sfc7120_open_def)
next
  case (Close e)
  then show ?thesis using close_serving [OF assms(2,3), of K] by auto
qed

lemma driver_run_inv:
  "driver_run K s s' \<Longrightarrow> serving s \<Longrightarrow> session_inv (capio_sc s) \<Longrightarrow> serving s' \<and> session_inv (capio_sc s')"
  by (induction rule: driver_run.induct) (auto dest: driver_step_inv)

section \<open>Detach\<close>

definition session_part :: "kres set \<Rightarrow> kres set" where
  "session_part R = {r \<in> R. session_res r}"

definition detached :: "softc \<Rightarrow> softc \<Rightarrow> bool" where
  "detached s s' \<longleftrightarrow>
     kres s' = session_part (kres s) \<and> dma s' = (\<lambda>_. no_dmabuf) \<and> \<not> mcdi_initialized s' \<and> mcdi_mtx s' = MtxAbsent
     \<and> sc_mtx s' = MtxAbsent \<and> rx_mtx s' = MtxAbsent \<and> cap_mtx (capio_sc s') = MtxAbsent \<and> intr_down s'
     \<and> \<not> cdev s' \<and> dying s' \<and> mem_resource s' = None
     \<and> mc_requests (io s') = mc_requests (io s) @ teardown_requests s"

lemma session_part_eq:
  assumes "dev_res R = {r. \<not> session_res r}"
  shows "R - {KCdev} - intr_res - dmabuf_res DMA_MCDI - res_of six_bufs - {KBar2} - {KBusMaster} = session_part R"
proof -
  have "R - insert KCdev (bar_res \<union> dmabuf_res DMA_MCDI \<union> res_of six_bufs \<union> intr_res) = session_part R"
    unfolding all_device_res session_part_def by auto
  then show ?thesis by blast
qed

lemma all_free':
  assumes "dma_inv s" "\<And>d. kres s \<inter> dmabuf_res d = {}"
  shows "dma s = (\<lambda>_. no_dmabuf)"
proof
  fix d
  have "dmabuf_held (dma s d) d = {}" using assms by (simp add: dma_inv_def)
  then show "dma s d = no_dmabuf"
    by (cases "dma s d") (auto simp: dmabuf_held_def no_dmabuf_def split: if_splits)
qed

lemma free_dmabuf_requests: "sfc7120_free_dmabuf d s = Some t \<Longrightarrow> mc_requests (io t) = mc_requests (io s)"
  by (auto simp: sfc7120_free_dmabuf_def release_def dma_upd_def emit_def bind_eq_Some_conv split: if_splits)

lemma free_dma_requests: "sfc7120_free_dma_resources s = Some t \<Longrightarrow> mc_requests (io t) = mc_requests (io s)"
proof -
  have "free_dmabufs ds s = Some t \<Longrightarrow> mc_requests (io t) = mc_requests (io s)" for ds s
    by (induction ds arbitrary: s) (auto simp: bind_eq_Some_conv dest: free_dmabuf_requests)
  then show "sfc7120_free_dma_resources s = Some t \<Longrightarrow> mc_requests (io t) = mc_requests (io s)"
    by (simp add: free_dma_resources_eq)
qed

text \<open>From the destruction of the node to the release of the DMA memory.\<close>

lemma detach_prefix:
  assumes "serving s"
  shows "\<exists>u. (do {
      s \<leftarrow> sfc7120_intr_teardown (s\<lparr>device_attached := False, dying := True, cdev := False, io := h, kres := kres s - {KCdev}\<rparr>);
      s \<leftarrow> sfc7120_hw_teardown K s;
      sfc7120_free_dma_resources s }) = Some u
    \<and> kres u = kres s - {KCdev} - intr_res - dmabuf_res DMA_MCDI - res_of six_bufs \<and> dma_inv u
    \<and> \<not> mcdi_initialized u \<and> mcdi_mtx u = MtxAbsent
    \<and> kside u = kside (intr_mark False (s\<lparr>device_attached := False, dying := True, cdev := False\<rparr>))
    \<and> (mc_requests h = mc_requests (io s) \<longrightarrow> mc_requests (io u) = mc_requests (io s) @ teardown_requests s)"
proof -
  let ?m = "s\<lparr>device_attached := False, dying := True, cdev := False, io := h, kres := kres s - {KCdev}\<rparr>"
  have s: "intr_up s" "mcdi_up s" "dma_up s" using assms by (simp_all add: serving_def)
  have "intr_up ?m" using s(1) by (auto simp: intr_up_def intr_res_def)
  then obtain g where g: "sfc7120_intr_teardown ?m = Some (intr_mark False (?m\<lparr>io := g, kres := kres ?m - intr_res\<rparr>))" (is "_ = Some ?v")
    and gr: "mc_requests g = mc_requests (io ?m)"
    using intr_teardown_up by blast
  have v: "kres ?v = kres s - {KCdev} - intr_res" "dma ?v = dma s" "mcdi_initialized ?v" "mcdi_mtx ?v = mcdi_mtx s" "io ?v = g"
      "fwside ?v = fwside s" "rx_filter_handle ?v = rx_filter_handle s"
    using s(2) by (simp_all add: intr_mark_def mcdi_up_def fwside_def)
  have iv: "dma_inv ?v" using s(2) v(1,2) by (auto simp: mcdi_up_def dma_inv_def dmabuf_res_def intr_res_def)
  have rv: "mcdi_ready ?v" using s(2) v(2,4) by (simp add: mcdi_up_def mcdi_ready_def dma_mapped_def)
  obtain w where w: "sfc7120_hw_teardown K ?v = Some w" "hw_down ?v w" "mc_requests (io w) = mc_requests (io ?v) @ teardown_requests ?v"
    using hw_teardown_total [OF rv v(3) iv] by blast
  have "dma_inv w" using w(2) by (simp add: hw_down_def)
  then obtain u where u: "sfc7120_free_dma_resources w = Some u" "kres u = kres w - res_of six_bufs" "dma_frame u = dma_frame w" "dma_inv u"
    using free_dmabufs_total [of w six_bufs] by (auto simp: free_dma_resources_eq)
  have tr: "teardown_requests ?v = teardown_requests s"
    using fwside_eqD [OF v(6)] v(7) by (simp add: teardown_requests_def)
  have "mc_requests (io u) = mc_requests (io w)" using free_dma_requests [OF u(1)] .
  moreover have "kside ?v = kside (intr_mark False (s\<lparr>device_attached := False, dying := True, cdev := False\<rparr>))"
    by (simp add: kside_def intr_mark_def)
  ultimately show ?thesis
    using g gr w u v(1,5) tr kside_dma_frame [OF u(3)] dma_frame_mcdi [OF u(3)] by (simp add: hw_down_def)
qed

lemma detach_total:
  assumes "serving s" "session_inv (capio_sc s)"
  shows "\<exists>s'. sfc7120_fbsd_detach K s = Some (0, s') \<and> detached s s'"
proof -
  let ?h = "Release KCdev # Call ''modmap_unregister_vaddr_callback'' # io s"
  let ?s1 = "s\<lparr>device_attached := False, dying := True, cdev := False, io := ?h, kres := kres s - {KCdev}\<rparr>"
  have all: "r \<in> kres s" if "\<not> session_res r" for r
  proof -
    have "dev_res (kres s) = {r. \<not> session_res r}" using assms(1) by (simp add: serving_def)
    with that have "r \<in> dev_res (kres s)" by simp
    then show ?thesis by (simp add: dev_res_def)
  qed
  have lk: "sc_mtx s = MtxFree" "rx_mtx s = MtxFree" "cdev s" "mem_resource s \<noteq> None" "cap_mtx (capio_sc s) = MtxFree"
    using assms by (simp_all add: serving_def dp_ok_def session_inv_def)
  obtain u where u: "(do { s \<leftarrow> sfc7120_intr_teardown ?s1; s \<leftarrow> sfc7120_hw_teardown K s; sfc7120_free_dma_resources s }) = Some u"
      "kres u = kres s - {KCdev} - intr_res - dmabuf_res DMA_MCDI - res_of six_bufs" "dma_inv u"
      "\<not> mcdi_initialized u" "mcdi_mtx u = MtxAbsent"
      "kside u = kside (intr_mark False (s\<lparr>device_attached := False, dying := True, cdev := False\<rparr>))"
      "mc_requests (io u) = mc_requests (io s) @ teardown_requests s"
    using detach_prefix [OF assms(1), of ?h K] by auto
  have k: "capio_sc u = capio_sc s" "sc_mtx u = MtxFree" "rx_mtx u = MtxFree" "mem_resource u \<noteq> None" "\<not> cdev u" "dying u"
      "\<not> msix_bar_resource u" "msix_nvec u = 0" "\<not> irq_resource u" "\<not> irq_handle u" "\<not> intr_initialized u"
    using u(6) lk by (simp_all add: kside_def intr_mark_def)
  have r: "KBar2 \<in> kres u" "KBusMaster \<in> kres u - {KBar2}"
    using all [of KBar2] all [of KBusMaster] by (simp_all add: u(2) res_defs)
  let ?t = "u\<lparr>io := Release KBusMaster # Release KBar2 # io u, kres := kres u - {KBar2} - {KBusMaster}, mem_resource := None,
      capio_sc := (capio_sc u)\<lparr>cap_mtx := MtxAbsent\<rparr>, rx_mtx := MtxAbsent, sc_mtx := MtxAbsent\<rparr>"
  have run: "sfc7120_fbsd_detach K s = Some (0, ?t)"
  proof -
    have e: "s\<lparr>io := ?h, kres := kres s - {KCdev}, device_attached := False, dying := True, sc_mtx := MtxFree, cdev := False\<rparr> =
        s\<lparr>io := ?h, kres := kres s - {KCdev}, device_attached := False, dying := True, cdev := False\<rparr>"
      using lk(1) by (intro sfc7120_softc.equality) simp_all
    have "sfc7120_fbsd_detach K s = (do { s \<leftarrow> sfc7120_intr_teardown ?s1; s \<leftarrow> sfc7120_hw_teardown K s; sfc7120_free_dma_resources s }) \<bind> (\<lambda>s. do {
         s \<leftarrow> (if mem_resource s \<noteq> None then do { s \<leftarrow> release KBar2 s; Some (s\<lparr>mem_resource := None\<rparr>) } else Some s);
         s \<leftarrow> release KBusMaster s;
         s \<leftarrow> capio_destroy s;
         m \<leftarrow> mtx_destroy (rx_mtx s);
         let s = s\<lparr>rx_mtx := m\<rparr>;
         m \<leftarrow> mtx_destroy (sc_mtx s);
         Some (0, s\<lparr>sc_mtx := m\<rparr>) })"
      using lk all [of KCdev] by (simp add: sfc7120_fbsd_detach_def release_def softc_emit Let_def e)
    also have "\<dots> = Some (0, ?t)"
      unfolding u(1) bind.bind_lunit
      using k r lk(5) by (simp add: release_def softc_emit capio_destroy_def capio_upd_def del: not_None_eq)
    finally show ?thesis .
  qed
  have kt: "kres ?t = session_part (kres s)"
    using session_part_eq [of "kres s"] assms(1) by (simp add: u(2) serving_def)
  have "kres ?t \<inter> dmabuf_res d = {}" for d
    unfolding kt using not_session_dmabuf by (auto simp: session_part_def)
  moreover have "dma_inv ?t"
    using u(3) by (auto simp: dma_inv_def dmabuf_res_def)
  ultimately have dm: "dma ?t = (\<lambda>_. no_dmabuf)" by (intro all_free')
  have "kres ?t \<inter> intr_res = {}" unfolding kt using not_session_intr by (auto simp: session_part_def)
  then have "intr_down ?t" using k by (simp add: intr_down_def)
  then have "detached s ?t"
    unfolding detached_def using kt dm u(4,5,7) k by simp
  with run show ?thesis by blast
qed

section \<open>Properties\<close>

lemma live_session: "session_inv (capio_sc live_softc)"
  by (simp add: session_inv_def live_softc_def)

text \<open>C3 The driver's invariant: whatever sequence of system calls (with any token, command and argument), mappings,
  unmappings, modmap callbacks, interrupts, polls, opens and closes is run, and whatever the NIC and the kernel do
  meanwhile, the device stays in service and the session well-formed.\<close>

theorem driver_invariant:
  assumes "driver_run K s s'" "serving s" "session_inv (capio_sc s)"
  shows "serving s' \<and> session_inv (capio_sc s')"
  by (rule driver_run_inv [OF assms])

theorem driver_invariant_witness:
  "\<exists>s'. driver_run quiet_env live_softc s' \<and> rx_received s' \<and> serving s' \<and> session_inv (capio_sc s')"
proof -
  let ?s = "live_softc\<lparr>io := Call ''selwakeuppri'' # io live_softc, rx_received := True\<rparr>"
  have "sfc7120_rx_task_handler live_softc = Some ?s" by (rule rx_task_eq) (simp add: live_softc_fields)
  then have r: "driver_run quiet_env live_softc ?s" by (intro driver_run.Step [OF driver_run.Start] driver_step.RxTask)
  show ?thesis using driver_invariant [OF r live_serving live_session] r by (intro exI [of _ ?s]) simp
qed



text \<open>C5 Detach takes everything down: it returns 0 and the device holds no kernel resource any more, no DMA memory
  is allocated, every lock is destroyed, the node is gone, the device is marked dying, and the MC was sent the
  teardown commands in order.  Only the handles and objects of live mappings are left, for their own destructor.\<close>

theorem detach_releases_everything:
  assumes "serving s" "session_inv (capio_sc s)"
  shows "\<exists>s'. sfc7120_fbsd_detach K s = Some (0, s') \<and> detached s s'"
  by (rule detach_total [OF assms])

theorem detach_releases_everything_witness:
  "\<exists>s'. sfc7120_fbsd_detach quiet_env live_softc = Some (0, s') \<and> detached live_softc s'"
  by (rule detach_releases_everything [OF live_serving live_session])

end
