(* ===== verification/Userlib.thy ===== *)
theory Userlib
  imports Driver
begin

text \<open>
  The userspace library \<open>userlib/sfc7120_user.c\<close>.  A client's state is \<open>sfc7120_if\<close>; it runs against
  the driver's softc, which it reaches in two ways: through system calls, that is through the
  framework's \<open>capio_ioctl_handler\<close>, and directly, through the rings, buffers and register slices it
  has mapped, which are the driver's own memory and registers.  An access outside the bounds of a
  mapping or of a slice is a capability fault, \<open>None\<close>.

  The \<open>modmap\<close> device and libc are not part of the repository: they are the record \<open>sys\<close>.  A NULL
  pointer is 0, a NULL capability is one at address 0.
\<close>

section \<open>Client state\<close>

record sfc7120_if =
  if_fd :: int
  if_modmap_fd :: int
  if_cap_req :: cap_req
  if_mac_addr :: "u8 list"
  if_tx_buffer :: u64
  if_rx_buffer :: u64
  if_tx_desc_ring :: u64
  if_rx_desc_ring :: u64
  if_evq_ring :: u64
  if_mmio_slices :: "slice_def list option"
  if_mmio_slices_len :: nat
  if_vi_info :: vi_info
  if_vi_info_valid :: bool
  if_evq_read_ptr :: nat
  if_used_poll :: bool
  if_rx_head :: nat
  if_tx_head :: nat
  if_region_maps :: "(u64 \<times> u64) list"
  if_cap_token :: cap

text \<open>\<open>open\<close> of the two device nodes; the page \<open>malloc\<close> returns; whether \<open>calloc\<close> succeeds; the modmap
  requests for a region's size and slice count and for a mapping (return value, address, filled-in
  slices); \<open>munmap\<close>.\<close>

record sys =
  sys_open_dev :: int
  sys_open_modmap :: int
  sys_malloc :: cap
  sys_calloc_ok :: bool
  sys_get_slices :: "int \<Rightarrow> softc \<Rightarrow> (int \<times> u64 \<times> nat \<times> softc) option"
  sys_modmap_map :: "cap_req \<Rightarrow> int \<Rightarrow> u64 \<Rightarrow> softc \<Rightarrow> (int \<times> u64 \<times> slice_def list \<times> softc) option"
  sys_munmap :: "u64 \<Rightarrow> u64 \<Rightarrow> softc \<Rightarrow> (int \<times> softc) option"

datatype sfc7120_ev_type = SFC7120_EV_RX | SFC7120_EV_TX | SFC7120_EV_OTHER

record sfc7120_ev =
  ev_type :: sfc7120_ev_type
  ev_tx_desc_idx :: u16
  ev_rx_bytes :: u16
  ev_raw :: u64

section \<open>Mapping regions\<close>

text \<open>\<open>sliced\<close> says whether the caller passed a slice array, which is then \<open>sfc->mmio_slices\<close>.\<close>

definition map_region :: "sys \<Rightarrow> sfc7120_vm_map_type \<Rightarrow> bool \<Rightarrow> sfc7120_if \<Rightarrow> softc \<Rightarrow> (u64 \<times> sfc7120_if \<times> softc) option" where
  "map_region S ty sliced u s = do {
     (r, region_len, n_slices, s) \<leftarrow> sys_get_slices S (map_type_code ty) s;
     if r < 0 then Some (0, u, s)
     else if region_len = 0 then Some (0, u, s)
     else if sliced \<and> \<not> sys_calloc_ok S then Some (0, u, s)
     else if \<not> sliced \<and> n_slices \<noteq> 0 then Some (0, u, s)
     else do {
       (r, addr, slices, s) \<leftarrow> sys_modmap_map S (if_cap_req u) (map_type_code ty) region_len s;
       if r < 0 then Some (0, u, s)
       else do {
         let u = (if sliced then u\<lparr>if_mmio_slices := Some slices, if_mmio_slices_len := n_slices\<rparr> else u);
         let u = u\<lparr>if_region_maps := (if_region_maps u)[nat (map_type_code ty) := (addr, region_len)]\<rparr>;
         Some (addr, u, s) } } }"

section \<open>System calls on the device\<close>

definition dev_ioctl ::
  "env \<Rightarrow> sfc_req capio_cmd \<Rightarrow> sfc7120_if \<Rightarrow> softc \<Rightarrow> (int \<times> (cap_req + sfc_reply) \<times> softc) option" where
  "dev_ioctl K cmd u s = capio_ioctl_handler K (sfc7120_capio_ops K) cmd (if_cap_req u) s"

section \<open>Teardown\<close>

fun munmap_all :: "sys \<Rightarrow> nat list \<Rightarrow> sfc7120_if \<Rightarrow> softc \<Rightarrow> (sfc7120_if \<times> softc) option" where
  "munmap_all S [] u s = Some (u, s)"
| "munmap_all S (i # is) u s =
     (let (base, len) = if_region_maps u ! i
      in if base \<noteq> 0 then do {
           (_, s) \<leftarrow> sys_munmap S base len s;
           munmap_all S is (u\<lparr>if_region_maps := (if_region_maps u)[i := (0, 0)]\<rparr>) s }
         else munmap_all S is u s)"

text \<open>The pointers are given back only by a client that drove the rings itself.\<close>

definition destroy_sync :: "env \<Rightarrow> sfc7120_if \<Rightarrow> softc \<Rightarrow> softc option" where
  "destroy_sync K u s =
     (if if_fd u \<ge> 0 \<and> if_vi_info_valid u \<and> if_used_poll u then do {
        (_, _, s) \<leftarrow> dev_ioctl K (DriverCmd (SFC7120_SET_EVQ_RPTR (of_nat (if_evq_read_ptr u))
                         (of_nat (if_tx_head u)) (of_nat (if_rx_head u)))) u s;
        Some s }
      else Some s)"

definition destroy_goodbye :: "env \<Rightarrow> sfc7120_if \<Rightarrow> softc \<Rightarrow> softc option" where
  "destroy_goodbye K u s =
     (if if_fd u \<ge> 0 then do { (_, _, s) \<leftarrow> dev_ioctl K CAPIO_GOODBYE u s; Some s } else Some s)"

text \<open>\<open>free\<close> of anything but the page \<open>malloc\<close> returned is undefined.\<close>

definition destroy_frees :: "sys \<Rightarrow> sfc7120_if \<Rightarrow> sfc7120_if option" where
  "destroy_frees S u = do {
     let u = (if if_mmio_slices u \<noteq> None then u\<lparr>if_mmio_slices := None, if_mmio_slices_len := 0\<rparr> else u);
     kassert (is_null (if_cap_token u) \<or> if_cap_token u = sys_malloc S);
     Some (if \<not> is_null (if_cap_token u) then u\<lparr>if_cap_token := null_cap\<rparr> else u) }"

text \<open>\<open>close\<close> of the last descriptor of the device calls \<open>sfc7120_close\<close>.\<close>

definition destroy_close :: "env \<Rightarrow> sfc7120_if \<Rightarrow> softc \<Rightarrow> softc option" where
  "destroy_close K u s = (if if_fd u \<ge> 0 then do { (_, s) \<leftarrow> sfc7120_close K s; Some s } else Some s)"

definition sfc7120_destroy :: "env \<Rightarrow> sys \<Rightarrow> sfc7120_if \<Rightarrow> softc \<Rightarrow> (sfc7120_if \<times> softc) option" where
  "sfc7120_destroy K S u s = do {
     (u, s) \<leftarrow> munmap_all S [0..<SFC7120_REGION_COUNT] u s;
     let u = u\<lparr>if_tx_buffer := 0, if_rx_buffer := 0, if_tx_desc_ring := 0, if_rx_desc_ring := 0, if_evq_ring := 0\<rparr>;
     s \<leftarrow> destroy_sync K u s;
     s \<leftarrow> destroy_goodbye K u s;
     u \<leftarrow> destroy_frees S u;
     s \<leftarrow> destroy_close K u s;
     Some (u, s) }"

section \<open>Bring-up\<close>

definition init_fail :: "env \<Rightarrow> sys \<Rightarrow> sfc7120_if \<Rightarrow> softc \<Rightarrow> (int \<times> sfc7120_if \<times> softc) option" where
  "init_fail K S u s = do { (u, s) \<leftarrow> sfc7120_destroy K S u s; Some (-1, u, s) }"

text \<open>Map one region, store its address with \<open>set\<close>, and go on; on NULL go to \<open>fail\<close>.\<close>

definition map_step ::
  "env \<Rightarrow> sys \<Rightarrow> sfc7120_vm_map_type \<Rightarrow> bool \<Rightarrow> (u64 \<Rightarrow> sfc7120_if \<Rightarrow> sfc7120_if)
   \<Rightarrow> (sfc7120_if \<Rightarrow> softc \<Rightarrow> (int \<times> sfc7120_if \<times> softc) option) \<Rightarrow> sfc7120_if \<Rightarrow> softc \<Rightarrow> (int \<times> sfc7120_if \<times> softc) option" where
  "map_step K S ty sliced store rest u s = do {
     (addr, u, s) \<leftarrow> map_region S ty sliced u s;
     let u = store addr u;
     if addr = 0 then init_fail K S u s else rest u s }"

text \<open>After the mappings: the VI geometry, the seeds of the three indices, the MAC address.  A reply of the
  wrong shape cannot happen and is \<open>None\<close>.\<close>

definition init_vi :: "env \<Rightarrow> sys \<Rightarrow> sfc7120_if \<Rightarrow> softc \<Rightarrow> (int \<times> sfc7120_if \<times> softc) option" where
  "init_vi K S u s = do {
     (e, out, s) \<leftarrow> dev_ioctl K (DriverCmd SFC7120_GET_VI_INFO) u s;
     if e \<noteq> 0 then init_fail K S u s
     else (case out of
        Inr (ViReply v) \<Rightarrow> do {
          let u = u\<lparr>if_vi_info := v, if_vi_info_valid := True, if_evq_read_ptr := unat (vi_evq_read_ptr v),
                    if_rx_head := unat (vi_rx_head v), if_tx_head := unat (vi_tx_head v)\<rparr>;
          (e, out, s) \<leftarrow> dev_ioctl K (DriverCmd SFC7120_GET_MAC) u s;
          if e \<noteq> 0 then init_fail K S u s
          else (case out of
             Inr (MacReply mac) \<Rightarrow> Some (0, u\<lparr>if_mac_addr := mac\<rparr>, s)
           | _ \<Rightarrow> None) }
      | _ \<Rightarrow> None) }"

definition init_maps :: "env \<Rightarrow> sys \<Rightarrow> sfc7120_if \<Rightarrow> softc \<Rightarrow> (int \<times> sfc7120_if \<times> softc) option" where
  "init_maps K S =
     map_step K S SFC7120_TX_BUFFER False (\<lambda>a u. u\<lparr>if_tx_buffer := a\<rparr>)
     (map_step K S SFC7120_RX_BUFFER False (\<lambda>a u. u\<lparr>if_rx_buffer := a\<rparr>)
     (map_step K S SFC7120_TX_DESC_RING False (\<lambda>a u. u\<lparr>if_tx_desc_ring := a\<rparr>)
     (map_step K S SFC7120_RX_DESC_RING False (\<lambda>a u. u\<lparr>if_rx_desc_ring := a\<rparr>)
     (map_step K S SFC7120_EVQ_RING False (\<lambda>a u. u\<lparr>if_evq_ring := a\<rparr>)
     (map_step K S SFC7120_MMIO_REGION True (\<lambda>a u. u)
     (init_vi K S))))))"

definition init_reset :: "sfc7120_if \<Rightarrow> sfc7120_if" where
  "init_reset u = u\<lparr>if_fd := -1, if_modmap_fd := -1, if_tx_buffer := 0, if_rx_buffer := 0, if_tx_desc_ring := 0,
     if_rx_desc_ring := 0, if_evq_ring := 0, if_mmio_slices := None, if_mmio_slices_len := 0, if_vi_info_valid := False,
     if_evq_read_ptr := 0, if_used_poll := False, if_rx_head := 0, if_tx_head := 0,
     if_region_maps := replicate SFC7120_REGION_COUNT (0, 0)\<rparr>"

definition sfc7120_init :: "env \<Rightarrow> sys \<Rightarrow> sfc7120_if \<Rightarrow> softc \<Rightarrow> (int \<times> sfc7120_if \<times> softc) option" where
  "sfc7120_init K S u s = do {
     let u = (init_reset u)\<lparr>if_fd := sys_open_dev S\<rparr>;
     if if_fd u < 0 then Some (-1, u, s)
     else do {
       let u = u\<lparr>if_modmap_fd := sys_open_modmap S\<rparr>;
       if if_modmap_fd u < 0 then init_fail K S u s
       else do {
         let u = u\<lparr>if_cap_token := sys_malloc S\<rparr>;
         if is_null (if_cap_token u) then init_fail K S u s
         else do {
           let u = u\<lparr>if_cap_req := (if_cap_req u)\<lparr>req_user_cap := if_cap_token u\<rparr>\<rparr>;
           (e, out, s) \<leftarrow> dev_ioctl K CAPIO_ATTACH u s;
           if e \<noteq> 0 then init_fail K S u s
           else (case out of
              Inl req \<Rightarrow> init_maps K S (u\<lparr>if_cap_req := req\<rparr>) s
            | Inr _ \<Rightarrow> None) } } } }"

section \<open>The system-call path\<close>

definition sfc7120_tx :: "env \<Rightarrow> cap \<Rightarrow> u64 \<Rightarrow> sfc7120_if \<Rightarrow> softc \<Rightarrow> (int \<times> softc) option" where
  "sfc7120_tx K buf len u s = do {
     (e, _, s) \<leftarrow> dev_ioctl K (DriverCmd (SFC7120_TX buf len)) u s;
     Some (if e \<noteq> 0 then -1 else 0, s) }"

text \<open>The second component is \<open>*len_out\<close>.\<close>

definition sfc7120_rx :: "env \<Rightarrow> sfc7120_if \<Rightarrow> softc \<Rightarrow> (int \<times> u16 option \<times> softc) option" where
  "sfc7120_rx K u s = do {
     (e, out, s) \<leftarrow> dev_ioctl K (DriverCmd SFC7120_RX) u s;
     if e \<noteq> 0 then Some (-1, None, s)
     else Some (0, case out of Inr (RxLength n) \<Rightarrow> Some n | _ \<Rightarrow> Some 0, s) }"

section \<open>The direct path\<close>

text \<open>A register store through slice \<open>i\<close> at byte \<open>b\<close>.\<close>

definition slice_write :: "nat \<Rightarrow> nat \<Rightarrow> u32 \<Rightarrow> sfc7120_if \<Rightarrow> softc \<Rightarrow> softc option" where
  "slice_write i b v u s = do {
     ds \<leftarrow> if_mmio_slices u;
     off \<leftarrow> slice_store ds i b;
     Some (SFC7120_WRITE_REG off v s) }"

definition decode_ev :: "u64 \<Rightarrow> sfc7120_ev" where
  "decode_ev ev =
     (let code = (ucast (drop_bit 60 ev) :: u32) AND 0xf
      in if code = 0 then \<lparr>ev_type = SFC7120_EV_RX, ev_tx_desc_idx = 0, ev_rx_bytes = ucast (ev AND 0x3fff), ev_raw = ev\<rparr>
         else if code = 2 then \<lparr>ev_type = SFC7120_EV_TX, ev_tx_desc_idx = ucast (ev AND 0xffff), ev_rx_bytes = 0, ev_raw = ev\<rparr>
         else \<lparr>ev_type = SFC7120_EV_OTHER, ev_tx_desc_idx = 0, ev_rx_bytes = 0, ev_raw = ev\<rparr>)"

text \<open>A load from the mapped data event ring sees what the NIC has written so far.\<close>

definition user_evq_read :: "sfc7120_if \<Rightarrow> softc \<Rightarrow> u64 option" where
  "user_evq_read u s =
     (if dma_mapped DMA_DATA_EVQ s \<and> if_evq_read_ptr u < SFC7120_NUM_EVQ_ENTRY then Some (data_evq_ring s (if_evq_read_ptr u)) else None)"

definition user_evq_consume :: "sfc7120_if \<Rightarrow> softc \<Rightarrow> (sfc7120_if \<times> softc) option" where
  "user_evq_consume u s =
     (if dma_mapped DMA_DATA_EVQ s \<and> if_evq_read_ptr u < SFC7120_NUM_EVQ_ENTRY
      then Some (u\<lparr>if_evq_read_ptr := evq_next (if_evq_read_ptr u)\<rparr>,
                 (emit (EvqZero DMA_DATA_EVQ (if_evq_read_ptr u)) s)\<lparr>data_evq_ring := (data_evq_ring s)(if_evq_read_ptr u := 0)\<rparr>)
      else None)"

fun poll_loop :: "env \<Rightarrow> nat \<Rightarrow> sfc7120_if \<Rightarrow> softc \<Rightarrow> (sfc7120_ev list \<times> sfc7120_if \<times> softc) option" where
  "poll_loop K 0 u s = Some ([], u, s)"
| "poll_loop K (Suc n) u s = do {
     let s = data_evq_sync K s;
     ev \<leftarrow> user_evq_read u s;
     if no_event ev then Some ([], u, s)
     else do {
       (u, s) \<leftarrow> user_evq_consume u s;
       (evs, u, s) \<leftarrow> poll_loop K n u s;
       Some (decode_ev ev # evs, u, s) } }"

text \<open>\<open>evs_ok\<close> says whether the caller's event array is not NULL; the filled entries are returned.\<close>

definition sfc7120_user_poll ::
  "env \<Rightarrow> bool \<Rightarrow> int \<Rightarrow> sfc7120_if \<Rightarrow> softc \<Rightarrow> (int \<times> sfc7120_ev list \<times> sfc7120_if \<times> softc) option" where
  "sfc7120_user_poll K evs_ok max_evs u s =
     (if \<not> evs_ok \<or> max_evs \<le> 0 then Some (-1, [], u, s)
      else if if_evq_ring u = 0 \<or> if_mmio_slices u = None
              \<or> if_mmio_slices_len u \<le> slice_idx SFC7120_SLICE_DATA_EVQ_RPTR_DBL then Some (-1, [], u, s)
      else do {
        let u = u\<lparr>if_used_poll := True\<rparr>;
        (evs, u, s) \<leftarrow> poll_loop K (nat max_evs) u s;
        s \<leftarrow> (if length evs > 0
              then slice_write (slice_idx SFC7120_SLICE_DATA_EVQ_RPTR_DBL) 0 (of_nat (if_evq_read_ptr u) AND SFC7120_EVQ_RPTR_MASK) u s
              else Some s);
        Some (int (length evs), evs, u, s) })"

text \<open>\<open>buf\<close> is the size of the caller's buffer (\<open>None\<close> for NULL); the result carries the frame copied
  into it.\<close>

definition rx_recv_frame :: "env \<Rightarrow> u16 \<Rightarrow> nat \<Rightarrow> nat \<Rightarrow> softc \<Rightarrow> (u8 list \<times> softc) option" where
  "rx_recv_frame K rx_bytes buf slot s = do {
     let s = rx_buf_sync K s;
     b8 \<leftarrow> rx_buf_read (slot + 8) s;
     b9 \<leftarrow> rx_buf_read (slot + 9) s;
     let plen = unat (rx_frame_len b8 b9 (ucast rx_bytes));
     kassert (slot + 14 + plen \<le> SFC7120_NUM_RX_DESC * SFC7120_RX_BUFFER_SIZE \<and> plen \<le> buf);
     Some (map (\<lambda>i. rx_buffer s (slot + 14 + i)) [0..<plen], s) }"

definition sfc7120_rx_recv ::
  "env \<Rightarrow> nat option \<Rightarrow> u16 \<Rightarrow> sfc7120_if \<Rightarrow> softc \<Rightarrow> (int \<times> u8 list \<times> sfc7120_if \<times> softc) option" where
  "sfc7120_rx_recv K buf rx_bytes u s =
     (case buf of
        None \<Rightarrow> Some (-1, [], u, s)
      | Some n \<Rightarrow>
          if if_rx_buffer u = 0 \<or> if_rx_desc_ring u = 0 \<or> if_mmio_slices u = None
             \<or> if_mmio_slices_len u \<le> slice_idx SFC7120_SLICE_RX_DESC_DBL then Some (-1, [], u, s)
          else do {
            let u = u\<lparr>if_used_poll := True\<rparr>;
            (frame, s) \<leftarrow> rx_recv_frame K rx_bytes n (if_rx_head u * SFC7120_RX_BUFFER_SIZE) s;
            let slot_pa = vi_rx_buffer_paddr (if_vi_info u) + of_nat (if_rx_head u * SFC7120_RX_BUFFER_SIZE);
            s \<leftarrow> rx_desc_write (if_rx_head u) (ef10_desc (of_nat SFC7120_RX_BUFFER_SIZE) slot_pa) s;
            s \<leftarrow> slice_write (slice_idx SFC7120_SLICE_RX_DESC_DBL) 0 (of_nat (if_rx_head u)) u s;
            Some (0, frame, u\<lparr>if_rx_head := rx_next (if_rx_head u)\<rparr>, s) })"

text \<open>\<open>buf\<close> is the packet's bytes (\<open>None\<close> for NULL).\<close>

definition tx_fill :: "(nat \<Rightarrow> u8) \<Rightarrow> nat \<Rightarrow> nat \<Rightarrow> softc \<Rightarrow> softc option" where
  "tx_fill bytes len slot s =
     (if dma_mapped DMA_TX_BUF s \<and> slot + len \<le> SFC7120_NUM_TX_DESC * SFC7120_TX_BUFFER_SIZE
      then Some (s\<lparr>tx_buffer := mem_fill slot len bytes (tx_buffer s)\<rparr>) else None)"

definition sfc7120_tx_post ::
  "(nat \<Rightarrow> u8) option \<Rightarrow> u64 \<Rightarrow> sfc7120_if \<Rightarrow> softc \<Rightarrow> (int \<times> sfc7120_if \<times> softc) option" where
  "sfc7120_tx_post buf len u s =
     (case buf of
        None \<Rightarrow> Some (-1, u, s)
      | Some bytes \<Rightarrow>
          if if_tx_buffer u = 0 \<or> if_tx_desc_ring u = 0 \<or> if_mmio_slices u = None
             \<or> if_mmio_slices_len u \<le> slice_idx SFC7120_SLICE_TX_DESC_DBL then Some (-1, u, s)
          else if len = 0 \<or> unat len > SFC7120_TX_BUFFER_SIZE then Some (-1, u, s)
          else do {
            let u = u\<lparr>if_used_poll := True\<rparr>;
            s \<leftarrow> tx_fill bytes (unat len) (if_tx_head u * SFC7120_TX_BUFFER_SIZE) s;
            let slot_pa = vi_tx_buffer_paddr (if_vi_info u) + of_nat (if_tx_head u * SFC7120_TX_BUFFER_SIZE);
            s \<leftarrow> tx_desc_write (if_tx_head u) (ef10_desc len slot_pa) s;
            s \<leftarrow> slice_write (slice_idx SFC7120_SLICE_TX_DESC_DBL) 8 (of_nat (tx_next (if_tx_head u))) u s;
            Some (0, u\<lparr>if_tx_head := tx_next (if_tx_head u)\<rparr>, s) })"

section \<open>Doorbells through slices\<close>

lemma slice_write_eqs:
  assumes "if_mmio_slices u = Some sfc7120_reg_slices"
  shows "slice_write 1 0 v u s = Some (s\<lparr>io := RegWrite SFC7120_REG_DATA_EVQ_RPTR_DBL v # io s\<rparr>)"
    "slice_write 2 0 v u s = Some (s\<lparr>io := RegWrite SFC7120_REG_DATA_RX_DESC_DBL v # io s\<rparr>)"
    "slice_write 3 8 v u s = Some (s\<lparr>io := RegWrite SFC7120_REG_DATA_TX_WPTR_DBL v # io s\<rparr>)"
  using assms by (simp_all add: slice_write_def slice_store_def sfc7120_reg_slices_def softc_io)

text \<open>A client that went through \<open>sfc7120_init\<close>: every region mapped, the slices of the manifest, the
  bus addresses of the buffers, indices within the rings.\<close>

definition client_ok :: "sfc7120_if \<Rightarrow> softc \<Rightarrow> bool" where
  "client_ok u s \<longleftrightarrow>
     if_tx_buffer u \<noteq> 0 \<and> if_rx_buffer u \<noteq> 0 \<and> if_tx_desc_ring u \<noteq> 0 \<and> if_rx_desc_ring u \<noteq> 0 \<and> if_evq_ring u \<noteq> 0
     \<and> if_mmio_slices u = Some sfc7120_reg_slices \<and> if_mmio_slices_len u = SFC7120_MMIO_SLICE_COUNT
     \<and> vi_tx_buffer_paddr (if_vi_info u) = dm_paddr (dma s DMA_TX_BUF)
     \<and> vi_rx_buffer_paddr (if_vi_info u) = dm_paddr (dma s DMA_RX_BUF)
     \<and> if_evq_read_ptr u < SFC7120_NUM_EVQ_ENTRY \<and> if_tx_head u < SFC7120_NUM_TX_DESC \<and> if_rx_head u < SFC7120_NUM_RX_DESC"

lemma slice_count [simp]: "SFC7120_MMIO_SLICE_COUNT = 5"
  by (simp add: SFC7120_MMIO_SLICE_COUNT_def sfc7120_reg_slices_def)

section \<open>Direct transmission\<close>

lemma tx_post_eq:
  assumes "client_ok u s" "dp_ok s" "len \<noteq> 0" "unat len \<le> SFC7120_TX_BUFFER_SIZE"
  shows "sfc7120_tx_post (Some bytes) len u s =
    (let i = if_tx_head u; d = ef10_desc len (tx_slot_pa i s) in
     Some (0, u\<lparr>if_used_poll := True, if_tx_head := tx_next i\<rparr>,
       s\<lparr>io := RegWrite SFC7120_REG_DATA_TX_WPTR_DBL (of_nat (tx_next i)) # TxDescStore i d # io s,
         tx_buffer := mem_fill (i * SFC7120_TX_BUFFER_SIZE) (unat len) bytes (tx_buffer s),
         tx_desc_ring := (tx_desc_ring s)(i := d)\<rparr>))"
proof -
  have c: "if_tx_buffer u \<noteq> 0" "if_tx_desc_ring u \<noteq> 0" "if_mmio_slices u = Some sfc7120_reg_slices" "if_mmio_slices_len u = 5"
      "vi_tx_buffer_paddr (if_vi_info u) = dm_paddr (dma s DMA_TX_BUF)" "if_tx_head u < 512"
    using assms(1) by (simp_all add: client_ok_def)
  have m: "dma_mapped DMA_TX_BUF s" "dma_mapped DMA_TX_DESC s" using assms(2) by (simp_all add: dp_ok_def)
  have room: "if_tx_head u * 2048 + unat len \<le> 1048576" using c(6) assms(4) by linarith
  show ?thesis
    using c m room assms(3,4)
    by (simp add: sfc7120_tx_post_def tx_fill_def tx_desc_write_def dma_mapped_def softc_emit slice_write_eqs tx_slot_pa_def Let_def)
qed

section \<open>Direct reception\<close>

lemma rx_recv_eq:
  assumes "client_ok u s" "dp_ok s" "i = if_rx_head u"
    "m = dma_in (rxb_mem K (RxBufPostread # io s)) (rx_buffer s)"
    "plen = unat (rx_frame_len (m (i * 2048 + 8)) (m (i * 2048 + 9)) (ucast rx_bytes))"
    "i * 2048 + 14 + plen \<le> 1048576" "plen \<le> n"
  shows "sfc7120_rx_recv K (Some n) rx_bytes u s =
    (let d = ef10_desc (of_nat SFC7120_RX_BUFFER_SIZE) (rx_slot_pa i s) in
     Some (0, map (\<lambda>k. m (i * 2048 + 14 + k)) [0..<plen], u\<lparr>if_used_poll := True, if_rx_head := rx_next i\<rparr>,
       s\<lparr>io := RegWrite SFC7120_REG_DATA_RX_DESC_DBL (of_nat i) # RxDescStore i d # RxBufPostread # io s,
         rx_buffer := m, rx_desc_ring := (rx_desc_ring s)(i := d)\<rparr>))"
proof -
  have c: "if_rx_buffer u \<noteq> 0" "if_rx_desc_ring u \<noteq> 0" "if_mmio_slices u = Some sfc7120_reg_slices" "if_mmio_slices_len u = 5"
      "vi_rx_buffer_paddr (if_vi_info u) = dm_paddr (dma s DMA_RX_BUF)" "i < 512"
    using assms(1,3) by (simp_all add: client_ok_def)
  have mm: "dma_mapped DMA_RX_BUF s" "dma_mapped DMA_RX_DESC s" using assms(2) by (simp_all add: dp_ok_def)
  let ?s1 = "s\<lparr>io := RxBufPostread # io s, rx_buffer := m\<rparr>"
  have sync: "rx_buf_sync K s = ?s1" by (simp add: rx_buf_sync_eq assms(4))
  have rd: "rx_buf_read (i * 2048 + 8) ?s1 = Some (m (i * 2048 + 8))" "rx_buf_read (i * 2048 + 9) ?s1 = Some (m (i * 2048 + 9))"
    using mm(1) c(6) by (simp_all add: rx_buf_read_def dma_mapped_def)
  have fr: "rx_recv_frame K rx_bytes n (i * 2048) s = Some (map (\<lambda>k. m (i * 2048 + 14 + k)) [0..<plen], ?s1)"
    unfolding rx_recv_frame_def sync Let_def rd bind.bind_lunit assms(5) [symmetric]
    using assms(6,7) by simp
  have dw: "rx_desc_write i d ?s1 = Some (?s1\<lparr>io := RxDescStore i d # io ?s1, rx_desc_ring := (rx_desc_ring s)(i := d)\<rparr>)" for d
    using mm(2) c(6) by (simp add: rx_desc_write_def dma_mapped_def softc_emit)
  show ?thesis
    using c assms(3) [symmetric] fr dw by (simp add: sfc7120_rx_recv_def slice_write_eqs rx_slot_pa_def Let_def)
qed

section \<open>Polling\<close>

definition user_polled :: "sfc7120_if \<Rightarrow> softc \<Rightarrow> sfc7120_ev list \<Rightarrow> sfc7120_if \<Rightarrow> softc \<Rightarrow> bool" where
  "user_polled u s evs u' s' \<longleftrightarrow>
     u' = u\<lparr>if_evq_read_ptr := (if_evq_read_ptr u + length evs) mod 512\<rparr>
     \<and> (\<exists>h q. s' = s\<lparr>io := h @ io s, data_evq_ring := q\<rparr> \<and> list_all evq_event h)
     \<and> list_all (\<lambda>e. \<not> no_event (ev_raw e) \<and> e = decode_ev (ev_raw e)) evs"

lemma decode_raw [simp]: "ev_raw (decode_ev ev) = ev"
  by (simp add: decode_ev_def Let_def)

lemma poll_loop_total:
  "dma_mapped DMA_DATA_EVQ s \<Longrightarrow> if_evq_read_ptr u < 512 \<Longrightarrow>
   \<exists>evs u' s'. poll_loop K n u s = Some (evs, u', s') \<and> user_polled u s evs u' s' \<and> length evs \<le> n"
proof (induction n arbitrary: u s)
  case 0
  have "u\<lparr>if_evq_read_ptr := if_evq_read_ptr u mod 512\<rparr> = u" using 0 by simp
  then have "user_polled u s [] u s"
    unfolding user_polled_def by (auto intro!: exI [of _ "[]"] exI [of _ "data_evq_ring s"])
  then show ?case by simp
next
  case (Suc n)
  let ?p = "if_evq_read_ptr u"
  let ?t = "data_evq_sync K s"
  define q where "q = data_evq_ring ?t"
  have t: "?t = s\<lparr>io := EvqPostread DMA_DATA_EVQ # io s, data_evq_ring := q\<rparr>" by (simp add: data_evq_sync_eq q_def)
  have mt: "dma_mapped DMA_DATA_EVQ ?t" using Suc.prems(1) by (simp add: t dma_mapped_def)
  have rd: "user_evq_read u ?t = Some (q ?p)" using mt Suc.prems(2) by (simp add: user_evq_read_def q_def)
  show ?case
  proof (cases "no_event (q ?p)")
    case True
    have "u\<lparr>if_evq_read_ptr := ?p mod 512\<rparr> = u" using Suc.prems(2) by simp
    then have "user_polled u s [] u ?t"
      unfolding user_polled_def by (auto simp: t intro!: exI [of _ "[EvqPostread DMA_DATA_EVQ]"] exI [of _ q])
    moreover have "poll_loop K (Suc n) u s = Some ([], u, ?t)" using rd True by simp
    ultimately show ?thesis by auto
  next
    case False
    let ?v = "s\<lparr>io := EvqZero DMA_DATA_EVQ ?p # EvqPostread DMA_DATA_EVQ # io s, data_evq_ring := q(?p := 0)\<rparr>"
    let ?u = "u\<lparr>if_evq_read_ptr := (?p + 1) mod 512\<rparr>"
    have c: "user_evq_consume u ?t = Some (?u, ?v)"
      using mt Suc.prems(2) by (simp add: user_evq_consume_def softc_emit evq_ring.step_mod t)
    have "dma_mapped DMA_DATA_EVQ ?v" "if_evq_read_ptr ?u < 512" using Suc.prems(1) by (simp_all add: dma_mapped_def)
    from Suc.IH [OF this] obtain evs u' s' where r: "poll_loop K n ?u ?v = Some (evs, u', s')" "user_polled ?u ?v evs u' s'" "length evs \<le> n"
      by blast
    from r(2) obtain h q' where h: "s' = ?v\<lparr>io := h @ io ?v, data_evq_ring := q'\<rparr>" "list_all evq_event h"
      by (auto simp: user_polled_def)
    have "s' = s\<lparr>io := (h @ [EvqZero DMA_DATA_EVQ ?p, EvqPostread DMA_DATA_EVQ]) @ io s, data_evq_ring := q'\<rparr>" using h(1) by simp
    then have "user_polled u s (decode_ev (q ?p) # evs) u' s'"
      using r(2) h(2) False unfolding user_polled_def
      by (auto simp: mod_add_left_eq intro!: exI [of _ "h @ [EvqZero DMA_DATA_EVQ ?p, EvqPostread DMA_DATA_EVQ]"] exI [of _ q'])
    moreover have "poll_loop K (Suc n) u s = Some (decode_ev (q ?p) # evs, u', s')"
      using rd False c r(1) by simp
    ultimately show ?thesis using r(3) by auto
  qed
qed

text \<open>With the NIC quiet, a poll returns the pending events in order and zeroes their slots.\<close>

definition evq_idle :: "env \<Rightarrow> bool" where
  "evq_idle K \<longleftrightarrow> (\<forall>h i. evq_mem K h DMA_DATA_EVQ i = None)"

lemma dma_in_None: "(\<And>i. w i = None) \<Longrightarrow> dma_in w m = m"
  by (rule ext) (simp add: dma_in_def)

lemma poll_loop_pending:
  assumes "evq_idle K"
  shows "dma_mapped DMA_DATA_EVQ s \<Longrightarrow> if_evq_read_ptr u < 512 \<Longrightarrow> n \<le> 512 \<Longrightarrow>
   evs = pending n (data_evq_ring s) (if_evq_read_ptr u) \<Longrightarrow>
   \<exists>h. poll_loop K n u s = Some (map decode_ev evs, u\<lparr>if_evq_read_ptr := (if_evq_read_ptr u + length evs) mod 512\<rparr>,
     s\<lparr>io := h @ io s, data_evq_ring := zeroed (length evs) (if_evq_read_ptr u) (data_evq_ring s)\<rparr>) \<and> list_all evq_event h"
proof (induction n arbitrary: u s evs)
  case 0
  then show ?case by (auto simp: pending_def intro!: exI [of _ "[]"])
next
  case (Suc n)
  let ?p = "if_evq_read_ptr u" and ?q = "data_evq_ring s"
  let ?t = "data_evq_sync K s"
  have t: "?t = s\<lparr>io := EvqPostread DMA_DATA_EVQ # io s, data_evq_ring := ?q\<rparr>"
    using assms by (simp add: data_evq_sync_eq evq_idle_def dma_in_None)
  have mt: "dma_mapped DMA_DATA_EVQ ?t" using Suc.prems(1) by (simp add: t dma_mapped_def)
  have rd: "user_evq_read u ?t = Some (?q ?p)" using mt Suc.prems(2) by (simp add: user_evq_read_def t)
  have step: "evs = (if no_event (?q ?p) then [] else ?q ?p # pending n (?q(?p := 0)) ((?p + 1) mod 512))"
    using pending_step [of ?p n ?q] Suc.prems by simp
  show ?case
  proof (cases "no_event (?q ?p)")
    case True
    then show ?thesis
      using rd step Suc.prems(2) t by (intro exI [of _ "[EvqPostread DMA_DATA_EVQ]"]) simp
  next
    case False
    let ?v = "s\<lparr>io := EvqZero DMA_DATA_EVQ ?p # EvqPostread DMA_DATA_EVQ # io s, data_evq_ring := ?q(?p := 0)\<rparr>"
    let ?u = "u\<lparr>if_evq_read_ptr := (?p + 1) mod 512\<rparr>"
    define es where "es = pending n (?q(?p := 0)) ((?p + 1) mod 512)"
    have c: "user_evq_consume u ?t = Some (?u, ?v)"
      using mt Suc.prems(2) by (simp add: user_evq_consume_def softc_emit evq_ring.step_mod t)
    have v: "dma_mapped DMA_DATA_EVQ ?v" "if_evq_read_ptr ?u < 512" "n \<le> 512" "es = pending n (data_evq_ring ?v) (if_evq_read_ptr ?u)"
      using Suc.prems(1,3) by (simp_all add: dma_mapped_def es_def)
    obtain h where h: "poll_loop K n ?u ?v = Some (map decode_ev es, ?u\<lparr>if_evq_read_ptr := (if_evq_read_ptr ?u + length es) mod 512\<rparr>,
        ?v\<lparr>io := h @ io ?v, data_evq_ring := zeroed (length es) (if_evq_read_ptr ?u) (data_evq_ring ?v)\<rparr>)" "list_all evq_event h"
      using Suc.IH [OF v] by blast
    have "evs = ?q ?p # es" using step False by (simp add: es_def)
    then show ?thesis
      using rd False c h zeroed_Suc [OF Suc.prems(2), of "length es" ?q]
      by (intro exI [of _ "h @ [EvqZero DMA_DATA_EVQ ?p, EvqPostread DMA_DATA_EVQ]"]) (simp add: mod_add_left_eq)
  qed
qed

lemma user_poll_spec:
  assumes "client_ok u s" "dp_ok s" "0 < max_evs"
  shows "\<exists>evs u' s'. sfc7120_user_poll K True max_evs u s = Some (int (length evs), evs, u', s')
    \<and> int (length evs) \<le> max_evs \<and> u' = u\<lparr>if_used_poll := True, if_evq_read_ptr := (if_evq_read_ptr u + length evs) mod 512\<rparr>
    \<and> (\<exists>h q. s' = s\<lparr>io := h, data_evq_ring := q\<rparr>)
    \<and> list_all (\<lambda>e. \<not> no_event (ev_raw e) \<and> e = decode_ev (ev_raw e)) evs
    \<and> reg_writes (io s') = reg_writes (io s) @ (if evs = [] then [] else [(SFC7120_REG_DATA_EVQ_RPTR_DBL, of_nat (if_evq_read_ptr u'))])"
proof -
  have c: "if_evq_ring u \<noteq> 0" "if_mmio_slices u = Some sfc7120_reg_slices" "if_mmio_slices_len u = 5" "if_evq_read_ptr u < 512"
    using assms(1) by (simp_all add: client_ok_def)
  let ?u = "u\<lparr>if_used_poll := True\<rparr>"
  have "dma_mapped DMA_DATA_EVQ s" using assms(2) by (simp add: dp_ok_def)
  then obtain evs u' s1 where p: "poll_loop K (nat max_evs) ?u s = Some (evs, u', s1)" "user_polled ?u s evs u' s1" "length evs \<le> nat max_evs"
    using poll_loop_total [of s ?u K "nat max_evs"] c(4) by auto
  from p(2) obtain h q where h: "s1 = s\<lparr>io := h @ io s, data_evq_ring := q\<rparr>" "list_all evq_event h"
      "u' = u\<lparr>if_used_poll := True, if_evq_read_ptr := (if_evq_read_ptr u + length evs) mod 512\<rparr>"
      "list_all (\<lambda>e. \<not> no_event (ev_raw e) \<and> e = decode_ev (ev_raw e)) evs"
    by (auto simp: user_polled_def)
  have sl: "if_mmio_slices u' = Some sfc7120_reg_slices" using h(3) c(2) by simp
  have m: "of_nat (if_evq_read_ptr u') AND SFC7120_EVQ_RPTR_MASK = (of_nat (if_evq_read_ptr u') :: u32)"
    by (rule rptr_mask) (simp add: h(3))
  let ?g = "if evs = [] then [] else [RegWrite SFC7120_REG_DATA_EVQ_RPTR_DBL (of_nat (if_evq_read_ptr u'))]"
  let ?s' = "s\<lparr>io := ?g @ h @ io s, data_evq_ring := q\<rparr>"
  have run: "sfc7120_user_poll K True max_evs u s = Some (int (length evs), evs, u', ?s')"
    using c(1,2,3) assms(3) p(1) slice_write_eqs(1) [OF sl] by (auto simp: sfc7120_user_poll_def m h(1))
  have "reg_writes (io ?s') = reg_writes (io s) @ (if evs = [] then [] else [(SFC7120_REG_DATA_EVQ_RPTR_DBL, of_nat (if_evq_read_ptr u'))])"
    using quiet_append(1) [OF evq_quiet [OF h(2)]] by simp
  with run h(3,4) p(3) assms(3) show ?thesis by (intro exI [of _ evs] exI [of _ u'] exI [of _ ?s']) auto
qed

section \<open>The kernel path and the direct path agree\<close>

lemma tx_paths_agree:
  assumes "client_ok u s" "dp_ok s" "if_tx_head u = tx_head s" "tx_accepted buf len" "copyin K (io s) buf (unat len) = (0, m, bytes)"
  shows "\<exists>u' s1 e r s2. sfc7120_tx_post (Some bytes) len u s = Some (0, u', s1)
    \<and> sfc7120_ioctl K (SFC7120_TX buf len) s = Some (e, r, s2)
    \<and> tx_desc_ring s1 = tx_desc_ring s2 \<and> tx_buffer s1 = tx_buffer s2 \<and> if_tx_head u' = tx_head s2
    \<and> (filter (\<lambda>w. fst w = SFC7120_REG_DATA_TX_WPTR_DBL) (reg_writes (io s1)))
      = (filter (\<lambda>w. fst w = SFC7120_REG_DATA_TX_WPTR_DBL) (reg_writes (io s2)))"
proof -
  have l: "len \<noteq> 0" "unat len \<le> SFC7120_TX_BUFFER_SIZE" using assms(4) by (simp_all add: tx_accepted_def)
  obtain b n s2 where k: "sfc7120_ioctl_tx K buf len s = Some (if b then 0 else ETIMEDOUT, TxStatus (if b then 0 else ETIMEDOUT), s2)"
      "tx_effect len bytes s n s2"
    using ioctl_tx_posts [OF assms(2,4,5)] by blast
  show ?thesis
    unfolding tx_post_eq [OF assms(1,2) l] Let_def assms(3)
    using k by (simp add: sfc7120_ioctl_def tx_effect_def)
qed

section \<open>Leaving\<close>

text \<open>What the mapping requests of the modmap device and \<open>munmap\<close> may do to the driver: they run the
  framework's callbacks and its pager, which touch the region table, the mapping handles and the history
  only; the session's token stays what it is.\<close>

definition mapping_only :: "softc \<Rightarrow> softc \<Rightarrow> bool" where
  "mapping_only s s' \<longleftrightarrow>
     capio_header.more s' = capio_header.more s \<and> dev_res (kres s') = dev_res (kres s) \<and> session_inv (capio_sc s')
     \<and> sealed_cap (capio_sc s') = sealed_cap (capio_sc s) \<and> original_cap (capio_sc s') = original_cap (capio_sc s)
     \<and> sealing_key (capio_sc s') = sealing_key (capio_sc s)"

definition sys_ok :: "sys \<Rightarrow> bool" where
  "sys_ok S \<longleftrightarrow>
     (\<forall>ty s. session_inv (capio_sc s) \<longrightarrow> (\<exists>r n k. sys_get_slices S ty s = Some (r, n, k, s)))
     \<and> (\<forall>req ty n s. session_inv (capio_sc s) \<longrightarrow> (\<exists>r a sl s'. sys_modmap_map S req ty n s = Some (r, a, sl, s') \<and> mapping_only s s'))
     \<and> (\<forall>a n s. session_inv (capio_sc s) \<longrightarrow> (\<exists>r s'. sys_munmap S a n s = Some (r, s') \<and> mapping_only s s'))"

text \<open>The framework's pager destructor and address callback are such steps.\<close>

lemma dtor_mapping_only:
  assumes "session_inv (capio_sc s)" "capio_pager_dtor hid ty s = Some s'"
  shows "mapping_only s s'"
  using assms(2) session_inv_dtor(1) [OF assms]
  by (auto simp: mapping_only_def capio_pager_dtor_eq [OF session_inv_unlocked [OF assms(1)]] release_def emit_def split: if_splits)

lemma vaddr_mapping_only:
  assumes "session_inv (capio_sc s)" "capio_vaddr_callback va sz ty s = Some (e, s')"
  shows "mapping_only s s'"
  using assms(2) session_inv_vaddr [OF assms]
  by (auto simp: mapping_only_def capio_vaddr_callback_eq [OF session_inv_unlocked [OF assms(1)]])

definition indices :: "softc \<Rightarrow> nat \<times> nat \<times> nat" where
  "indices s = (data_evq_read_ptr s, tx_head s, rx_head s)"

text \<open>\<open>driver_side\<close> is the driver's own part of the softc: all of it but the history, the resources held and
  the session.\<close>

definition put_indices :: "nat \<times> nat \<times> nat \<Rightarrow> softc \<Rightarrow> softc" where
  "put_indices i s = s\<lparr>data_evq_read_ptr := fst i, tx_head := fst (snd i), rx_head := snd (snd i)\<rparr>"

abbreviation driver_side where
  "driver_side s \<equiv> capio_header.more (s :: softc)"

lemma put_indices_self [simp]: "put_indices (indices s) s = s"
  by (simp add: put_indices_def indices_def)

lemma put_indices_side: "driver_side s' = driver_side s \<Longrightarrow> driver_side (put_indices i s') = driver_side (put_indices i s)"
  by (cases s, cases s') (simp add: put_indices_def)

lemma indices_put [simp]: "indices (put_indices i s) = i"
  by (simp add: put_indices_def indices_def)

lemma indices_more: "capio_header.more s' = capio_header.more s \<Longrightarrow> indices s' = indices s"
  by (cases s, cases s') (simp add: indices_def)

text \<open>A driver in service with a well-formed session.\<close>

definition in_service :: "softc \<Rightarrow> bool" where
  "in_service s \<longleftrightarrow> serving s \<and> session_inv (capio_sc s)"

lemma mapping_only_up:
  assumes "in_service s" "mapping_only s s'"
  shows "in_service s'" "indices s' = indices s" "check_cap_token (capio_sc s') t = check_cap_token (capio_sc s) t"
    "driver_side s' = driver_side s"
  using assms drv.ok_more [of s s'] indices_more [of s' s] by (simp_all add: in_service_def mapping_only_def check_cap_token_def)

lemma mapping_only_trans: "mapping_only a b \<Longrightarrow> mapping_only b c \<Longrightarrow> mapping_only a c"
  by (simp add: mapping_only_def)

lemma mapping_only_refl: "session_inv (capio_sc s) \<Longrightarrow> mapping_only s s"
  by (simp add: mapping_only_def)

lemma munmap_all_total:
  "sys_ok S \<Longrightarrow> session_inv (capio_sc s) \<Longrightarrow>
   \<exists>ms s'. munmap_all S is u s = Some (u\<lparr>if_region_maps := ms\<rparr>, s') \<and> mapping_only s s'"
proof (induction "is" arbitrary: u s)
  case Nil
  then show ?case using mapping_only_refl by (auto intro!: exI [of _ "if_region_maps u"])
next
  case (Cons i js)
  obtain base len where m: "if_region_maps u ! i = (base, len)" by (cases "if_region_maps u ! i")
  show ?case
  proof (cases "base = 0")
    case True
    with Cons m show ?thesis by simp
  next
    case False
    from Cons.prems obtain r t where t: "sys_munmap S base len s = Some (r, t)" "mapping_only s t"
      unfolding sys_ok_def by blast
    let ?u = "u\<lparr>if_region_maps := (if_region_maps u)[i := (0, 0)]\<rparr>"
    from t(2) have "session_inv (capio_sc t)" by (simp add: mapping_only_def)
    from Cons.IH [OF Cons.prems(1) this, of ?u] obtain ms s' where
      "munmap_all S js ?u t = Some (u\<lparr>if_region_maps := ms\<rparr>, s')" "mapping_only t s'" by auto
    then show ?thesis using t False m mapping_only_trans [OF t(2)] by auto
  qed
qed

lemma set_indices:
  assumes "dp_ok s" "p < 512" "t < 512" "r < 512"
  shows "sfc7120_ioctl K (SFC7120_SET_EVQ_RPTR (of_nat p) (of_nat t) (of_nat r)) s =
    Some (0, NoReply, s\<lparr>data_evq_read_ptr := p, tx_head := t, rx_head := r\<rparr>)"
proof -
  have u: "unat (of_nat n :: u32) = n" if "n < 512" for n using that by (simp add: unsigned_of_nat take_bit_nat_eq_self)
  have "s\<lparr>sc_mtx := MtxFree, data_evq_read_ptr := p, tx_head := t, rx_head := r\<rparr> = s\<lparr>data_evq_read_ptr := p, tx_head := t, rx_head := r\<rparr>"
    using assms(1) by (simp add: dp_ok_def)
  then show ?thesis using assms u by (simp add: sfc7120_ioctl_def dp_ok_def)
qed

lemma dev_ioctl_up:
  assumes "in_service s"
  shows "\<exists>e out s'. dev_ioctl K cmd u s = Some (e, out, s') \<and> in_service s'"
  using drv.ioctl_handler_step [of s K K cmd "if_cap_req u"] assms unfolding in_service_def dev_ioctl_def by blast

lemma goodbye_up:
  assumes "in_service s"
  shows "\<exists>e out s'. dev_ioctl K CAPIO_GOODBYE u s = Some (e, out, s') \<and> in_service s' \<and> driver_side s' = driver_side s"
proof (cases "check_cap_token (capio_sc s) (req_sealed_cap (if_cap_req u)) = 0")
  case True
  have a: "serving s" "session_inv (capio_sc s)" using assms by (simp_all add: in_service_def)
  obtain e s' where r: "revoke_cap_token K s = Some (e, s')" "serving s'" by (rule drv.revoke_ok [OF a])
  note i = session_inv_revoke [OF a(2) r(1)]
  show ?thesis using True r i by (simp add: dev_ioctl_def capio_ioctl_handler_def in_service_def)
next
  case False
  then show ?thesis using assms by (simp add: dev_ioctl_def capio_ioctl_handler_def)
qed

lemma close_up:
  assumes "in_service s"
  shows "\<exists>s'. sfc7120_close K s = Some (0, s') \<and> in_service s' \<and> driver_side s' = driver_side s \<and> is_null (sealed_cap (capio_sc s'))"
proof -
  have a: "serving s" "session_inv (capio_sc s)" using assms by (simp_all add: in_service_def)
  obtain e s' where r: "revoke_cap_token K s = Some (e, s')" "serving s'" by (rule drv.revoke_ok [OF a])
  note i = session_inv_revoke [OF a(2) r(1)]
  show ?thesis using r i by (simp add: sfc7120_close_def revoke_access_def in_service_def)
qed

definition user_indices :: "sfc7120_if \<Rightarrow> nat \<times> nat \<times> nat" where
  "user_indices u = (if_evq_read_ptr u, if_tx_head u, if_rx_head u)"

text \<open>The pointers go back to the driver when the client drove the rings itself and still has its token.\<close>

definition syncs :: "sfc7120_if \<Rightarrow> softc \<Rightarrow> bool" where
  "syncs u s \<longleftrightarrow> if_fd u \<ge> 0 \<and> if_vi_info_valid u \<and> if_used_poll u
     \<and> check_cap_token (capio_sc s) (req_sealed_cap (if_cap_req u)) = 0"

lemma sync_up:
  assumes "in_service s" "if_evq_read_ptr u < 512" "if_tx_head u < 512" "if_rx_head u < 512"
  shows "\<exists>e out s'. dev_ioctl K (DriverCmd (SFC7120_SET_EVQ_RPTR (of_nat (if_evq_read_ptr u)) (of_nat (if_tx_head u)) (of_nat (if_rx_head u)))) u s
      = Some (e, out, s') \<and> in_service s'
      \<and> s' = put_indices (if check_cap_token (capio_sc s) (req_sealed_cap (if_cap_req u)) = 0 then user_indices u else indices s) s"
proof (cases "check_cap_token (capio_sc s) (req_sealed_cap (if_cap_req u)) = 0")
  case True
  let ?r = "SFC7120_SET_EVQ_RPTR (of_nat (if_evq_read_ptr u)) (of_nat (if_tx_head u)) (of_nat (if_rx_head u))"
  let ?s' = "s\<lparr>data_evq_read_ptr := if_evq_read_ptr u, tx_head := if_tx_head u, rx_head := if_rx_head u\<rparr>"
  have "dp_ok s" using assms(1) by (simp add: in_service_def serving_def)
  note r = set_indices [OF this assms(2,3,4), of K]
  have run: "dev_ioctl K (DriverCmd ?r) u s = Some (0, Inr NoReply, ?s')"
    unfolding dev_ioctl_def capio_ioctl_handler_def sfc7120_capio_ops_def using True by (simp add: r)
  from dev_ioctl_up [OF assms(1), of K "DriverCmd ?r" u] run have "in_service ?s'" by simp
  then show ?thesis using run True by (simp add: put_indices_def user_indices_def)
next
  case False
  then show ?thesis using assms by (simp add: dev_ioctl_def capio_ioctl_handler_def)
qed

lemma destroy_frees_ok:
  "is_null (if_cap_token u) \<or> if_cap_token u = sys_malloc S \<Longrightarrow>
   \<exists>u'. destroy_frees S u = Some u' \<and> is_null (if_cap_token u') \<and> if_fd u' = if_fd u"
  by (cases "if_mmio_slices u") (auto simp: destroy_frees_def Let_def)

lemma destroy_total:
  assumes "in_service s" "sys_ok S" "is_null (if_cap_token u) \<or> if_cap_token u = sys_malloc S"
    "if_evq_read_ptr u < 512" "if_tx_head u < 512" "if_rx_head u < 512"
  shows "\<exists>u' s'. sfc7120_destroy K S u s = Some (u', s') \<and> in_service s' \<and> is_null (if_cap_token u')
    \<and> driver_side s' = driver_side (put_indices (if syncs u s then user_indices u else indices s) s)
    \<and> (if_fd u \<ge> 0 \<longrightarrow> is_null (sealed_cap (capio_sc s')))"
proof -
  have "session_inv (capio_sc s)" using assms(1) by (simp add: in_service_def)
  then obtain ms s1 where m: "munmap_all S [0..<SFC7120_REGION_COUNT] u s = Some (u\<lparr>if_region_maps := ms\<rparr>, s1)" "mapping_only s s1"
    using munmap_all_total [OF assms(2)] by blast
  note s1 = mapping_only_up [OF assms(1) m(2)]
  note m1 = s1(4)
  let ?u1 = "u\<lparr>if_region_maps := ms, if_tx_buffer := 0, if_rx_buffer := 0, if_tx_desc_ring := 0, if_rx_desc_ring := 0, if_evq_ring := 0\<rparr>"
  obtain s2 where s2: "destroy_sync K ?u1 s1 = Some s2" "in_service s2"
      "driver_side s2 = driver_side (put_indices (if syncs u s then user_indices u else indices s) s)"
  proof (cases "if_fd u \<ge> 0 \<and> if_vi_info_valid u \<and> if_used_poll u")
    case True
    from sync_up [OF s1(1), of ?u1 K] assms(4-6) obtain e out s2 where
      "dev_ioctl K (DriverCmd (SFC7120_SET_EVQ_RPTR (of_nat (if_evq_read_ptr u)) (of_nat (if_tx_head u)) (of_nat (if_rx_head u)))) ?u1 s1
        = Some (e, out, s2)" "in_service s2"
      "s2 = put_indices (if check_cap_token (capio_sc s1) (req_sealed_cap (if_cap_req u)) = 0 then user_indices ?u1 else indices s1) s1" by auto
    with True that [of s2] s1(2,3) put_indices_side [OF m1] show ?thesis by (simp add: destroy_sync_def syncs_def user_indices_def)
  next
    case False
    with that [of s1] s1 m1 show ?thesis by (auto simp: destroy_sync_def syncs_def)
  qed
  obtain s3 where s3: "destroy_goodbye K ?u1 s2 = Some s3" "in_service s3" "driver_side s3 = driver_side s2"
    using goodbye_up [OF s2(2), of K ?u1] s2(2) by (cases "if_fd u \<ge> 0") (auto simp: destroy_goodbye_def)
  obtain u' where u': "destroy_frees S ?u1 = Some u'" "is_null (if_cap_token u')" "if_fd u' = if_fd u"
    using destroy_frees_ok [of ?u1 S] assms(3) by auto
  obtain s4 where s4: "destroy_close K u' s3 = Some s4" "in_service s4" "driver_side s4 = driver_side s3" "if_fd u \<ge> 0 \<longrightarrow> is_null (sealed_cap (capio_sc s4))"
    using close_up [OF s3(2), of K] s3(2) u'(3) by (cases "if_fd u \<ge> 0") (auto simp: destroy_close_def)
  have "sfc7120_destroy K S u s = Some (u', s4)"
    using m(1) s2(1) s3(1) u'(1) s4(1) by (simp add: sfc7120_destroy_def)
  then show ?thesis using u'(2) s2(3) s3(3) s4 by simp
qed

section \<open>Coming up\<close>

text \<open>The fields of the client that the mapping requests leave alone.\<close>

definition client_core :: "sfc7120_if \<Rightarrow> int \<times> cap \<times> bool \<times> nat \<times> nat \<times> nat" where
  "client_core u = (if_fd u, if_cap_token u, if_used_poll u, user_indices u)"

definition init_ok :: "sys \<Rightarrow> softc \<Rightarrow> sfc7120_if \<Rightarrow> softc \<Rightarrow> bool" where
  "init_ok S s0 u s \<longleftrightarrow>
     in_service s \<and> driver_side s = driver_side s0 \<and> if_fd u \<ge> 0 \<and> \<not> if_used_poll u \<and> (is_null (if_cap_token u) \<or> if_cap_token u = sys_malloc S)
     \<and> if_evq_read_ptr u < 512 \<and> if_tx_head u < 512 \<and> if_rx_head u < 512"

text \<open>A modmap device that reports and fills in the slices of the manifest.\<close>

definition sys_slices_ok :: "sys \<Rightarrow> bool" where
  "sys_slices_ok S \<longleftrightarrow>
     (\<forall>s r n k s'. sys_get_slices S (map_type_code SFC7120_MMIO_REGION) s = Some (r, n, k, s') \<longrightarrow> 0 \<le> r \<longrightarrow> k = SFC7120_MMIO_SLICE_COUNT)
     \<and> (\<forall>req n s r a sl s'. sys_modmap_map S req (map_type_code SFC7120_MMIO_REGION) n s = Some (r, a, sl, s') \<longrightarrow> 0 \<le> r
          \<longrightarrow> sl = sfc7120_reg_slices)"

definition slices_from :: "sys \<Rightarrow> slice_def list option \<Rightarrow> nat \<Rightarrow> bool" where
  "slices_from S sl n \<longleftrightarrow> sl \<noteq> None \<and> (sys_slices_ok S \<longrightarrow> sl = Some sfc7120_reg_slices \<and> n = SFC7120_MMIO_SLICE_COUNT)"

definition client_mapped :: "sys \<Rightarrow> sfc7120_if \<Rightarrow> bool" where
  "client_mapped S u \<longleftrightarrow>
     if_tx_buffer u \<noteq> 0 \<and> if_rx_buffer u \<noteq> 0 \<and> if_tx_desc_ring u \<noteq> 0 \<and> if_rx_desc_ring u \<noteq> 0 \<and> if_evq_ring u \<noteq> 0
     \<and> slices_from S (if_mmio_slices u) (if_mmio_slices_len u)"

text \<open>A client that came up has every region mapped, the driver's geometry and MAC, and starts at the
  driver's own indices; one that did not leaves the driver with no session and its indices untouched.\<close>

definition client_up :: "sys \<Rightarrow> sfc7120_if \<Rightarrow> softc \<Rightarrow> bool" where
  "client_up S u s \<longleftrightarrow>
     client_mapped S u \<and> if_fd u \<ge> 0 \<and> (is_null (if_cap_token u) \<or> if_cap_token u = sys_malloc S) \<and> if_vi_info_valid u \<and> \<not> if_used_poll u \<and> user_indices u = indices s \<and> if_mac_addr u = mac_addr s
     \<and> vi_tx_buffer_paddr (if_vi_info u) = dm_paddr (dma s DMA_TX_BUF) \<and> vi_rx_buffer_paddr (if_vi_info u) = dm_paddr (dma s DMA_RX_BUF)"

definition client_post :: "sys \<Rightarrow> softc \<Rightarrow> (int \<times> sfc7120_if \<times> softc) option \<Rightarrow> bool" where
  "client_post S s0 X \<longleftrightarrow>
     (\<exists>r u' s'. X = Some (r, u', s') \<and> in_service s' \<and> driver_side s' = driver_side s0
        \<and> (if r = 0 then client_up S u' s' else r = -1 \<and> is_null (sealed_cap (capio_sc s'))))"

lemma init_fail_post:
  assumes "init_ok S s0 u s" "sys_ok S"
  shows "client_post S s0 (init_fail K S u s)"
proof -
  have a: "in_service s" "driver_side s = driver_side s0" "if_fd u \<ge> 0" "\<not> if_used_poll u" "is_null (if_cap_token u) \<or> if_cap_token u = sys_malloc S"
      "if_evq_read_ptr u < 512" "if_tx_head u < 512" "if_rx_head u < 512"
    using assms(1) by (simp_all add: init_ok_def)
  obtain u' s' where "sfc7120_destroy K S u s = Some (u', s')" "in_service s'"
      "driver_side s' = driver_side (put_indices (if syncs u s then user_indices u else indices s) s)" "is_null (sealed_cap (capio_sc s'))"
    using destroy_total [OF a(1) assms(2) a(5-8), of K] a(3) by blast
  then show ?thesis using a(2,4) by (simp add: init_fail_def client_post_def syncs_def)
qed

lemma dev_ioctl_driver:
  "dev_ioctl K (DriverCmd r) u s =
     (if check_cap_token (capio_sc s) (req_sealed_cap (if_cap_req u)) \<noteq> 0 then Some (EPERM, Inl (if_cap_req u), s)
      else do { (e, out, s) \<leftarrow> sfc7120_ioctl K r s; Some (e, Inr out, s) })"
  by (simp add: dev_ioctl_def capio_ioctl_handler_def sfc7120_capio_ops_def)

lemma unat_index: "n < 512 \<Longrightarrow> unat (of_nat n :: u32) = n"
  by (simp add: unsigned_of_nat take_bit_nat_eq_self)

lemma vi_info_indices:
  assumes "dp_ok s"
  obtains v where "sfc7120_ioctl K SFC7120_GET_VI_INFO s = Some (0, ViReply v, s)"
    "(unat (vi_evq_read_ptr v), unat (vi_tx_head v), unat (vi_rx_head v)) = indices s"
    "vi_tx_buffer_paddr v = dm_paddr (dma s DMA_TX_BUF)" "vi_rx_buffer_paddr v = dm_paddr (dma s DMA_RX_BUF)"
proof -
  have "data_evq_read_ptr s < 512" "tx_head s < 512" "rx_head s < 512" using assms by (simp_all add: dp_ok_def)
  then show ?thesis
    using that dp_ok_free [OF assms] dp_ok_locked [OF assms] by (simp add: sfc7120_ioctl_def indices_def unat_index)
qed

lemma init_vi_post:
  assumes ok: "init_ok S s0 u s" and S: "sys_ok S" and m: "client_mapped S u"
  shows "client_post S s0 (init_vi K S u s)"
proof (cases "check_cap_token (capio_sc s) (req_sealed_cap (if_cap_req u)) = 0")
  case False
  then have "init_vi K S u s = init_fail K S u s" by (simp add: init_vi_def dev_ioctl_driver)
  then show ?thesis using init_fail_post [OF ok S] by simp
next
  case True
  have a: "in_service s" "driver_side s = driver_side s0" "dp_ok s" using ok by (simp_all add: init_ok_def in_service_def serving_def)
  obtain v where v: "sfc7120_ioctl K SFC7120_GET_VI_INFO s = Some (0, ViReply v, s)"
      "(unat (vi_evq_read_ptr v), unat (vi_tx_head v), unat (vi_rx_head v)) = indices s"
      "vi_tx_buffer_paddr v = dm_paddr (dma s DMA_TX_BUF)" "vi_rx_buffer_paddr v = dm_paddr (dma s DMA_RX_BUF)"
    by (rule vi_info_indices [OF a(3)])
  have g: "sfc7120_ioctl K SFC7120_GET_MAC s = Some (0, MacReply (mac_addr s), s)"
    using dp_ok_free [OF a(3)] dp_ok_locked [OF a(3)] by (simp add: sfc7120_ioctl_def)
  let ?u = "u\<lparr>if_vi_info := v, if_vi_info_valid := True, if_evq_read_ptr := unat (vi_evq_read_ptr v),
                    if_rx_head := unat (vi_rx_head v), if_tx_head := unat (vi_tx_head v), if_mac_addr := mac_addr s\<rparr>"
  have run: "init_vi K S u s = Some (0, ?u, s)"
    using True by (simp add: init_vi_def dev_ioctl_driver v(1) g)
  have "client_up S ?u s"
    using m ok v by (simp add: client_up_def client_mapped_def user_indices_def init_ok_def)
  then show ?thesis unfolding client_post_def run using a by simp
qed

lemma map_region_ok:
  assumes "session_inv (capio_sc s)" "sys_ok S"
  shows "\<exists>a u' s'. map_region S ty sliced u s = Some (a, u', s') \<and> mapping_only s s'
    \<and> (\<exists>m sl n. u' = u\<lparr>if_region_maps := m, if_mmio_slices := sl, if_mmio_slices_len := n\<rparr>
      \<and> (a \<noteq> 0 \<and> sliced \<and> ty = SFC7120_MMIO_REGION \<longrightarrow> slices_from S sl n))"
proof -
  obtain r len k where g: "sys_get_slices S (map_type_code ty) s = Some (r, len, k, s)"
    using assms unfolding sys_ok_def by blast
  obtain r' a sl s' where m: "sys_modmap_map S (if_cap_req u) (map_type_code ty) len s = Some (r', a, sl, s')" "mapping_only s s'"
    using assms unfolding sys_ok_def by blast
  have same: "\<exists>m sl n. u = u\<lparr>if_region_maps := m, if_mmio_slices := sl, if_mmio_slices_len := n\<rparr>"
    by (rule exI [of _ "if_region_maps u"], rule exI [of _ "if_mmio_slices u"], rule exI [of _ "if_mmio_slices_len u"]) simp
  have ref: "mapping_only s s" by (rule mapping_only_refl [OF assms(1)])
  have stop: ?thesis if "map_region S ty sliced u s = Some (0, u, t)" "mapping_only s t" for t
    using that same by simp
  show ?thesis
  proof (cases "r < 0 \<or> len = 0 \<or> sliced \<and> \<not> sys_calloc_ok S \<or> \<not> sliced \<and> k \<noteq> 0")
    case True
    then have "map_region S ty sliced u s = Some (0, u, s)" by (auto simp: map_region_def g)
    then show ?thesis using stop ref by blast
  next
    case go: False
    show ?thesis
    proof (cases "r' < 0")
      case True
      with go have "map_region S ty sliced u s = Some (0, u, s')" by (auto simp: map_region_def g m(1))
      then show ?thesis using stop m(2) by blast
    next
      case False
      let ?m = "(if_region_maps u)[nat (map_type_code ty) := (a, len)]"
      let ?u = "u\<lparr>if_region_maps := ?m, if_mmio_slices := (if sliced then Some sl else if_mmio_slices u),
                  if_mmio_slices_len := (if sliced then k else if_mmio_slices_len u)\<rparr>"
      have run: "map_region S ty sliced u s = Some (a, ?u, s')"
        using go False by (cases sliced) (simp_all add: map_region_def g m(1))
      show ?thesis
      proof (intro exI conjI)
        show "map_region S ty sliced u s = Some (a, ?u, s')" by (rule run)
        show "?u = ?u" by (rule refl)
        have "sys_slices_ok S \<Longrightarrow> ty = SFC7120_MMIO_REGION \<Longrightarrow> k = 5 \<and> sl = sfc7120_reg_slices"
          using g m(1) go False unfolding sys_slices_ok_def slice_count by (metis linorder_not_less)
        then show "a \<noteq> 0 \<and> sliced \<and> ty = SFC7120_MMIO_REGION \<longrightarrow>
            slices_from S (if sliced then Some sl else if_mmio_slices u) (if sliced then k else if_mmio_slices_len u)"
          by (auto simp: slices_from_def)
      qed (rule m(2))
    qed
  qed
qed

lemma init_ok_core:
  assumes "init_ok S s0 u s" "client_core u' = client_core u" "mapping_only s s'"
  shows "init_ok S s0 u' s'"
  using assms mapping_only_up [of s s'] by (auto simp: init_ok_def client_core_def user_indices_def)

lemma map_step_post:
  assumes ok: "init_ok S s0 u s" and S: "sys_ok S" and Q: "Q u"
    and core: "\<And>a u. client_core (store a u) = client_core u"
    and Q': "\<And>a m sl n. a \<noteq> 0 \<Longrightarrow> sliced \<and> ty = SFC7120_MMIO_REGION \<longrightarrow> slices_from S sl n \<Longrightarrow>
        Q' (store a (u\<lparr>if_region_maps := m, if_mmio_slices := sl, if_mmio_slices_len := n\<rparr>))"
    and rest: "\<And>u s. init_ok S s0 u s \<Longrightarrow> Q' u \<Longrightarrow> client_post S s0 (rest u s)"
  shows "client_post S s0 (map_step K S ty sliced store rest u s)"
proof -
  have "session_inv (capio_sc s)" using ok by (simp add: init_ok_def in_service_def)
  then obtain a u' s' m sl n where r: "map_region S ty sliced u s = Some (a, u', s')" "mapping_only s s'"
      "u' = u\<lparr>if_region_maps := m, if_mmio_slices := sl, if_mmio_slices_len := n\<rparr>" "a \<noteq> 0 \<and> sliced \<and> ty = SFC7120_MMIO_REGION \<longrightarrow> slices_from S sl n"
    using map_region_ok [OF _ S] by blast
  have "client_core (store a u') = client_core u" using core r(3) by (simp add: client_core_def user_indices_def)
  from init_ok_core [OF ok this r(2)] have ok': "init_ok S s0 (store a u') s'" .
  show ?thesis
  proof (cases "a = 0")
    case True
    then show ?thesis using init_fail_post [OF ok' S] by (simp add: map_step_def r(1) Let_def)
  next
    case False
    then have "Q' (store a u')" using Q' r(3,4) by simp
    with rest [OF ok'] False show ?thesis by (simp add: map_step_def r(1) Let_def)
  qed
qed

lemma init_maps_post:
  assumes ok: "init_ok S s0 u s" and S: "sys_ok S"
  shows "client_post S s0 (init_maps K S u s)"
  unfolding init_maps_def
  apply (rule map_step_post [OF ok S, where Q = "\<lambda>_. True" and Q' = "\<lambda>u. if_tx_buffer u \<noteq> 0"])
     apply (simp_all add: client_core_def user_indices_def)
  apply (erule map_step_post [where Q = "\<lambda>u. if_tx_buffer u \<noteq> 0" and Q' = "\<lambda>u. if_tx_buffer u \<noteq> 0 \<and> if_rx_buffer u \<noteq> 0"])
      apply (simp_all add: S client_core_def user_indices_def)
  apply (erule map_step_post [where Q = "\<lambda>u. if_tx_buffer u \<noteq> 0 \<and> if_rx_buffer u \<noteq> 0"
        and Q' = "\<lambda>u. if_tx_buffer u \<noteq> 0 \<and> if_rx_buffer u \<noteq> 0 \<and> if_tx_desc_ring u \<noteq> 0"])
      apply (simp_all add: S client_core_def user_indices_def)
  apply (erule map_step_post [where Q = "\<lambda>u. if_tx_buffer u \<noteq> 0 \<and> if_rx_buffer u \<noteq> 0 \<and> if_tx_desc_ring u \<noteq> 0"
        and Q' = "\<lambda>u. if_tx_buffer u \<noteq> 0 \<and> if_rx_buffer u \<noteq> 0 \<and> if_tx_desc_ring u \<noteq> 0 \<and> if_rx_desc_ring u \<noteq> 0"])
      apply (simp_all add: S client_core_def user_indices_def)
  apply (erule map_step_post [where Q = "\<lambda>u. if_tx_buffer u \<noteq> 0 \<and> if_rx_buffer u \<noteq> 0 \<and> if_tx_desc_ring u \<noteq> 0 \<and> if_rx_desc_ring u \<noteq> 0"
        and Q' = "\<lambda>u. if_tx_buffer u \<noteq> 0 \<and> if_rx_buffer u \<noteq> 0 \<and> if_tx_desc_ring u \<noteq> 0 \<and> if_rx_desc_ring u \<noteq> 0 \<and> if_evq_ring u \<noteq> 0"])
      apply (simp_all add: S client_core_def user_indices_def)
  apply (erule map_step_post [where Q = "\<lambda>u. if_tx_buffer u \<noteq> 0 \<and> if_rx_buffer u \<noteq> 0 \<and> if_tx_desc_ring u \<noteq> 0 \<and> if_rx_desc_ring u \<noteq> 0 \<and> if_evq_ring u \<noteq> 0"
        and Q' = "client_mapped S"])
      apply (simp_all add: S client_core_def user_indices_def client_mapped_def)
  apply (erule init_vi_post [OF _ S])
  apply (simp add: client_mapped_def)
  done

text \<open>The caller's structure must hold no stale page: the one failure path that runs \<open>destroy\<close> before
  \<open>malloc\<close> frees whatever it finds.\<close>

lemma sfc7120_init_total:
  assumes "in_service s" "sys_ok S" "is_null (if_cap_token u) \<or> sys_open_modmap S \<ge> 0"
  shows "\<exists>r u' s'. sfc7120_init K S u s = Some (r, u', s') \<and> in_service s' \<and> driver_side s' = driver_side s
    \<and> (if r = 0 then client_up S u' s' else r = -1 \<and> (s' = s \<or> is_null (sealed_cap (capio_sc s'))))"
proof (cases "sys_open_dev S < 0")
  case True
  then show ?thesis using assms by (simp add: sfc7120_init_def Let_def)
next
  case open_ok: False
  let ?u1 = "(init_reset u)\<lparr>if_fd := sys_open_dev S, if_modmap_fd := sys_open_modmap S\<rparr>"
  let ?u2 = "?u1\<lparr>if_cap_token := sys_malloc S\<rparr>"
  let ?u3 = "?u2\<lparr>if_cap_req := (if_cap_req ?u2)\<lparr>req_user_cap := sys_malloc S\<rparr>\<rparr>"
  have ok1: "init_ok S s ?u1 s" if "is_null (if_cap_token u)"
    using that assms(1) open_ok by (simp add: init_ok_def init_reset_def)
  have ok2: "init_ok S s ?u2 s" and ok3: "\<And>t q. in_service t \<Longrightarrow> driver_side t = driver_side s \<Longrightarrow> init_ok S s (?u3\<lparr>if_cap_req := q\<rparr>) t"
      and ok3': "\<And>t. in_service t \<Longrightarrow> driver_side t = driver_side s \<Longrightarrow> init_ok S s ?u3 t"
    using assms(1) open_ok by (simp_all add: init_ok_def init_reset_def)
  have "client_post S s (sfc7120_init K S u s)"
  proof (cases "sys_open_modmap S < 0 \<or> is_null (sys_malloc S)")
    case True
    show ?thesis
    proof (cases "sys_open_modmap S < 0")
      case True
      then have "sfc7120_init K S u s = init_fail K S ?u1 s" using open_ok by (simp add: sfc7120_init_def Let_def)
      then show ?thesis using init_fail_post [OF ok1 assms(2)] assms(3) True by simp
    next
      case False
      with True have "sfc7120_init K S u s = init_fail K S ?u2 s" using open_ok by (simp add: sfc7120_init_def Let_def)
      then show ?thesis using init_fail_post [OF ok2 assms(2)] by simp
    qed
  next
    case False
    have a: "serving s" "session_inv (capio_sc s)" using assms(1) by (simp_all add: in_service_def)
    obtain e req t where t: "set_cap_token (if_cap_req ?u3) s = Some (e, req, t)" "capio_header.more t = capio_header.more s" "kres t = kres s"
      by (rule set_cap_token_total [OF session_inv_unlocked [OF a(2)]])
    have ut: "in_service t" "driver_side t = driver_side s"
      using drv.ok_more [OF a(1) t(2)] t(3) session_inv_set_token [OF a(2) t(1)] t(2) by (simp_all add: in_service_def)
    have d: "dev_ioctl K CAPIO_ATTACH ?u3 s = Some (e, Inl req, t)"
      using t(1) by (simp add: dev_ioctl_def capio_ioctl_handler_def)
    have "sfc7120_init K S u s = (if e \<noteq> 0 then init_fail K S ?u3 t else init_maps K S (?u3\<lparr>if_cap_req := req\<rparr>) t)"
      using open_ok False d by (simp add: sfc7120_init_def Let_def)
    then show ?thesis
      using init_fail_post [OF ok3' [OF ut] assms(2), of K] init_maps_post [OF ok3 [OF ut] assms(2), of K req] by simp
  qed
  then show ?thesis unfolding client_post_def by (auto split: if_splits)
qed

section \<open>Properties\<close>

text \<open>A client with everything mapped and the geometry of \<open>live_softc\<close>.\<close>

definition ex_client :: sfc7120_if where
  "ex_client = \<lparr>if_fd = 3, if_modmap_fd = 4, if_cap_req = \<lparr>req_user_cap = null_cap, req_sealed_cap = null_cap\<rparr>,
     if_mac_addr = [], if_tx_buffer = 0x10000, if_rx_buffer = 0x20000, if_tx_desc_ring = 0x30000, if_rx_desc_ring = 0x40000,
     if_evq_ring = 0x50000, if_mmio_slices = Some sfc7120_reg_slices, if_mmio_slices_len = 5,
     if_vi_info = \<lparr>vi_tx_buffer_paddr = 0x40100000, vi_rx_buffer_paddr = 0x40200000, vi_vi_base = 0, vi_evq_instance = 1,
       vi_rxq_instance = 0, vi_txq_instance = 0, vi_num_tx_desc = 512, vi_num_rx_desc = 512, vi_num_evq_entry = 512,
       vi_tx_head = 0, vi_rx_head = 0, vi_evq_read_ptr = 0\<rparr>,
     if_vi_info_valid = True, if_evq_read_ptr = 0, if_used_poll = False, if_rx_head = 0, if_tx_head = 0,
     if_region_maps = replicate 6 (0, 0), if_cap_token = null_cap\<rparr>"

lemma ex_client_ok: "client_ok ex_client live_softc"
  by (simp add: client_ok_def ex_client_def live_softc_def)

text \<open>C13 The two transmit paths agree: for a client whose producer index is the driver's, posting a packet
  directly through the mapped ring and doorbell slice leaves the same descriptor ring, the same buffer, the same next
  index and the same sequence of write-pointer doorbells as the system call does.\<close>

theorem tx_direct_equals_kernel:
  assumes "client_ok u s" "dp_ok s" "if_tx_head u = tx_head s" "tx_accepted buf len" "copyin K (io s) buf (unat len) = (0, m, bytes)"
  shows "\<exists>u' s1 e r s2. sfc7120_tx_post (Some bytes) len u s = Some (0, u', s1)
    \<and> sfc7120_ioctl K (SFC7120_TX buf len) s = Some (e, r, s2)
    \<and> tx_desc_ring s1 = tx_desc_ring s2 \<and> tx_buffer s1 = tx_buffer s2 \<and> if_tx_head u' = tx_head s2
    \<and> filter (\<lambda>w. fst w = SFC7120_REG_DATA_TX_WPTR_DBL) (reg_writes (io s1))
      = filter (\<lambda>w. fst w = SFC7120_REG_DATA_TX_WPTR_DBL) (reg_writes (io s2))"
  by (rule tx_paths_agree [OF assms])

theorem tx_direct_equals_kernel_witness:
  "\<exists>u' s1 e r s2. sfc7120_tx_post (Some (\<lambda>_. 0)) 60 ex_client live_softc = Some (0, u', s1)
    \<and> sfc7120_ioctl quiet_env (SFC7120_TX ex_packet 60) live_softc = Some (e, r, s2)
    \<and> tx_desc_ring s1 = tx_desc_ring s2 \<and> tx_buffer s1 = tx_buffer s2 \<and> if_tx_head u' = tx_head s2
    \<and> filter (\<lambda>w. fst w = SFC7120_REG_DATA_TX_WPTR_DBL) (reg_writes (io s1))
      = filter (\<lambda>w. fst w = SFC7120_REG_DATA_TX_WPTR_DBL) (reg_writes (io s2))"
  by (rule tx_direct_equals_kernel [OF ex_client_ok live_dp_ok _ ex_packet_accepted])
     (simp_all add: ex_client_def live_softc_fields quiet_env_def)

text \<open>Polling from userspace always returns: at most \<open>max_evs\<close> events, each a non-empty entry and its decoding,
  the read pointer past exactly those, and one doorbell write iff there were any; nothing of the driver changes but
  the event ring.\<close>

theorem user_poll_returns:
  assumes "client_ok u s" "dp_ok s" "0 < max_evs"
  shows "\<exists>evs u' s'. sfc7120_user_poll K True max_evs u s = Some (int (length evs), evs, u', s')
    \<and> int (length evs) \<le> max_evs \<and> u' = u\<lparr>if_used_poll := True, if_evq_read_ptr := (if_evq_read_ptr u + length evs) mod 512\<rparr>
    \<and> (\<exists>h q. s' = s\<lparr>io := h, data_evq_ring := q\<rparr>)
    \<and> list_all (\<lambda>e. \<not> no_event (ev_raw e) \<and> e = decode_ev (ev_raw e)) evs
    \<and> reg_writes (io s') = reg_writes (io s) @ (if evs = [] then [] else [(SFC7120_REG_DATA_EVQ_RPTR_DBL, of_nat (if_evq_read_ptr u'))])"
  by (rule user_poll_spec [OF assms])

theorem user_poll_returns_witness:
  "\<exists>evs u' s'. sfc7120_user_poll quiet_env True 8 ex_client live_softc = Some (int (length evs), evs, u', s')
    \<and> int (length evs) \<le> 8
    \<and> u' = ex_client\<lparr>if_used_poll := True, if_evq_read_ptr := (if_evq_read_ptr ex_client + length evs) mod 512\<rparr>
    \<and> (\<exists>h q. s' = live_softc\<lparr>io := h, data_evq_ring := q\<rparr>)
    \<and> list_all (\<lambda>e. \<not> no_event (ev_raw e) \<and> e = decode_ev (ev_raw e)) evs
    \<and> reg_writes (io s') = reg_writes (io live_softc) @ (if evs = [] then [] else [(SFC7120_REG_DATA_EVQ_RPTR_DBL, of_nat (if_evq_read_ptr u'))])"
  by (rule user_poll_returns [OF ex_client_ok live_dp_ok]) simp

text \<open>C28 Against a NIC that writes no further event, the poll loop refines a FIFO: it returns the pending events in
  order, decoded, up to the number asked for, and zeroes exactly their slots.\<close>

theorem user_poll_fifo:
  assumes "evq_idle K" "dma_mapped DMA_DATA_EVQ s" "if_evq_read_ptr u < 512" "n \<le> 512"
    "evs = pending n (data_evq_ring s) (if_evq_read_ptr u)"
  shows "\<exists>h. poll_loop K n u s = Some (map decode_ev evs, u\<lparr>if_evq_read_ptr := (if_evq_read_ptr u + length evs) mod 512\<rparr>,
      s\<lparr>io := h @ io s, data_evq_ring := zeroed (length evs) (if_evq_read_ptr u) (data_evq_ring s)\<rparr>) \<and> list_all evq_event h"
  by (rule poll_loop_pending [OF assms])

theorem user_poll_fifo_witness:
  "\<exists>u' s'. poll_loop quiet_env 2 ex_client (live_softc\<lparr>data_evq_ring := (\<lambda>_. 0)(0 := ex_tx_event, 1 := 64)\<rparr>)
     = Some ([decode_ev ex_tx_event, decode_ev 64], u', s') \<and> if_evq_read_ptr u' = 2"
proof -
  let ?s = "live_softc\<lparr>data_evq_ring := (\<lambda>_. 0)(0 := ex_tx_event, 1 := 64)\<rparr>"
  have i: "evq_idle quiet_env" by (simp add: evq_idle_def quiet_env_def)
  have m: "dma_mapped DMA_DATA_EVQ ?s" by (simp add: dma_mapped_def live_softc_fields)
  have p: "if_evq_read_ptr ex_client = 0" by (simp add: ex_client_def)
  have "[ex_tx_event, 64] = pending 2 (data_evq_ring ?s) (if_evq_read_ptr ex_client)"
    by (simp add: pending_def p upt_rec no_event_def ex_tx_event_def)
  from user_poll_fifo [OF i m _ _ this] p show ?thesis by auto
qed

text \<open>A system whose modmap device answers every mapping request with an address and reports it to the driver.\<close>

definition ex_sys :: sys where
  "ex_sys = \<lparr>sys_open_dev = 3, sys_open_modmap = 4, sys_malloc = ex_user_cap, sys_calloc_ok = True,
     sys_get_slices = (\<lambda>ty s. do { ((len, n), s) \<leftarrow> capio_slice_length_callback ty s; Some (0, len, n, s) }),
     sys_modmap_map = (\<lambda>req ty len s. do { (e, s) \<leftarrow> capio_vaddr_callback 0x7000 len ty s; Some (- e, 0x7000, sfc7120_reg_slices, s) }),
     sys_munmap = (\<lambda>a len s. Some (0, s))\<rparr>"

lemma ex_sys_ok: "sys_ok ex_sys"
proof -
  have 1: "\<exists>r a sl s'. sys_modmap_map ex_sys req ty n s = Some (r, a, sl, s') \<and> mapping_only s s'"
    if inv: "session_inv (capio_sc s)" for req ty n s
  proof -
    obtain e s' where e: "capio_vaddr_callback 0x7000 n ty s = Some (e, s')"
      using capio_vaddr_callback_eq [OF session_inv_unlocked [OF inv]] by blast
    from vaddr_mapping_only [OF inv e] show ?thesis by (simp add: ex_sys_def e)
  qed
  have 2: "\<exists>r n k. sys_get_slices ex_sys ty s = Some (r, n, k, s)" if "session_inv (capio_sc s)" for ty s
    using capio_slice_length_callback_eq [OF session_inv_unlocked [OF that], of ty] by (simp add: ex_sys_def split_beta)
  have 3: "\<exists>r s'. sys_munmap ex_sys a n s = Some (r, s') \<and> mapping_only s s'" if "session_inv (capio_sc s)" for a n s
    using mapping_only_refl [OF that] by (simp add: ex_sys_def)
  show ?thesis unfolding sys_ok_def using 1 2 3 by blast
qed

lemma live_in_service: "in_service live_softc"
  by (simp add: in_service_def live_serving live_session)



text \<open>C14 Handing the rings over between clients: \<open>sfc7120_destroy\<close> returns, ends the session, and the driver's indices
  afterwards are the client's if it drove the rings itself and its token is still good, and the driver's own otherwise;
  \<open>SFC7120_GET_VI_INFO\<close>, from which the next client starts, reports exactly those.\<close>

theorem destroy_hands_over:
  assumes "in_service s" "sys_ok S" "is_null (if_cap_token u) \<or> if_cap_token u = sys_malloc S" "if_fd u \<ge> 0"
    "if_evq_read_ptr u < 512" "if_tx_head u < 512" "if_rx_head u < 512"
  shows "\<exists>u' s' v. sfc7120_destroy K S u s = Some (u', s') \<and> in_service s' \<and> is_null (sealed_cap (capio_sc s'))
    \<and> sfc7120_ioctl K SFC7120_GET_VI_INFO s' = Some (0, ViReply v, s')
    \<and> (unat (vi_evq_read_ptr v), unat (vi_tx_head v), unat (vi_rx_head v))
        = (if if_vi_info_valid u \<and> if_used_poll u \<and> check_cap_token (capio_sc s) (req_sealed_cap (if_cap_req u)) = 0
           then (if_evq_read_ptr u, if_tx_head u, if_rx_head u)
           else (data_evq_read_ptr s, tx_head s, rx_head s))"
proof -
  obtain u' s' where s': "sfc7120_destroy K S u s = Some (u', s')" "in_service s'" "is_null (sealed_cap (capio_sc s'))"
      "driver_side s' = driver_side (put_indices (if syncs u s then user_indices u else indices s) s)"
    using destroy_total [OF assms(1-3,5-7), of K] assms(4) by blast
  from indices_more [OF s'(4)] have i: "indices s' = (if syncs u s then user_indices u else indices s)" by simp
  have dp: "dp_ok s'" using s'(2) by (simp add: in_service_def serving_def)
  obtain v where v: "sfc7120_ioctl K SFC7120_GET_VI_INFO s' = Some (0, ViReply v, s')"
      "(unat (vi_evq_read_ptr v), unat (vi_tx_head v), unat (vi_rx_head v)) = indices s'"
    by (rule vi_info_indices [OF dp])
  show ?thesis
    using s' i v assms(4) by (auto simp: syncs_def user_indices_def indices_def)
qed

theorem destroy_hands_over_witness:
  "\<exists>u' s' v. sfc7120_destroy quiet_env ex_sys ex_client live_softc = Some (u', s') \<and> in_service s' \<and> is_null (sealed_cap (capio_sc s'))
    \<and> sfc7120_ioctl quiet_env SFC7120_GET_VI_INFO s' = Some (0, ViReply v, s')
    \<and> (unat (vi_evq_read_ptr v), unat (vi_tx_head v), unat (vi_rx_head v)) = (0, 0, 0)"
  using destroy_hands_over [OF live_in_service ex_sys_ok, of ex_client quiet_env]
  by (simp add: ex_client_def live_softc_fields)

section \<open>Bring-up succeeds\<close>

text \<open>A system on which nothing goes wrong.\<close>

definition sys_works :: "sys \<Rightarrow> bool" where
  "sys_works S \<longleftrightarrow>
     0 \<le> sys_open_dev S \<and> 0 \<le> sys_open_modmap S \<and> \<not> is_null (sys_malloc S) \<and> sealable (sys_malloc S) \<and> sys_calloc_ok S
     \<and> (\<forall>ty s. session_inv (capio_sc s) \<longrightarrow>
          (\<exists>n k. sys_get_slices S (map_type_code ty) s = Some (0, n, k, s) \<and> n \<noteq> 0 \<and> (ty \<noteq> SFC7120_MMIO_REGION \<longrightarrow> k = 0)))
     \<and> (\<forall>req ty n s. session_inv (capio_sc s) \<longrightarrow>
          (\<exists>a sl s'. sys_modmap_map S req (map_type_code ty) n s = Some (0, a, sl, s') \<and> a \<noteq> 0 \<and> mapping_only s s'))"

definition has_token :: "sfc7120_if \<Rightarrow> softc \<Rightarrow> bool" where
  "has_token u s \<longleftrightarrow> in_service s \<and> check_cap_token (capio_sc s) (req_sealed_cap (if_cap_req u)) = 0"

lemma map_step_works:
  assumes S: "sys_works S" and ok: "has_token u s" and store: "\<And>a u. if_cap_req (store a u) = if_cap_req u"
    and sl: "sliced \<longleftrightarrow> ty = SFC7120_MMIO_REGION"
    and rest: "\<And>u s. has_token u s \<Longrightarrow> \<exists>u' s'. rest u s = Some (0, u', s')"
  shows "\<exists>u' s'. map_step K S ty sliced store rest u s = Some (0, u', s')"
proof -
  have inv: "session_inv (capio_sc s)" "in_service s" using ok by (simp_all add: has_token_def in_service_def)
  obtain n k where g: "sys_get_slices S (map_type_code ty) s = Some (0, n, k, s)" "n \<noteq> 0" "ty \<noteq> SFC7120_MMIO_REGION \<longrightarrow> k = 0"
    using S inv(1) unfolding sys_works_def by blast
  obtain a sl' s' where m: "sys_modmap_map S (if_cap_req u) (map_type_code ty) n s = Some (0, a, sl', s')" "a \<noteq> 0" "mapping_only s s'"
    using S inv(1) unfolding sys_works_def by blast
  have c: "sys_calloc_ok S" using S by (simp add: sys_works_def)
  have "\<exists>u1. map_region S ty sliced u s = Some (a, u1, s') \<and> if_cap_req u1 = if_cap_req u"
    using sl g c m(1) by (cases sliced) (simp_all add: map_region_def)
  then obtain u1 where u1: "map_region S ty sliced u s = Some (a, u1, s')" "if_cap_req u1 = if_cap_req u" by blast
  have "has_token (store a u1) s'" using ok mapping_only_up [OF inv(2) m(3)] u1(2) store by (simp add: has_token_def)
  from rest [OF this] show ?thesis using u1(1) m(2) by (simp add: map_step_def)
qed

lemma init_vi_works:
  assumes "has_token u s"
  shows "\<exists>u' s'. init_vi K S u s = Some (0, u', s')"
proof -
  have dp: "dp_ok s" using assms by (simp add: has_token_def in_service_def serving_def)
  obtain v where v: "sfc7120_ioctl K SFC7120_GET_VI_INFO s = Some (0, ViReply v, s)" by (rule vi_info_indices [OF dp])
  have g: "sfc7120_ioctl K SFC7120_GET_MAC s = Some (0, MacReply (mac_addr s), s)"
    using dp_ok_free [OF dp] dp_ok_locked [OF dp] by (simp add: sfc7120_ioctl_def)
  show ?thesis using assms by (simp add: has_token_def init_vi_def dev_ioctl_driver v g)
qed

lemma init_maps_works:
  assumes S: "sys_works S" and ok: "has_token u s"
  shows "\<exists>u' s'. init_maps K S u s = Some (0, u', s')"
  unfolding init_maps_def by (intro map_step_works [OF S] init_vi_works ok) simp_all

lemma init_works:
  assumes "in_service s" "sys_works S" "is_null (sealed_cap (capio_sc s))" "sealing_key_ok (sealing_key (capio_sc s))"
  shows "\<exists>u' s'. sfc7120_init K S u s = Some (0, u', s')"
proof -
  let ?u = "(init_reset u)\<lparr>if_fd := sys_open_dev S, if_modmap_fd := sys_open_modmap S, if_cap_token := sys_malloc S\<rparr>"
  let ?u3 = "?u\<lparr>if_cap_req := (if_cap_req ?u)\<lparr>req_user_cap := sys_malloc S\<rparr>\<rparr>"
  have a: "serving s" "session_inv (capio_sc s)" using assms(1) by (simp_all add: in_service_def)
  have c: "\<not> is_null (sys_malloc S)" "sealable (sys_malloc S)" "0 \<le> sys_open_dev S" "0 \<le> sys_open_modmap S" using assms(2) by (simp_all add: sys_works_def)
  obtain e req t where t: "set_cap_token (if_cap_req ?u3) s = Some (e, req, t)" "capio_header.more t = capio_header.more s" "kres t = kres s"
    by (rule set_cap_token_total [OF session_inv_unlocked [OF a(2)]])
  have up: "in_service t"
    using drv.ok_more [OF a(1) t(2)] t(3) session_inv_set_token [OF a(2) t(1)] by (simp add: in_service_def)
  have e: "e = 0" "check_cap_token (capio_sc t) (req_sealed_cap req) = 0"
    using t(1) c assms(3,4) morello.unseal_seal [OF assms(4) c(2)] morello.seal_keeps_null
    by (auto simp: set_cap_token_eq [OF session_inv_unlocked [OF a(2)]] Let_def capio_upd_def check_cap_token_def cheri_ptr_equal_exact_def split: if_splits)
  have d: "dev_ioctl K CAPIO_ATTACH ?u3 s = Some (0, Inl req, t)" using t(1) e(1) by (simp add: dev_ioctl_def capio_ioctl_handler_def)
  have "sfc7120_init K S u s = init_maps K S (?u3\<lparr>if_cap_req := req\<rparr>) t" using c d by (simp add: sfc7120_init_def Let_def)
  moreover have "has_token (?u3\<lparr>if_cap_req := req\<rparr>) t" using up e(2) by (simp add: has_token_def)
  ultimately show ?thesis using init_maps_works [OF assms(2), of _ t K] by simp
qed

text \<open>A modmap device that grants every mapping, and \<open>live_softc\<close> with a sealing key.\<close>

definition ex_good_sys :: sys where
  "ex_good_sys = ex_sys\<lparr>sys_get_slices := \<lambda>ty s. Some (0, 4096, if ty = map_type_code SFC7120_MMIO_REGION then 5 else 0, s),
     sys_modmap_map := \<lambda>req ty len s. Some (0, 0x7000, sfc7120_reg_slices, s)\<rparr>"

definition keyed_softc :: softc where
  "keyed_softc = live_softc\<lparr>capio_sc := (capio_sc live_softc)\<lparr>sealing_key := sealing_key ex_capio\<rparr>\<rparr>"

lemma ex_good_sys_ok: "sys_ok ex_good_sys" "sys_slices_ok ex_good_sys" "sys_works ex_good_sys"
proof -
  have r: "mapping_only s s" if "session_inv (capio_sc s)" for s by (rule mapping_only_refl [OF that])
  show "sys_ok ex_good_sys" using r by (simp add: sys_ok_def ex_good_sys_def ex_sys_def)
  show "sys_slices_ok ex_good_sys" by (simp add: sys_slices_ok_def ex_good_sys_def)
  have "map_type_code ty = map_type_code SFC7120_MMIO_REGION \<Longrightarrow> ty = SFC7120_MMIO_REGION" for ty by (cases ty) simp_all
  then show "sys_works ex_good_sys" using r by (auto simp: sys_works_def ex_good_sys_def ex_sys_def ex_user_cap_def sealable_def is_null_def)
qed

lemma keyed_in_service:
  "in_service keyed_softc" "is_null (sealed_cap (capio_sc keyed_softc))" "sealing_key_ok (sealing_key (capio_sc keyed_softc))"
proof -
  have "serving keyed_softc" using live_serving drv.ok_more [of live_softc keyed_softc] by (simp add: keyed_softc_def)
  moreover have "session_inv (capio_sc keyed_softc)" using live_session by (simp add: keyed_softc_def session_inv_def live_softc_def is_null_def null_cap_def)
  ultimately show "in_service keyed_softc" by (simp add: in_service_def)
  show "is_null (sealed_cap (capio_sc keyed_softc))" by (simp add: keyed_softc_def live_softc_def is_null_def null_cap_def)
  show "sealing_key_ok (sealing_key (capio_sc keyed_softc))" using ex_open_session(7) by (simp add: keyed_softc_def)
qed



end
