(* ===== verification/Bench.thy ===== *)
theory Bench
  imports Userlib
begin

text \<open>
  The benchmark program \<open>userlib/bench.c\<close>: one process drives both ports of the card through the
  library and bounces frames from PF0 over the cable to PF1 and back, over the direct path or over
  the system calls, timing single round trips or counting them in a fixed time.

  Each port has a driver instance and a NIC of its own (\<open>hs_env\<close>) and a client of its own; the two
  NICs are arbitrary, so whatever the cable does is covered.  The clock is the sequence of values
  \<open>clock_gettime\<close> returns.  A store or copy outside a buffer is a capability fault, \<open>None\<close>; a loop with
  no bound of its own is a partial function, so that not returning is \<open>None\<close> too.  The rows printed are
  returned; rates, which the program computes in floating point, are left as counts and times.
  The model comes first, then what it does to frames; the other theories of the benchmark are \<open>Bench_Rig\<close>,
  \<open>Bench_Run\<close> and \<open>Bench_Results\<close>.
\<close>

section \<open>The host and the two ports\<close>

datatype pf = PF0 | PF1

text \<open>A buffer of the process: its capability and its contents.\<close>

record ubuf =
  ub_cap :: cap
  ub_bytes :: "u8 list"

record host =
  hs_env :: "pf \<Rightarrow> env"
  hs_sys :: "pf \<Rightarrow> sys"
  hs_clock :: "nat \<Rightarrow> u64 \<times> u64"
  hs_malloc_ok :: bool
  hs_frame :: ubuf
  hs_rxbuf :: ubuf

text \<open>\<open>b_clk\<close> counts the clock reads so far.\<close>

record bench =
  b_if :: "pf \<Rightarrow> sfc7120_if"
  b_sc :: "pf \<Rightarrow> softc"
  b_clk :: nat

definition on_port :: "pf \<Rightarrow> (sfc7120_if \<Rightarrow> softc \<Rightarrow> ('a \<times> sfc7120_if \<times> softc) option) \<Rightarrow> bench \<Rightarrow> ('a \<times> bench) option" where
  "on_port p f w = do {
     (r, u, s) \<leftarrow> f (b_if w p) (b_sc w p);
     Some (r, w\<lparr>b_if := (b_if w)(p := u), b_sc := (b_sc w)(p := s)\<rparr>) }"

abbreviation (input) ETHERTYPE :: u32 where "ETHERTYPE \<equiv> 0x88B5"
abbreviation (input) LAT_WARMUP :: nat where "LAT_WARMUP \<equiv> 1000"
abbreviation (input) LAT_SAMPLES :: nat where "LAT_SAMPLES \<equiv> 20000"
abbreviation (input) TPUT_WINDOW :: nat where "TPUT_WINDOW \<equiv> 128"
abbreviation (input) TPUT_NS :: u64 where "TPUT_NS \<equiv> 2000000000"
abbreviation (input) RX_TIMEOUT_NS :: u64 where "RX_TIMEOUT_NS \<equiv> 1000000000"

definition g_sizes :: "nat list" where
  "g_sizes = [64, 1024, 1518]"

definition clock_ns :: "host \<Rightarrow> nat \<Rightarrow> u64" where
  "clock_ns H n = fst (hs_clock H n) * 1000000000 + snd (hs_clock H n)"

definition now_ns :: "host \<Rightarrow> bench \<Rightarrow> u64 \<times> bench" where
  "now_ns H w = (clock_ns H (b_clk w), w\<lparr>b_clk := b_clk w + 1\<rparr>)"

section \<open>Frames\<close>

text \<open>\<open>memcpy\<close> and \<open>memset\<close> into a buffer.\<close>

definition buf_write :: "nat \<Rightarrow> u8 list \<Rightarrow> ubuf \<Rightarrow> ubuf option" where
  "buf_write off bs b =
     (if off + length bs \<le> length (ub_bytes b)
      then Some (b\<lparr>ub_bytes := take off (ub_bytes b) @ bs @ drop (off + length bs) (ub_bytes b)\<rparr>) else None)"

definition build_frame :: "u8 list \<Rightarrow> u8 list \<Rightarrow> nat \<Rightarrow> u32 \<Rightarrow> ubuf \<Rightarrow> ubuf option" where
  "build_frame dst src len seq frame = do {
     frame \<leftarrow> buf_write 0 (replicate len 0) frame;
     frame \<leftarrow> buf_write 0 (take 6 dst) frame;
     frame \<leftarrow> buf_write 6 (take 6 src) frame;
     frame \<leftarrow> buf_write 12 [ucast (drop_bit 8 ETHERTYPE AND 0xff)] frame;
     frame \<leftarrow> buf_write 13 [ucast (ETHERTYPE AND 0xff)] frame;
     frame \<leftarrow> buf_write 14 [byte_of 0 seq, byte_of 1 seq, byte_of 2 seq, byte_of 3 seq] frame;
     if len > 18 then buf_write 18 (replicate (len - 18) 0xA5) frame else Some frame }"

definition swap_mac :: "ubuf \<Rightarrow> ubuf option" where
  "swap_mac frame = do {
     kassert (12 \<le> length (ub_bytes frame));
     let tmp = take 6 (ub_bytes frame);
     frame \<leftarrow> buf_write 0 (take 6 (drop 6 (ub_bytes frame))) frame;
     buf_write 6 tmp frame }"

text \<open>PF1's address is PF0's with the last octet one up.\<close>

definition peer_mac :: "u8 list \<Rightarrow> u8 list" where
  "peer_mac mac = (take 6 mac)[5 := mac ! 5 + 1]"

section \<open>The two paths\<close>

definition bench_poll :: "host \<Rightarrow> pf \<Rightarrow> bench \<Rightarrow> ((int \<times> sfc7120_ev list) \<times> bench) option" where
  "bench_poll H p = on_port p (\<lambda>u s. do {
     (n, evs, u, s) \<leftarrow> sfc7120_user_poll (hs_env H p) True 8 u s;
     Some ((n, evs), u, s) })"

text \<open>Read one received frame into \<open>buf\<close>: result, buffer, \<open>*len_out\<close>.\<close>

definition bench_recv :: "host \<Rightarrow> pf \<Rightarrow> u16 \<Rightarrow> ubuf \<Rightarrow> bench \<Rightarrow> (int \<times> ubuf \<times> nat \<times> bench) option" where
  "bench_recv H p rx_bytes buf w = do {
     ((r, frame), w) \<leftarrow> on_port p (\<lambda>u s. do {
        (r, frame, u, s) \<leftarrow> sfc7120_rx_recv (hs_env H p) (Some (length (ub_bytes buf))) rx_bytes u s;
        Some ((r, frame), u, s) }) w;
     if r \<noteq> 0 then Some (r, buf, 0, w)
     else do {
       buf \<leftarrow> buf_write 0 frame buf;
       Some (0, buf, length frame, w) } }"

definition tx_direct :: "host \<Rightarrow> pf \<Rightarrow> ubuf \<Rightarrow> nat \<Rightarrow> bench \<Rightarrow> (int \<times> bench) option" where
  "tx_direct H p buf len = on_port p (sfc7120_tx_post (Some (\<lambda>i. ub_bytes buf ! i)) (of_nat len))"

text \<open>\<open>wait_rx\<close>: the clock is read every 65536 empty polls; the first read sets the deadline.\<close>

partial_function (option) wait_rx_loop ::
  "host \<Rightarrow> pf \<Rightarrow> ubuf \<Rightarrow> u64 \<Rightarrow> nat \<Rightarrow> bench \<Rightarrow> (int \<times> ubuf \<times> nat \<times> bench) option" where
  "wait_rx_loop H p buf deadline tries w =
     Option.bind (bench_poll H p w) (\<lambda>x. case x of ((n, evs), w) \<Rightarrow>
       if n < 0 then Some (-1, buf, 0, w)
       else case find (\<lambda>e. ev_type e = SFC7120_EV_RX) evs of
         Some ev \<Rightarrow> Option.bind (bench_recv H p (ev_rx_bytes ev) buf w) (\<lambda>y. case y of (r, buf, len, w) \<Rightarrow>
           Some (if r \<noteq> 0 then -1 else 0, buf, len, w))
       | None \<Rightarrow>
           if (tries + 1) mod 65536 = 0
           then case now_ns H w of (t, w) \<Rightarrow>
             if deadline = 0 then wait_rx_loop H p buf (t + RX_TIMEOUT_NS) (tries + 1) w
             else if t \<ge> deadline then Some (-1, buf, 0, w)
             else wait_rx_loop H p buf deadline (tries + 1) w
           else wait_rx_loop H p buf deadline (tries + 1) w)"

definition wait_rx :: "host \<Rightarrow> pf \<Rightarrow> ubuf \<Rightarrow> bench \<Rightarrow> (int \<times> ubuf \<times> nat \<times> bench) option" where
  "wait_rx H p buf w = wait_rx_loop H p buf 0 0 w"

text \<open>The system calls: the kernel copies the frame in from the process's buffer and out to it.\<close>

definition user_env :: "ubuf \<Rightarrow> env \<Rightarrow> env" where
  "user_env buf K = K\<lparr>copyin := \<lambda>h c n. (fst (copyin K h c n), fst (snd (copyin K h c n)), \<lambda>i. ub_bytes buf ! i)\<rparr>"

definition tx_kernel :: "host \<Rightarrow> pf \<Rightarrow> ubuf \<Rightarrow> nat \<Rightarrow> bench \<Rightarrow> (int \<times> bench) option" where
  "tx_kernel H p buf len = on_port p (\<lambda>u s. do {
     (r, s) \<leftarrow> sfc7120_tx (user_env buf (hs_env H p)) (ub_cap buf) (of_nat len) u s;
     Some (r, u, s) })"

definition rx_kernel :: "host \<Rightarrow> pf \<Rightarrow> ubuf \<Rightarrow> bench \<Rightarrow> (int \<times> ubuf \<times> nat \<times> bench) option" where
  "rx_kernel H p buf w = do {
     let slot = rx_head (b_sc w p) * SFC7120_RX_BUFFER_SIZE + 14;
     ((r, len), w) \<leftarrow> on_port p (\<lambda>u s. do {
        (r, len, s) \<leftarrow> sfc7120_rx (hs_env H p) u s;
        Some ((r, len), u, s) }) w;
     if r \<noteq> 0 then Some (r, buf, 0, w)
     else do {
       let n = (case len of None \<Rightarrow> 0 | Some l \<Rightarrow> unat l);
       buf \<leftarrow> buf_write 0 (map (\<lambda>i. rx_buffer (b_sc w p) (slot + i)) [0..<n]) buf;
       Some (0, buf, n, w) } }"

record bench_path =
  bp_name :: string
  bp_tx :: "host \<Rightarrow> pf \<Rightarrow> ubuf \<Rightarrow> nat \<Rightarrow> bench \<Rightarrow> (int \<times> bench) option"
  bp_rx :: "host \<Rightarrow> pf \<Rightarrow> ubuf \<Rightarrow> bench \<Rightarrow> (int \<times> ubuf \<times> nat \<times> bench) option"
  bp_direct :: bool

definition g_path_direct :: bench_path where
  "g_path_direct = \<lparr>bp_name = ''direct'', bp_tx = tx_direct, bp_rx = wait_rx, bp_direct = True\<rparr>"

definition g_path_kernel :: bench_path where
  "g_path_kernel = \<lparr>bp_name = ''kernel ioctl'', bp_tx = tx_kernel, bp_rx = rx_kernel, bp_direct = False\<rparr>"

section \<open>Diagnosis\<close>

text \<open>\<open>diag_evq\<close> scans the event ring: how many slots are not empty, and the first of them.  Every load sees
  what the NIC has written by then.\<close>

fun diag_scan :: "env \<Rightarrow> nat list \<Rightarrow> nat \<Rightarrow> (nat \<times> u64) option \<Rightarrow> softc \<Rightarrow> (nat \<times> (nat \<times> u64) option \<times> softc) option" where
  "diag_scan K [] nonempty first s = Some (nonempty, first, s)"
| "diag_scan K (i # is) nonempty first s = do {
     let s = data_evq_sync K s;
     kassert (dma_mapped DMA_DATA_EVQ s);
     let v = data_evq_ring s i;
     if v \<noteq> 0 \<and> v \<noteq> 0xffffffffffffffff
     then diag_scan K is (nonempty + 1) (if first = None then Some (i, v) else first) s
     else diag_scan K is nonempty first s }"

definition diag_evq :: "host \<Rightarrow> pf \<Rightarrow> bench \<Rightarrow> ((nat \<times> (nat \<times> u64) option) \<times> bench) option" where
  "diag_evq H p = on_port p (\<lambda>u s. do {
     (nonempty, first, s) \<leftarrow> diag_scan (hs_env H p) [0..<SFC7120_NUM_EVQ_ENTRY] 0 None s;
     Some ((nonempty, first), u, s) })"

definition diag_both :: "host \<Rightarrow> bench_path \<Rightarrow> pf \<Rightarrow> pf \<Rightarrow> bench \<Rightarrow> bench option" where
  "diag_both H P p q w =
     (if bp_direct P then do {
        (_, w) \<leftarrow> diag_evq H p w;
        (_, w) \<leftarrow> diag_evq H q w;
        Some w }
      else Some w)"

section \<open>Latency\<close>

definition cmp_u64 :: "u64 \<Rightarrow> u64 \<Rightarrow> int" where
  "cmp_u64 x y = of_bool (x > y) - of_bool (x < y)"

text \<open>\<open>qsort\<close> with a comparison function, by insertion.\<close>

fun insort_cmp :: "('a \<Rightarrow> 'a \<Rightarrow> int) \<Rightarrow> 'a \<Rightarrow> 'a list \<Rightarrow> 'a list" where
  "insort_cmp cmp x [] = [x]"
| "insort_cmp cmp x (y # ys) = (if cmp x y \<le> 0 then x # y # ys else y # insort_cmp cmp x ys)"

definition qsort :: "('a \<Rightarrow> 'a \<Rightarrow> int) \<Rightarrow> 'a list \<Rightarrow> 'a list" where
  "qsort cmp xs = foldr (insort_cmp cmp) xs []"

record lat_row =
  lr_size :: nat
  lr_min :: u64
  lr_mean :: u64
  lr_med :: u64
  lr_p99 :: u64
  lr_1way :: u64

definition lat_stats :: "nat \<Rightarrow> u64 list \<Rightarrow> lat_row" where
  "lat_stats fsize samples =
     (let samples = qsort cmp_u64 samples;
          total = sum_list samples;
          med = samples ! (LAT_SAMPLES div 2)
      in \<lparr>lr_size = fsize, lr_min = samples ! 0, lr_mean = total div of_nat LAT_SAMPLES, lr_med = med,
          lr_p99 = samples ! (LAT_SAMPLES * 99 div 100), lr_1way = med div 2\<rparr>)"

text \<open>One round trip; \<open>None\<close> in the result is the early return with \<open>-1\<close>.\<close>

definition bounce ::
  "host \<Rightarrow> bench_path \<Rightarrow> u8 list \<Rightarrow> nat \<Rightarrow> u32 \<Rightarrow> ubuf \<Rightarrow> ubuf \<Rightarrow> bench \<Rightarrow> (u64 option \<times> ubuf \<times> ubuf \<times> bench) option" where
  "bounce H P dst fsize seq frame rxbuf w = do {
     frame \<leftarrow> build_frame dst (if_mac_addr (b_if w PF0)) fsize seq frame;
     let (t0, w) = now_ns H w;
     (r, w) \<leftarrow> bp_tx P H PF0 frame fsize w;
     if r \<noteq> 0 then Some (None, frame, rxbuf, w)
     else do {
       (r, rxbuf, len, w) \<leftarrow> bp_rx P H PF1 rxbuf w;
       if r \<noteq> 0 then do { w \<leftarrow> diag_both H P PF1 PF0 w; Some (None, frame, rxbuf, w) }
       else do {
         rxbuf \<leftarrow> swap_mac rxbuf;
         (r, w) \<leftarrow> bp_tx P H PF1 rxbuf len w;
         if r \<noteq> 0 then Some (None, frame, rxbuf, w)
         else do {
           (r, rxbuf, len, w) \<leftarrow> bp_rx P H PF0 rxbuf w;
           if r \<noteq> 0 then do { w \<leftarrow> diag_both H P PF0 PF1 w; Some (None, frame, rxbuf, w) }
           else do {
             let (t1, w) = now_ns H w;
             Some (Some (t1 - t0), frame, rxbuf, w) } } } } }"

text \<open>\<open>n\<close> iterations from \<open>i\<close> on.\<close>

fun lat_loop ::
  "host \<Rightarrow> bench_path \<Rightarrow> u8 list \<Rightarrow> nat \<Rightarrow> nat \<Rightarrow> nat \<Rightarrow> u32 \<Rightarrow> u64 list \<Rightarrow> ubuf \<Rightarrow> ubuf \<Rightarrow> bench
   \<Rightarrow> (u64 list option \<times> ubuf \<times> ubuf \<times> bench) option" where
  "lat_loop H P dst fsize 0 i seq samples frame rxbuf w = Some (Some samples, frame, rxbuf, w)"
| "lat_loop H P dst fsize (Suc n) i seq samples frame rxbuf w = do {
     (rtt, frame, rxbuf, w) \<leftarrow> bounce H P dst fsize seq frame rxbuf w;
     (case rtt of
        None \<Rightarrow> Some (None, frame, rxbuf, w)
      | Some t \<Rightarrow>
          lat_loop H P dst fsize n (i + 1) (seq + 1)
            (if i \<ge> LAT_WARMUP then samples[i - LAT_WARMUP := t] else samples) frame rxbuf w) }"

fun lat_sizes ::
  "host \<Rightarrow> bench_path \<Rightarrow> u8 list \<Rightarrow> nat list \<Rightarrow> u64 list \<Rightarrow> ubuf \<Rightarrow> ubuf \<Rightarrow> bench \<Rightarrow> (int \<times> lat_row list \<times> bench) option" where
  "lat_sizes H P dst [] samples frame rxbuf w = Some (0, [], w)"
| "lat_sizes H P dst (fsize # sizes) samples frame rxbuf w = do {
     (res, frame, rxbuf, w) \<leftarrow> lat_loop H P dst fsize (LAT_WARMUP + LAT_SAMPLES) 0 0 samples frame rxbuf w;
     (case res of
        None \<Rightarrow> Some (-1, [], w)
      | Some samples \<Rightarrow> do {
          (r, rows, w) \<leftarrow> lat_sizes H P dst sizes (qsort cmp_u64 samples) frame rxbuf w;
          Some (r, lat_stats fsize samples # rows, w) }) }"

definition run_latency :: "host \<Rightarrow> bench_path \<Rightarrow> bench \<Rightarrow> (int \<times> lat_row list \<times> bench) option" where
  "run_latency H P w =
     (if \<not> hs_malloc_ok H then Some (-1, [], w)
      else lat_sizes H P (peer_mac (if_mac_addr (b_if w PF0))) g_sizes (replicate LAT_SAMPLES 0) (hs_frame H) (hs_rxbuf H) w)"

section \<open>Throughput\<close>

text \<open>Fill the window: \<open>k\<close> frames from PF0.  The first component says whether all were posted.\<close>

fun prime :: "host \<Rightarrow> u8 list \<Rightarrow> nat \<Rightarrow> nat \<Rightarrow> u32 \<Rightarrow> ubuf \<Rightarrow> bench \<Rightarrow> (bool \<times> u32 \<times> ubuf \<times> bench) option" where
  "prime H dst fsize 0 seq frame w = Some (True, seq, frame, w)"
| "prime H dst fsize (Suc k) seq frame w = do {
     frame \<leftarrow> build_frame dst (if_mac_addr (b_if w PF0)) fsize seq frame;
     (r, w) \<leftarrow> tx_direct H PF0 frame fsize w;
     if r \<noteq> 0 then Some (False, seq + 1, frame, w)
     else prime H dst fsize k (seq + 1) frame w }"

text \<open>Serve the events of PF1: send every arrival back.\<close>

fun reflect :: "host \<Rightarrow> sfc7120_ev list \<Rightarrow> ubuf \<Rightarrow> bench \<Rightarrow> (bool \<times> ubuf \<times> bench) option" where
  "reflect H [] rxbuf w = Some (True, rxbuf, w)"
| "reflect H (e # es) rxbuf w =
     (if ev_type e \<noteq> SFC7120_EV_RX then reflect H es rxbuf w
      else do {
        (r, rxbuf, len, w) \<leftarrow> bench_recv H PF1 (ev_rx_bytes e) rxbuf w;
        if r \<noteq> 0 then Some (False, rxbuf, w)
        else do {
          rxbuf \<leftarrow> swap_mac rxbuf;
          (r, w) \<leftarrow> tx_direct H PF1 rxbuf len w;
          if r \<noteq> 0 then Some (False, rxbuf, w) else reflect H es rxbuf w } })"

text \<open>Serve the events of PF0: count every echo and send the next frame.\<close>

record tput =
  tp_seq :: u32
  tp_round_trips :: nat
  tp_frame :: ubuf
  tp_rxbuf :: ubuf

fun relaunch :: "host \<Rightarrow> u8 list \<Rightarrow> nat \<Rightarrow> sfc7120_ev list \<Rightarrow> tput \<Rightarrow> bench \<Rightarrow> (bool \<times> tput \<times> bench) option" where
  "relaunch H dst fsize [] c w = Some (True, c, w)"
| "relaunch H dst fsize (e # es) c w =
     (if ev_type e \<noteq> SFC7120_EV_RX then relaunch H dst fsize es c w
      else do {
        (r, rxbuf, len, w) \<leftarrow> bench_recv H PF0 (ev_rx_bytes e) (tp_rxbuf c) w;
        let c = c\<lparr>tp_rxbuf := rxbuf\<rparr>;
        if r \<noteq> 0 then Some (False, c, w)
        else do {
          let c = c\<lparr>tp_round_trips := tp_round_trips c + 1\<rparr>;
          frame \<leftarrow> build_frame dst (if_mac_addr (b_if w PF0)) fsize (tp_seq c) (tp_frame c);
          let c = c\<lparr>tp_frame := frame, tp_seq := tp_seq c + 1\<rparr>;
          (r, w) \<leftarrow> tx_direct H PF0 frame fsize w;
          if r \<noteq> 0 then Some (False, c, w) else relaunch H dst fsize es c w } })"

text \<open>One turn of the loop: poll and serve PF1, then PF0.\<close>

definition tput_turn :: "host \<Rightarrow> u8 list \<Rightarrow> nat \<Rightarrow> tput \<Rightarrow> bench \<Rightarrow> (bool \<times> tput \<times> bench) option" where
  "tput_turn H dst fsize c w = do {
     ((n, evs), w) \<leftarrow> bench_poll H PF1 w;
     if n < 0 then Some (False, c, w)
     else do {
       (ok, rxbuf, w) \<leftarrow> reflect H evs (tp_rxbuf c) w;
       let c = c\<lparr>tp_rxbuf := rxbuf\<rparr>;
       if \<not> ok then Some (False, c, w)
       else do {
         ((n, evs), w) \<leftarrow> bench_poll H PF0 w;
         if n < 0 then Some (False, c, w)
         else relaunch H dst fsize evs c w } } }"

text \<open>A measuring loop: turns until one fails or the clock, read every 256th turn, says the time is up.\<close>

partial_function (option) timed_loop ::
  "host \<Rightarrow> (tput \<Rightarrow> bench \<Rightarrow> (bool \<times> tput \<times> bench) option) \<Rightarrow> u64 \<Rightarrow> nat \<Rightarrow> tput \<Rightarrow> bench \<Rightarrow> (bool \<times> tput \<times> bench) option" where
  "timed_loop H turn t0 iter c w =
     Option.bind (turn c w) (\<lambda>x. case x of (ok, c, w) \<Rightarrow>
       if \<not> ok then Some (False, c, w)
       else if iter mod 256 = 0
       then case now_ns H w of (t, w) \<Rightarrow>
         if t - t0 \<ge> TPUT_NS then Some (True, c, w) else timed_loop H turn t0 (iter + 1) c w
       else timed_loop H turn t0 (iter + 1) c w)"

record tput_row =
  tr_size :: nat
  tr_round_trips :: nat
  tr_elapsed :: u64

definition tput_size :: "host \<Rightarrow> u8 list \<Rightarrow> nat \<Rightarrow> ubuf \<Rightarrow> ubuf \<Rightarrow> bench \<Rightarrow> (tput_row option \<times> ubuf \<times> ubuf \<times> bench) option" where
  "tput_size H dst fsize frame rxbuf w = do {
     (ok, seq, frame, w) \<leftarrow> prime H dst fsize TPUT_WINDOW 0 frame w;
     if \<not> ok then Some (None, frame, rxbuf, w)
     else do {
       let (t0, w) = now_ns H w;
       (ok, c, w) \<leftarrow> timed_loop H (tput_turn H dst fsize) t0 0
          \<lparr>tp_seq = seq, tp_round_trips = 0, tp_frame = frame, tp_rxbuf = rxbuf\<rparr> w;
       if \<not> ok then Some (None, tp_frame c, tp_rxbuf c, w)
       else do {
         let (t, w) = now_ns H w;
         Some (Some \<lparr>tr_size = fsize, tr_round_trips = tp_round_trips c, tr_elapsed = t - t0\<rparr>, tp_frame c, tp_rxbuf c, w) } } }"

text \<open>The system-call path keeps one frame in flight.\<close>

definition ktput_turn :: "host \<Rightarrow> u8 list \<Rightarrow> nat \<Rightarrow> tput \<Rightarrow> bench \<Rightarrow> (bool \<times> tput \<times> bench) option" where
  "ktput_turn H dst fsize c w = do {
     frame \<leftarrow> build_frame dst (if_mac_addr (b_if w PF0)) fsize (tp_seq c) (tp_frame c);
     let c = c\<lparr>tp_frame := frame, tp_seq := tp_seq c + 1\<rparr>;
     (r, w) \<leftarrow> tx_kernel H PF0 frame fsize w;
     if r \<noteq> 0 then Some (False, c, w)
     else do {
       (r, rxbuf, len, w) \<leftarrow> rx_kernel H PF1 (tp_rxbuf c) w;
       let c = c\<lparr>tp_rxbuf := rxbuf\<rparr>;
       if r \<noteq> 0 then Some (False, c, w)
       else do {
         rxbuf \<leftarrow> swap_mac rxbuf;
         let c = c\<lparr>tp_rxbuf := rxbuf\<rparr>;
         (r, w) \<leftarrow> tx_kernel H PF1 rxbuf len w;
         if r \<noteq> 0 then Some (False, c, w)
         else do {
           (r, rxbuf, len, w) \<leftarrow> rx_kernel H PF0 rxbuf w;
           let c = c\<lparr>tp_rxbuf := rxbuf\<rparr>;
           if r \<noteq> 0 then Some (False, c, w)
           else Some (True, c\<lparr>tp_round_trips := tp_round_trips c + 1\<rparr>, w) } } } }"

definition ktput_size :: "host \<Rightarrow> u8 list \<Rightarrow> nat \<Rightarrow> ubuf \<Rightarrow> ubuf \<Rightarrow> bench \<Rightarrow> (tput_row option \<times> ubuf \<times> ubuf \<times> bench) option" where
  "ktput_size H dst fsize frame rxbuf w = do {
     let (t0, w) = now_ns H w;
     (ok, c, w) \<leftarrow> timed_loop H (ktput_turn H dst fsize) t0 0
        \<lparr>tp_seq = 0, tp_round_trips = 0, tp_frame = frame, tp_rxbuf = rxbuf\<rparr> w;
     if \<not> ok then Some (None, tp_frame c, tp_rxbuf c, w)
     else do {
       let (t, w) = now_ns H w;
       Some (Some \<lparr>tr_size = fsize, tr_round_trips = tp_round_trips c, tr_elapsed = t - t0\<rparr>, tp_frame c, tp_rxbuf c, w) } }"

fun tput_sizes ::
  "(nat \<Rightarrow> ubuf \<Rightarrow> ubuf \<Rightarrow> bench \<Rightarrow> (tput_row option \<times> ubuf \<times> ubuf \<times> bench) option) \<Rightarrow> nat list \<Rightarrow> ubuf \<Rightarrow> ubuf \<Rightarrow> bench
   \<Rightarrow> (int \<times> tput_row list \<times> bench) option" where
  "tput_sizes run [] frame rxbuf w = Some (0, [], w)"
| "tput_sizes run (fsize # sizes) frame rxbuf w = do {
     (res, frame, rxbuf, w) \<leftarrow> run fsize frame rxbuf w;
     (case res of
        None \<Rightarrow> Some (-1, [], w)
      | Some row \<Rightarrow> do {
          (r, rows, w) \<leftarrow> tput_sizes run sizes frame rxbuf w;
          Some (r, row # rows, w) }) }"

definition run_throughput :: "host \<Rightarrow> bench \<Rightarrow> (int \<times> tput_row list \<times> bench) option" where
  "run_throughput H w = tput_sizes (tput_size H (peer_mac (if_mac_addr (b_if w PF0)))) g_sizes (hs_frame H) (hs_rxbuf H) w"

definition run_throughput_kernel :: "host \<Rightarrow> bench \<Rightarrow> (int \<times> tput_row list \<times> bench) option" where
  "run_throughput_kernel H w = tput_sizes (ktput_size H (peer_mac (if_mac_addr (b_if w PF0)))) g_sizes (hs_frame H) (hs_rxbuf H) w"

section \<open>Sessions and main\<close>

text \<open>A structure initialised with the device path only.\<close>

definition zero_if :: sfc7120_if where
  "zero_if = \<lparr>if_fd = 0, if_modmap_fd = 0, if_cap_req = \<lparr>req_user_cap = null_cap, req_sealed_cap = null_cap\<rparr>,
     if_mac_addr = replicate 6 0, if_tx_buffer = 0, if_rx_buffer = 0, if_tx_desc_ring = 0, if_rx_desc_ring = 0, if_evq_ring = 0,
     if_mmio_slices = None, if_mmio_slices_len = 0,
     if_vi_info = \<lparr>vi_tx_buffer_paddr = 0, vi_rx_buffer_paddr = 0, vi_vi_base = 0, vi_evq_instance = 0, vi_rxq_instance = 0,
       vi_txq_instance = 0, vi_num_tx_desc = 0, vi_num_rx_desc = 0, vi_num_evq_entry = 0, vi_tx_head = 0, vi_rx_head = 0,
       vi_evq_read_ptr = 0\<rparr>,
     if_vi_info_valid = False, if_evq_read_ptr = 0, if_used_poll = False, if_rx_head = 0, if_tx_head = 0,
     if_region_maps = replicate 6 (0, 0), if_cap_token = null_cap\<rparr>"

definition bench_init :: "host \<Rightarrow> pf \<Rightarrow> bench \<Rightarrow> (int \<times> bench) option" where
  "bench_init H p = on_port p (\<lambda>u s. sfc7120_init (hs_env H p) (hs_sys H p) u s)"

definition bench_destroy :: "host \<Rightarrow> pf \<Rightarrow> bench \<Rightarrow> bench option" where
  "bench_destroy H p w = do {
     (_, w) \<leftarrow> on_port p (\<lambda>u s. do { (u, s) \<leftarrow> sfc7120_destroy (hs_env H p) (hs_sys H p) u s; Some ((), u, s) }) w;
     Some w }"

definition session_tput :: "host \<Rightarrow> bench_path \<Rightarrow> bench \<Rightarrow> (int \<times> tput_row list \<times> bench) option" where
  "session_tput H P w = (if bp_direct P then run_throughput H w else run_throughput_kernel H w)"

definition session_measure :: "host \<Rightarrow> bench_path \<Rightarrow> bool \<Rightarrow> bool \<Rightarrow> bench \<Rightarrow> (int \<times> bench) option" where
  "session_measure H P do_lat do_tput w = do {
     (rc, w) \<leftarrow> (if do_lat then do { (r, _, w) \<leftarrow> run_latency H P w; Some (if r \<noteq> 0 then -1 else 0, w) }
                else Some (0, w));
     (if rc = 0 \<and> do_tput then do { (r, _, w) \<leftarrow> session_tput H P w; Some (r, w) }
      else Some (rc, w)) }"

definition run_path_session :: "host \<Rightarrow> bench_path \<Rightarrow> bool \<Rightarrow> bool \<Rightarrow> bench \<Rightarrow> (int \<times> bench) option" where
  "run_path_session H P do_lat do_tput w = do {
     let w = w\<lparr>b_if := \<lambda>_. zero_if\<rparr>;
     (r, w) \<leftarrow> bench_init H PF0 w;
     if r \<noteq> 0 then Some (-1, w)
     else do {
       (r, w) \<leftarrow> bench_init H PF1 w;
       if r \<noteq> 0 then do { w \<leftarrow> bench_destroy H PF0 w; Some (-1, w) }
       else do {
         (rc, w) \<leftarrow> session_measure H P do_lat do_tput w;
         w \<leftarrow> bench_destroy H PF1 w;
         w \<leftarrow> bench_destroy H PF0 w;
         Some (rc, w) } } }"

definition arg :: "string list \<Rightarrow> nat \<Rightarrow> string" where
  "arg argv i = (if i < length argv then argv ! i else ''both'')"

text \<open>\<open>argv\<close> with the program's name first; the exit status.\<close>

definition bench_main :: "host \<Rightarrow> string list \<Rightarrow> bench \<Rightarrow> (int \<times> bench) option" where
  "bench_main H argv w = do {
     let mode = arg argv 1;
     let path = arg argv 2;
     let do_lat = (mode = ''lat'' \<or> mode = ''both'');
     let do_tput = (mode = ''tput'' \<or> mode = ''both'');
     let do_direct = (path = ''direct'' \<or> path = ''both'');
     let do_kernel = (path = ''kernel'' \<or> path = ''both'');
     if \<not> do_lat \<and> \<not> do_tput \<or> \<not> do_direct \<and> \<not> do_kernel then Some (2, w)
     else do {
       (rc, w) \<leftarrow> (if do_kernel then do { (r, w) \<leftarrow> run_path_session H g_path_kernel do_lat do_tput w; Some (if r \<noteq> 0 then 1 else 0, w) }
                  else Some (0, w));
       (if rc = 0 \<and> do_direct then do { (r, w) \<leftarrow> run_path_session H g_path_direct do_lat do_tput w; Some (if r \<noteq> 0 then 1 else 0, w) }
        else Some (rc, w)) } }"

section \<open>What a frame looks like\<close>

lemma buf_write_some:
  assumes "off + length bs \<le> length (ub_bytes b)"
  shows "\<exists>b'. buf_write off bs b = Some b' \<and> length (ub_bytes b') = length (ub_bytes b) \<and> ub_cap b' = ub_cap b"
  using assms by (simp add: buf_write_def)

lemma build_frame_total:
  assumes "len \<le> length (ub_bytes b)" "18 \<le> length (ub_bytes b)"
  shows "\<exists>f. build_frame dst src len seq b = Some f \<and> length (ub_bytes f) = length (ub_bytes b) \<and> ub_cap f = ub_cap b"
proof -
  define same where "same f \<longleftrightarrow> length (ub_bytes f) = length (ub_bytes b) \<and> ub_cap f = ub_cap b" for f :: ubuf
  have w: "\<exists>f'. buf_write off bs f = Some f' \<and> same f'" if "same f" "off + length bs \<le> length (ub_bytes b)" for off bs f
    using buf_write_some [of off bs f] that by (simp add: same_def)
  have t6: "length (take 6 xs) \<le> 6" for xs :: "u8 list" by simp
  have "same b" by (simp add: same_def)
  from w [OF this, of 0 "replicate len 0"] assms obtain f1 where 1: "buf_write 0 (replicate len 0) b = Some f1" "same f1" by auto
  from w [OF 1(2), of 0 "take 6 dst"] t6 [of dst] assms(2) obtain f2 where 2: "buf_write 0 (take 6 dst) f1 = Some f2" "same f2" by fastforce
  from w [OF 2(2), of 6 "take 6 src"] t6 [of src] assms(2) obtain f3 where 3: "buf_write 6 (take 6 src) f2 = Some f3" "same f3" by fastforce
  from w [OF 3(2), of 12 "[ucast (drop_bit 8 ETHERTYPE AND 0xff)]"] assms obtain f4 where
    4: "buf_write 12 [ucast (drop_bit 8 ETHERTYPE AND 0xff)] f3 = Some f4" "same f4" by auto
  from w [OF 4(2), of 13 "[ucast (ETHERTYPE AND 0xff)]"] assms obtain f5 where
    5: "buf_write 13 [ucast (ETHERTYPE AND 0xff)] f4 = Some f5" "same f5" by auto
  from w [OF 5(2), of 14 "[byte_of 0 seq, byte_of 1 seq, byte_of 2 seq, byte_of 3 seq]"] assms obtain f6 where
    6: "buf_write 14 [byte_of 0 seq, byte_of 1 seq, byte_of 2 seq, byte_of 3 seq] f5 = Some f6" "same f6" by auto
  have "\<exists>f. (if len > 18 then buf_write 18 (replicate (len - 18) 0xA5) f6 else Some f6) = Some f \<and> same f"
    using w [OF 6(2), of 18 "replicate (len - 18) 0xA5"] 6(2) assms by auto
  then show ?thesis unfolding build_frame_def 1 2 3 4 5 6 bind.bind_lunit same_def .
qed

lemma swap_mac_total:
  assumes "12 \<le> length (ub_bytes b)"
  shows "\<exists>f. swap_mac b = Some f \<and> length (ub_bytes f) = length (ub_bytes b) \<and> ub_cap f = ub_cap b"
  using assms by (simp add: swap_mac_def buf_write_def Let_def)

definition frame_bytes :: "u8 list \<Rightarrow> u8 list \<Rightarrow> nat \<Rightarrow> u32 \<Rightarrow> u8 list" where
  "frame_bytes dst src len seq =
     dst @ src @ [0x88, 0xB5] @ [byte_of 0 seq, byte_of 1 seq, byte_of 2 seq, byte_of 3 seq] @ replicate (len - 18) 0xA5"

lemma length_frame_bytes: "length dst = 6 \<Longrightarrow> length src = 6 \<Longrightarrow> 18 \<le> len \<Longrightarrow> length (frame_bytes dst src len seq) = len"
  by (simp add: frame_bytes_def)

lemma buf_write_eq:
  "length xs = off \<Longrightarrow> length ys = length bs \<Longrightarrow> buf_write off bs (b\<lparr>ub_bytes := xs @ ys @ zs\<rparr>) = Some (b\<lparr>ub_bytes := xs @ bs @ zs\<rparr>)"
  by (simp add: buf_write_def)

lemma build_frame_eq:
  assumes "length dst = 6" "length src = 6" "18 \<le> len" "len \<le> length (ub_bytes b)"
  shows "build_frame dst src len seq b = Some (b\<lparr>ub_bytes := frame_bytes dst src len seq @ drop len (ub_bytes b)\<rparr>)"
proof -
  let ?r = "drop len (ub_bytes b)" and ?z = "replicate (len - 18) (0 :: u8)"
  let ?q = "[byte_of 0 seq, byte_of 1 seq, byte_of 2 seq, byte_of 3 seq]"
  have z: "replicate len (0 :: u8) = replicate 6 0 @ replicate 6 0 @ [0] @ [0] @ replicate 4 0 @ ?z"
  proof -
    have "len = 6 + (6 + (1 + (1 + (4 + (len - 18)))))" using assms(3) by linarith
    then have "replicate len (0 :: u8) = replicate (6 + (6 + (1 + (1 + (4 + (len - 18)))))) 0" by (rule arg_cong)
    then show ?thesis by (simp only: replicate_add One_nat_def replicate_Suc replicate_0 append_Cons append_Nil)
  qed
  have 1: "buf_write 0 (replicate len 0) b = Some (b\<lparr>ub_bytes := replicate 6 0 @ replicate 6 0 @ [0] @ [0] @ replicate 4 0 @ ?z @ ?r\<rparr>)"
  proof -
    have "buf_write 0 (replicate len 0) b = Some (b\<lparr>ub_bytes := replicate len 0 @ ?r\<rparr>)" using assms(4) by (simp add: buf_write_def)
    then show ?thesis by (simp only: z append.assoc)
  qed
  have 2: "buf_write 0 dst (b\<lparr>ub_bytes := replicate 6 0 @ ys\<rparr>) = Some (b\<lparr>ub_bytes := dst @ ys\<rparr>)" for ys
    using buf_write_eq [of "[]" 0 "replicate 6 0" dst ys b] assms(1) by simp
  have 3: "buf_write 6 src (b\<lparr>ub_bytes := dst @ replicate 6 0 @ ys\<rparr>) = Some (b\<lparr>ub_bytes := dst @ src @ ys\<rparr>)" for ys
    by (rule buf_write_eq) (simp_all add: assms)
  have 4: "buf_write 12 [x] (b\<lparr>ub_bytes := dst @ src @ [0] @ ys\<rparr>) = Some (b\<lparr>ub_bytes := dst @ src @ [x] @ ys\<rparr>)" for x ys
    using buf_write_eq [of "dst @ src" 12 "[0]" "[x]" ys b] assms by simp
  have 5: "buf_write 13 [y] (b\<lparr>ub_bytes := dst @ src @ [x] @ [0] @ ys\<rparr>) = Some (b\<lparr>ub_bytes := dst @ src @ [x] @ [y] @ ys\<rparr>)" for x y ys
    using buf_write_eq [of "dst @ src @ [x]" 13 "[0]" "[y]" ys b] assms by simp
  have 6: "buf_write 14 ?q (b\<lparr>ub_bytes := dst @ src @ [x] @ [y] @ replicate 4 0 @ ys\<rparr>) = Some (b\<lparr>ub_bytes := dst @ src @ [x] @ [y] @ ?q @ ys\<rparr>)" for x y ys
    using buf_write_eq [of "dst @ src @ [x] @ [y]" 14 "replicate 4 0" ?q ys b] assms by simp
  have 7: "buf_write 18 (replicate (len - 18) 0xA5) (b\<lparr>ub_bytes := dst @ src @ [x] @ [y] @ ?q @ ?z @ ys\<rparr>)
      = Some (b\<lparr>ub_bytes := dst @ src @ [x] @ [y] @ ?q @ replicate (len - 18) 0xA5 @ ys\<rparr>)" for x y ys
    using buf_write_eq [of "dst @ src @ [x] @ [y] @ ?q" 18 ?z "replicate (len - 18) 0xA5" ys b] assms by simp
  have t: "take 6 dst = dst" "take 6 src = src" using assms by simp_all
  have e: "(ucast (drop_bit 8 ETHERTYPE AND 0xff) :: u8) = 0x88" "(ucast (ETHERTYPE AND 0xff) :: u8) = 0xB5" by simp_all
  show ?thesis
    unfolding build_frame_def t e 1 bind.bind_lunit 2 3 4 5 6
    using assms(3) by (cases "len = 18") (simp_all only: 7 frame_bytes_def append.assoc if_True if_False, simp_all)
qed

lemma swap_mac_eq:
  assumes "length a = 6" "length c = 6"
  shows "swap_mac (b\<lparr>ub_bytes := a @ c @ xs\<rparr>) = Some (b\<lparr>ub_bytes := c @ a @ xs\<rparr>)"
  using assms by (simp add: swap_mac_def buf_write_def Let_def)

end
