(* ===== verification/Bench_Rig.thy ===== *)
theory Bench_Rig
  imports Bench
begin

text \<open>
  The two ports of the benchmark in order: what is asked of a NIC (it keeps within the buffers it was given),
  of the clock and of the process's buffers, that every operation of the library keeps a port in order, and
  how often each rings the doorbells.
\<close>

section \<open>A NIC that keeps within its buffers\<close>

text \<open>Receive buffers are posted with a size of 2048 bytes, and the NIC writes no more than that into
  one: prefix lengths are at most 2034, byte counts in receive events at most 2048.\<close>

definition lens_ok :: "(nat \<Rightarrow> u8) \<Rightarrow> bool" where
  "lens_ok m \<longleftrightarrow> (\<forall>i<512. unat (le16 (m (i * 2048 + 8)) (m (i * 2048 + 9))) \<le> 2034)"

definition evs_ok :: "(nat \<Rightarrow> u64) \<Rightarrow> bool" where
  "evs_ok q \<longleftrightarrow> (\<forall>i<512. ev_code (q i) = 0 \<longrightarrow> unat (q i AND 0x3fff) \<le> 2048)"

definition nic_fits :: "env \<Rightarrow> bool" where
  "nic_fits K \<longleftrightarrow>
     (\<forall>h m. lens_ok m \<longrightarrow> lens_ok (dma_in (rxb_mem K h) m))
     \<and> (\<forall>h q. evs_ok q \<longrightarrow> evs_ok (dma_in (evq_mem K h DMA_DATA_EVQ) q))"

definition rx_fits :: "softc \<Rightarrow> bool" where
  "rx_fits s \<longleftrightarrow> lens_ok (rx_buffer s) \<and> evs_ok (data_evq_ring s)"

lemma evs_ok_zero [simp]: "evs_ok q \<Longrightarrow> evs_ok (q(i := 0))"
  by (simp add: evs_ok_def)

lemma rx_fits_sync:
  assumes "nic_fits K" "rx_fits s"
  shows "rx_fits (data_evq_sync K s)" "rx_fits (rx_buf_sync K s)"
  using assms by (simp_all add: rx_fits_def nic_fits_def data_evq_sync_eq rx_buf_sync_eq)

lemma count_small: "unat (ev AND (0x3fff :: u64)) < 16384"
  by (simp add: and_literal(5) unsigned_take_bit_eq take_bit_nat_def)

lemma ucast_small:
  fixes x :: "'a::len word"
  assumes "unat x < 16384" "14 < LENGTH('b::len)"
  shows "unat (ucast x :: 'b word) = unat x"
proof -
  have "(16384 :: nat) = 2 ^ 14" by simp
  also have "\<dots> \<le> 2 ^ LENGTH('b)" using assms(2) by (intro power_increasing) simp_all
  finally show ?thesis using assms(1) by (simp add: unsigned_ucast_eq take_bit_nat_eq_self)
qed

lemma frame_len_le:
  assumes "unat (le16 a b) \<le> 2034" "unat n \<le> 2048"
  shows "unat (rx_frame_len a b n) \<le> 2034"
proof (cases "le16 a b = 0 \<and> n > 14")
  case True
  have "unat (n - 14) = unat n - 14" using True by (simp add: unat_sub word_less_nat_alt order_less_imp_le word_le_nat_alt)
  moreover have "unat (ucast (n - 14) :: u16) = unat (n - 14)" using calculation assms(2) by (intro ucast_small) simp_all
  ultimately show ?thesis using True assms(2) by (simp add: rx_frame_len_def Let_def)
next
  case False
  then show ?thesis using assms by (auto simp: rx_frame_len_def Let_def)
qed

lemma decode_rx_count:
  "ev_type (decode_ev ev) = SFC7120_EV_RX \<longleftrightarrow> ev_code ev = 0"
  "ev_code ev = 0 \<Longrightarrow> unat (ev_rx_bytes (decode_ev ev)) = unat (ev AND 0x3fff)"
  using ucast_small [OF count_small, where 'b = 16] by (simp_all add: decode_ev_def ev_code_def Let_def)

lemma poll_loop_fits:
  assumes "nic_fits K"
  shows "rx_fits s \<Longrightarrow> poll_loop K n u s = Some (evs, u', s') \<Longrightarrow>
    rx_fits s' \<and> list_all (\<lambda>e. ev_type e = SFC7120_EV_RX \<longrightarrow> unat (ev_rx_bytes e) \<le> 2048) evs"
proof (induction n arbitrary: u s evs)
  case 0
  then show ?case by simp
next
  case (Suc n)
  let ?t = "data_evq_sync K s"
  have t: "rx_fits ?t" by (rule rx_fits_sync [OF assms Suc.prems(1)])
  show ?case
  proof (cases "no_event (data_evq_ring ?t (if_evq_read_ptr u))")
    case True
    with Suc.prems(2) t show ?thesis by (auto simp: Let_def user_evq_read_def bind_eq_Some_conv split: if_splits)
  next
    case False
    with Suc.prems(2) obtain u1 s1 es where r: "user_evq_consume u ?t = Some (u1, s1)" "poll_loop K n u1 s1 = Some (es, u', s')"
        "evs = decode_ev (data_evq_ring ?t (if_evq_read_ptr u)) # es" "if_evq_read_ptr u < 512"
      by (auto simp: Let_def user_evq_read_def bind_eq_Some_conv split: if_splits)
    have "rx_fits s1" using r(1) t by (auto simp: user_evq_consume_def rx_fits_def softc_emit split: if_splits)
    note ih = Suc.IH [OF this r(2)]
    show ?thesis using ih r(3,4) t decode_rx_count by (auto simp: rx_fits_def evs_ok_def)
  qed
qed

lemma consume_fits:
  assumes "data_evq_consume s = Some s'" "rx_fits s"
  shows "rx_fits s'" "rx_head s' = rx_head s"
  using assms by (auto simp: data_evq_consume_def rx_fits_def softc_emit split: if_splits)

lemma tx_poll_fits:
  assumes "nic_fits K"
  shows "rx_fits s \<Longrightarrow> tx_poll K tries p c s = Some (b, n, s') \<Longrightarrow> rx_fits s'"
proof (induction tries arbitrary: c s)
  case (Suc tries)
  have "rx_fits (data_evq_sync K s)" by (rule rx_fits_sync [OF assms Suc.prems(1)])
  with Suc show ?case
    by (auto simp: Let_def bind_eq_Some_conv dest: consume_fits split: if_splits)
qed simp

lemma rx_poll_fits:
  assumes "nic_fits K"
  shows "rx_fits s \<Longrightarrow> rx_poll K tries c s = Some (x, n, s') \<Longrightarrow>
    rx_fits s' \<and> rx_head s' = rx_head s \<and> (\<forall>k. x = Some k \<longrightarrow> unat k \<le> 2048)"
proof (induction tries arbitrary: c s)
  case (Suc tries)
  let ?t = "data_evq_sync K s"
  have t: "rx_fits ?t" "rx_head ?t = rx_head s" by (rule rx_fits_sync [OF assms Suc.prems(1)], simp add: data_evq_sync_eq)
  obtain ev where ev: "data_evq_read ?t = Some ev" using Suc.prems(2) by (auto simp: Let_def bind_eq_Some_conv)
  then have q: "ev = data_evq_ring ?t (data_evq_read_ptr ?t)" "data_evq_read_ptr ?t < 512"
    by (auto simp: data_evq_read_def split: if_splits)
  show ?case
  proof (cases "no_event ev")
    case True
    then have "rx_poll K tries c ?t = Some (x, n, s')" using Suc.prems(2) ev by (simp add: Let_def)
    from Suc.IH [OF t(1) this] t(2) show ?thesis by simp
  next
    case False
    then obtain s1 where s1: "data_evq_consume ?t = Some s1"
        "(if ev_code ev = 0 then Some (Some (ucast (ev AND 0x3fff)), c + 1, s1) else rx_poll K tries (c + 1) s1) = Some (x, n, s')"
      using Suc.prems(2) ev by (auto simp: Let_def bind_eq_Some_conv)
    have f: "rx_fits s1" "rx_head s1 = rx_head s" using consume_fits [OF s1(1) t(1)] t(2) by simp_all
    show ?thesis
    proof (cases "ev_code ev = 0")
      case True
      have "unat (ev AND 0x3fff) \<le> 2048" using t(1) q True by (simp add: rx_fits_def evs_ok_def)
      then show ?thesis using s1(2) f True ucast_small [OF count_small, where 'b = 32] by auto
    next
      case False
      then show ?thesis using Suc.IH [OF f(1), of "c + 1"] s1(2) f(2) by (simp only: if_False simp_thms) blast
    qed
  qed
qed simp

lemma rx_fits_frame [simp]:
  "rx_fits (s\<lparr>sc_mtx := m\<rparr>) = rx_fits s" "rx_fits (s\<lparr>io := h\<rparr>) = rx_fits s" "rx_fits (s\<lparr>tx_head := i\<rparr>) = rx_fits s"
  "rx_fits (s\<lparr>rx_head := i\<rparr>) = rx_fits s" "rx_fits (s\<lparr>tx_buffer := b\<rparr>) = rx_fits s" "rx_fits (s\<lparr>tx_desc_ring := d\<rparr>) = rx_fits s"
  "rx_fits (s\<lparr>rx_desc_ring := d\<rparr>) = rx_fits s"
  by (simp_all add: rx_fits_def)

lemma desc_write_fits:
  "tx_desc_write i v s = Some s' \<Longrightarrow> rx_fits s' = rx_fits s" "rx_desc_write i v s = Some s' \<Longrightarrow> rx_fits s' = rx_fits s"
  by (auto simp: tx_desc_write_def rx_desc_write_def softc_emit split: if_splits)

lemma ack_fits [simp]: "rx_fits (data_evq_ack n s) = rx_fits s"
  by (simp add: data_evq_ack_def softc_io)

lemma lock_fits: "SFC7120_LOCK s = Some s' \<Longrightarrow> rx_fits s' = rx_fits s" "SFC7120_UNLOCK s = Some s' \<Longrightarrow> rx_fits s' = rx_fits s"
  by (auto simp: SFC7120_LOCK_def SFC7120_UNLOCK_def bind_eq_Some_conv)

lemma copyin_fits: "tx_copyin K buf slot len s = Some (e, s') \<Longrightarrow> rx_fits s' = rx_fits s"
  by (auto simp: tx_copyin_def softc_emit Let_def split: if_splits prod.splits)

lemma ioctl_tx_fits:
  assumes K: "nic_fits K" and s: "dp_ok s" "rx_fits s" "sfc7120_ioctl_tx K buf len s = Some (e, r, s')"
  shows "rx_fits s'"
proof (cases "tx_accepted buf len")
  case False
  then show ?thesis using s(2,3) ioctl_tx_refused [of buf len K s] by auto
next
  case True
  let ?l = "s\<lparr>sc_mtx := MtxOwned\<rparr>"
  have lock: "SFC7120_LOCK s = Some ?l" using s(1) by (simp add: dp_ok_def)
  have g: "cap_tag buf" "PERM_LOAD \<in> cap_perms buf" "len \<noteq> 0" "unat len \<le> 2048" "unat len \<le> cap_len buf"
    using True by (simp_all add: tx_accepted_def)
  from s(3) g lock obtain ce s1 where c: "tx_copyin K buf (tx_head s * 2048) (unat len) ?l = Some (ce, s1)"
    by (auto simp: sfc7120_ioctl_tx_def bind_eq_Some_conv)
  have f1: "rx_fits s1" using copyin_fits [OF c] s(2) by simp
  show ?thesis
  proof (cases "ce = 0")
    case False
    then show ?thesis using s(3) g lock c f1 lock_fits(2) by (auto simp: sfc7120_ioctl_tx_def bind_eq_Some_conv Let_def)
  next
    case ce: True
    with s(3) g lock c obtain s2 b n s3 where d: "tx_desc_write (tx_head s1) (ef10_desc len (tx_slot_pa (tx_head s) ?l)) s1 = Some s2"
        "tx_poll K 10000 (tx_head s2) 0 (SFC7120_WRITE_REG SFC7120_REG_DATA_TX_WPTR_DBL (of_nat (tx_next (tx_head s2))) s2) = Some (b, n, s3)"
        "SFC7120_UNLOCK ((data_evq_ack n s3)\<lparr>tx_head := tx_next (tx_head (data_evq_ack n s3))\<rparr>) = Some s'"
      by (auto simp: sfc7120_ioctl_tx_def bind_eq_Some_conv Let_def)
    have "rx_fits s3" using tx_poll_fits [OF K _ d(2)] desc_write_fits(1) [OF d(1)] f1 by (simp add: softc_write_reg)
    then show ?thesis using lock_fits(2) [OF d(3)] by simp
  qed
qed

lemma ioctl_rx_fits:
  assumes K: "nic_fits K" and s: "dp_ok s" "rx_fits s" "sfc7120_ioctl_rx K s = Some (e, r, s')"
  shows "rx_fits s' \<and> (\<forall>n. r = RxLength n \<longrightarrow> unat n \<le> 2034)"
proof -
  from s(3) obtain s1 x n s2 where 1: "SFC7120_LOCK s = Some s1" "rx_poll K 100000 0 s1 = Some (x, n, s2)"
    by (auto simp: sfc7120_ioctl_rx_def bind_eq_Some_conv)
  have l: "rx_fits s1" "rx_head s1 = rx_head s"
    using s(2) 1(1) lock_fits(1) [OF 1(1)] by (auto simp: SFC7120_LOCK_def bind_eq_Some_conv)
  have p: "rx_fits s2" "rx_head s2 = rx_head s" "\<And>k. x = Some k \<Longrightarrow> unat k \<le> 2048"
    using rx_poll_fits [OF K l(1) 1(2)] l(2) by simp_all
  let ?t = "data_evq_ack n s2"
  have t: "rx_fits ?t" "rx_head ?t = rx_head s" "rx_head s < 512"
    using p s(1) by (simp_all add: data_evq_ack_def softc_io dp_ok_def)
  show ?thesis
  proof (cases x)
    case None
    then show ?thesis using s(3) 1 t lock_fits(2) by (auto simp: sfc7120_ioctl_rx_def bind_eq_Some_conv)
  next
    case (Some k)
    let ?m = "rx_buf_sync K ?t"
    have m: "rx_fits ?m" by (rule rx_fits_sync [OF K t(1)])
    have "unat (le16 (rx_buffer ?m (rx_head s * 2048 + 8)) (rx_buffer ?m (rx_head s * 2048 + 9))) \<le> 2034"
      using m t(3) by (simp add: rx_fits_def lens_ok_def)
    from frame_len_le [OF this p(3) [OF Some]] show ?thesis
      using s(3) 1 m t lock_fits(2) desc_write_fits(2) Some
      by (auto simp: sfc7120_ioctl_rx_def bind_eq_Some_conv Let_def rx_buf_read_def softc_io split: if_splits)
  qed
qed

section \<open>A port in use\<close>

text \<open>A driver in service, a client that has everything mapped and a page of its own to free, and memory in
  which every length fits.\<close>

definition port_ok :: "sys \<Rightarrow> sfc7120_if \<Rightarrow> softc \<Rightarrow> bool" where
  "port_ok S u s \<longleftrightarrow>
     in_service s \<and> client_ok u s \<and> rx_fits s \<and> if_fd u \<ge> 0 \<and> (is_null (if_cap_token u) \<or> if_cap_token u = sys_malloc S)"

text \<open>How often the transmit and the receive doorbell of the data path have been rung.\<close>

definition rung :: "u64 \<Rightarrow> softc \<Rightarrow> nat" where
  "rung reg s = length (filter (\<lambda>x. fst x = reg) (reg_writes (io s)))"

abbreviation posted where "posted \<equiv> rung SFC7120_REG_DATA_TX_WPTR_DBL"
abbreviation received where "received \<equiv> rung SFC7120_REG_DATA_RX_DESC_DBL"

lemma port_dp: "port_ok S u s \<Longrightarrow> dp_ok s"
  by (simp add: port_ok_def in_service_def serving_def)

lemma port_ok_step:
  assumes "port_ok S u s" "dp_only s s'" "dp_ok s'" "rx_fits s'" "p < 512" "t < 512" "r < 512"
  shows "port_ok S (u\<lparr>if_used_poll := b, if_evq_read_ptr := p, if_tx_head := t, if_rx_head := r\<rparr>) s'"
  using assms serving_dp_only [of s s'] dp_only_fields [OF assms(2)]
  by (simp add: port_ok_def in_service_def client_ok_def)

lemma dp_only_direct:
  "dp_only s (s\<lparr>io := h, tx_buffer := tb, tx_desc_ring := td\<rparr>)" "dp_only s (s\<lparr>io := h, rx_buffer := rb, rx_desc_ring := rd\<rparr>)"
  "dp_only s (s\<lparr>io := h, data_evq_ring := q\<rparr>)"
    by (rule dp_only_intro [where tb = tb and td = td and th = "tx_head s" and rb = "rx_buffer s" and rd = "rx_desc_ring s"
          and rh = "rx_head s" and q = "data_evq_ring s" and p = "data_evq_read_ptr s" and h = h], simp)
       (rule dp_only_intro [where tb = "tx_buffer s" and td = "tx_desc_ring s" and th = "tx_head s" and rb = rb and rd = rd
          and rh = "rx_head s" and q = "data_evq_ring s" and p = "data_evq_read_ptr s" and h = h], simp,
        rule dp_only_intro [where tb = "tx_buffer s" and td = "tx_desc_ring s" and th = "tx_head s" and rb = "rx_buffer s"
          and rd = "rx_desc_ring s" and rh = "rx_head s" and q = q and p = "data_evq_read_ptr s" and h = h], simp)

lemma dp_ok_direct:
  assumes "dp_ok s"
  shows "dp_ok (s\<lparr>io := h, tx_buffer := tb, tx_desc_ring := td\<rparr>)" "dp_ok (s\<lparr>io := h, rx_buffer := rb, rx_desc_ring := rd\<rparr>)"
    "dp_ok (s\<lparr>io := h, data_evq_ring := q\<rparr>)"
  using assms by (simp_all add: dp_ok_def dma_mapped_def)

lemma user_poll_loop:
  assumes "client_ok u s" "dp_ok s" "sfc7120_user_poll K True 8 u s = Some (n, evs, u', s')"
  shows "\<exists>s1. poll_loop K 8 (u\<lparr>if_used_poll := True\<rparr>) s = Some (evs, u', s1) \<and> data_evq_ring s' = data_evq_ring s1"
proof -
  let ?u = "u\<lparr>if_used_poll := True\<rparr>"
  have c: "if_evq_ring u \<noteq> 0" "if_mmio_slices u = Some sfc7120_reg_slices" "if_mmio_slices_len u = 5" "if_evq_read_ptr u < 512"
      "dma_mapped DMA_DATA_EVQ s"
    using assms(1,2) by (simp_all add: client_ok_def dp_ok_def)
  obtain es u1 s1 where l: "poll_loop K 8 ?u s = Some (es, u1, s1)" "user_polled ?u s es u1 s1"
    using poll_loop_total [of s ?u K 8] c by auto
  have sl: "if_mmio_slices u1 = Some sfc7120_reg_slices" using l(2) c(2) by (simp add: user_polled_def)
  have "sfc7120_user_poll K True 8 u s = Some (int (length es), es, u1,
      if es = [] then s1 else s1\<lparr>io := RegWrite SFC7120_REG_DATA_EVQ_RPTR_DBL (of_nat (if_evq_read_ptr u1) AND SFC7120_EVQ_RPTR_MASK) # io s1\<rparr>)"
    using c l(1) slice_write_eqs(1) [OF sl] by (simp add: sfc7120_user_poll_def)
  then show ?thesis using assms(3) l(1) by (auto split: if_splits)
qed

lemma port_poll:
  assumes K: "nic_fits K" and ok: "port_ok S u s"
  shows "\<exists>evs u' s'. sfc7120_user_poll K True 8 u s = Some (int (length evs), evs, u', s') \<and> port_ok S u' s'
    \<and> if_mac_addr u' = if_mac_addr u
    \<and> list_all (\<lambda>e. ev_type e = SFC7120_EV_RX \<longrightarrow> unat (ev_rx_bytes e) \<le> 2048) evs \<and> length evs \<le> 8
    \<and> posted s' = posted s \<and> received s' = received s"
proof -
  have c: "client_ok u s" "rx_fits s" using ok by (simp_all add: port_ok_def)
  have eight: "0 < (8 :: int)" by simp
  obtain evs u' s' h q where p: "sfc7120_user_poll K True 8 u s = Some (int (length evs), evs, u', s')" "int (length evs) \<le> 8"
      "u' = u\<lparr>if_used_poll := True, if_evq_read_ptr := (if_evq_read_ptr u + length evs) mod 512\<rparr>"
      "s' = s\<lparr>io := h, data_evq_ring := q\<rparr>"
      "reg_writes (io s') = reg_writes (io s) @ (if evs = [] then [] else [(SFC7120_REG_DATA_EVQ_RPTR_DBL, of_nat (if_evq_read_ptr u'))])"
    using user_poll_spec [OF c(1) port_dp [OF ok] eight, of K] by (elim exE conjE) (rule that)
  obtain s1 where l: "poll_loop K 8 (u\<lparr>if_used_poll := True\<rparr>) s = Some (evs, u', s1)" "data_evq_ring s' = data_evq_ring s1"
    using user_poll_loop [OF c(1) port_dp [OF ok] p(1)] by blast
  note f = poll_loop_fits [OF K c(2) l(1)]
  have fits: "rx_fits s'" using f l(2) c(2) p(4) by (simp add: rx_fits_def)
  have b: "(if_evq_read_ptr u + length evs) mod 512 < 512" "if_tx_head u < 512" "if_rx_head u < 512"
    using c(1) by (simp_all add: client_ok_def)
  have "dp_only s s'" "dp_ok s'" unfolding p(4) by (rule dp_only_direct, rule dp_ok_direct [OF port_dp [OF ok]])
  note st = port_ok_step [OF ok this fits b, of True]
  have "port_ok S u' s'" using st by (simp add: p(3))
  moreover have "posted s' = posted s" "received s' = received s" by (simp_all add: rung_def p(5))
  moreover have "if_mac_addr u' = if_mac_addr u" "length evs \<le> 8" using p(2) by (simp_all add: p(3))
  ultimately show ?thesis using p(1) conjunct2 [OF f] by blast
qed

lemma port_post:
  assumes ok: "port_ok S u s"
  shows "\<exists>r u' s'. sfc7120_tx_post (Some bytes) len u s = Some (r, u', s') \<and> port_ok S u' s' \<and> if_mac_addr u' = if_mac_addr u
    \<and> (r = 0 \<longleftrightarrow> len \<noteq> 0 \<and> unat len \<le> 2048) \<and> posted s' = posted s + of_bool (r = 0) \<and> received s' = received s"
proof (cases "len \<noteq> 0 \<and> unat len \<le> 2048")
  case True
  have c: "client_ok u s" "rx_fits s" using ok by (simp_all add: port_ok_def)
  let ?i = "if_tx_head u"
  let ?d = "ef10_desc len (tx_slot_pa ?i s)"
  let ?u = "u\<lparr>if_used_poll := True, if_tx_head := tx_next ?i\<rparr>"
  let ?s = "s\<lparr>io := RegWrite SFC7120_REG_DATA_TX_WPTR_DBL (of_nat (tx_next ?i)) # TxDescStore ?i ?d # io s,
         tx_buffer := mem_fill (?i * SFC7120_TX_BUFFER_SIZE) (unat len) bytes (tx_buffer s), tx_desc_ring := (tx_desc_ring s)(?i := ?d)\<rparr>"
  have run: "sfc7120_tx_post (Some bytes) len u s = Some (0, ?u, ?s)"
    using tx_post_eq [OF c(1) port_dp [OF ok], of len bytes] True by (simp add: Let_def)
  have b: "if_evq_read_ptr u < 512" "tx_next ?i < 512" "if_rx_head u < 512"
    using c(1) tx_ring.step_bound by (simp_all add: client_ok_def)
  have "port_ok S ?u ?s"
    using port_ok_step [OF ok dp_only_direct(1) dp_ok_direct(1) [OF port_dp [OF ok]] _ b] c(2) by simp
  then show ?thesis using run True by (simp add: rung_def)
next
  case False
  then have "sfc7120_tx_post (Some bytes) len u s = Some (-1, u, s)" by (auto simp: sfc7120_tx_post_def)
  then show ?thesis using ok False by simp
qed

lemma port_recv:
  assumes K: "nic_fits K" and ok: "port_ok S u s" and n: "unat rx_bytes \<le> 2048" "2034 \<le> n"
  shows "\<exists>frame u' s'. sfc7120_rx_recv K (Some n) rx_bytes u s = Some (0, frame, u', s') \<and> port_ok S u' s' \<and> if_mac_addr u' = if_mac_addr u
    \<and> length frame \<le> 2034 \<and> posted s' = posted s \<and> received s' = received s + 1
    \<and> data_evq_ring s' = data_evq_ring s \<and> if_evq_read_ptr u' = if_evq_read_ptr u"
proof -
  have c: "client_ok u s" "rx_fits s" using ok by (simp_all add: port_ok_def)
  define i where "i = if_rx_head u"
  define m where "m = dma_in (rxb_mem K (RxBufPostread # io s)) (rx_buffer s)"
  define plen where "plen = unat (rx_frame_len (m (i * 2048 + 8)) (m (i * 2048 + 9)) (ucast rx_bytes))"
  have i: "i < 512" using c(1) by (simp add: client_ok_def i_def)
  have m: "lens_ok m" using K c(2) by (simp add: m_def nic_fits_def rx_fits_def)
  have "unat (ucast rx_bytes :: u32) \<le> 2048" using n(1) by (simp add: ucast_small)
  with m i have pl: "plen \<le> 2034" unfolding plen_def by (intro frame_len_le) (simp_all add: lens_ok_def)
  let ?d = "ef10_desc (of_nat SFC7120_RX_BUFFER_SIZE) (rx_slot_pa i s)"
  let ?u = "u\<lparr>if_used_poll := True, if_rx_head := rx_next i\<rparr>"
  let ?s = "s\<lparr>io := RegWrite SFC7120_REG_DATA_RX_DESC_DBL (of_nat i) # RxDescStore i ?d # RxBufPostread # io s,
         rx_buffer := m, rx_desc_ring := (rx_desc_ring s)(i := ?d)\<rparr>"
  have run: "sfc7120_rx_recv K (Some n) rx_bytes u s = Some (0, map (\<lambda>k. m (i * 2048 + 14 + k)) [0..<plen], ?u, ?s)"
    using rx_recv_eq [OF c(1) port_dp [OF ok] i_def m_def plen_def, of n] i pl n(2) by (simp add: Let_def)
  have b: "if_evq_read_ptr u < 512" "if_tx_head u < 512" "rx_next i < 512"
    using c(1) rx_ring.step_bound i by (simp_all add: client_ok_def)
  have "port_ok S ?u ?s"
    using port_ok_step [OF ok dp_only_direct(2) dp_ok_direct(2) [OF port_dp [OF ok]] _ b] c(2) m by (simp add: rx_fits_def)
  then show ?thesis using run pl by (simp add: rung_def)
qed

lemma port_ioctl:
  assumes K: "nic_fits K" and ok: "port_ok S u s" and r: "r = SFC7120_TX buf len \<or> r = SFC7120_RX"
  shows "\<exists>e out s'. dev_ioctl K (DriverCmd r) u s = Some (e, out, s') \<and> port_ok S u s'
    \<and> (\<forall>n. out = Inr (RxLength n) \<longrightarrow> unat n \<le> 2034)"
proof (cases "check_cap_token (capio_sc s) (req_sealed_cap (if_cap_req u)) = 0")
  case True
  have dp: "dp_ok s" "rx_fits s" using port_dp [OF ok] ok by (simp_all add: port_ok_def)
  obtain e out s' where s': "sfc7120_ioctl K r s = Some (e, out, s')" "dp_ok s'" "dp_only s s'"
    using sfc7120_ioctl_total [OF dp(1)] by blast
  have f: "rx_fits s' \<and> (\<forall>n. out = RxLength n \<longrightarrow> unat n \<le> 2034)"
  proof (cases "r = SFC7120_RX")
    case True
    then show ?thesis using ioctl_rx_fits [OF K dp] s'(1) by (simp add: sfc7120_ioctl_def)
  next
    case False
    with r s'(1) have t: "sfc7120_ioctl_tx K buf len s = Some (e, out, s')" by (simp add: sfc7120_ioctl_def)
    have "out \<noteq> RxLength n" for n
      using t by (auto simp: sfc7120_ioctl_tx_def bind_eq_Some_conv Let_def split: if_splits)
    then show ?thesis using ioctl_tx_fits [OF K dp t] by simp
  qed
  have b: "if_evq_read_ptr u < 512" "if_tx_head u < 512" "if_rx_head u < 512" using ok by (simp_all add: port_ok_def client_ok_def)
  have "port_ok S u s'" using port_ok_step [OF ok s'(3,2) conjunct1 [OF f] b, of "if_used_poll u"] by simp
  then show ?thesis using True s'(1) f by (simp add: dev_ioctl_driver)
next
  case False
  then show ?thesis using ok by (simp add: dev_ioctl_driver)
qed

section \<open>The rig\<close>

text \<open>The clock moves on: counted from any earlier read, the two seconds of a measurement pass, and it reaches the
  deadline set a second after that read.\<close>

definition clock_ticks :: "host \<Rightarrow> bool" where
  "clock_ticks H \<longleftrightarrow>
     (\<forall>i k. k \<le> i \<longrightarrow> (\<exists>j\<ge>i. TPUT_NS \<le> clock_ns H j - clock_ns H k) \<and> (\<exists>j\<ge>i. clock_ns H k + RX_TIMEOUT_NS \<le> clock_ns H j))"

definition host_ok :: "host \<Rightarrow> bool" where
  "host_ok H \<longleftrightarrow>
     (\<forall>p. nic_fits (hs_env H p)) \<and> clock_ticks H \<and> length (ub_bytes (hs_frame H)) = 2048 \<and> length (ub_bytes (hs_rxbuf H)) = 2048"

definition rig_ok :: "host \<Rightarrow> bench \<Rightarrow> bool" where
  "rig_ok H w \<longleftrightarrow> host_ok H \<and> (\<forall>p. port_ok (hs_sys H p) (b_if w p) (b_sc w p))"

text \<open>The counts of doorbells rung on a port.\<close>

definition rang :: "pf \<Rightarrow> bench \<Rightarrow> nat \<times> nat" where
  "rang p w = (posted (b_sc w p), received (b_sc w p))"

lemma rig_clk [simp]: "rig_ok H (w\<lparr>b_clk := n\<rparr>) = rig_ok H w" "rang p (w\<lparr>b_clk := n\<rparr>) = rang p w"
  by (simp_all add: rig_ok_def rang_def)

lemma on_port_run:
  assumes "rig_ok H w" "f (b_if w p) (b_sc w p) = Some (r, u, s)" "port_ok (hs_sys H p) u s"
  shows "\<exists>w'. on_port p f w = Some (r, w') \<and> rig_ok H w' \<and> b_clk w' = b_clk w \<and> rang p w' = (posted s, received s)
    \<and> (\<forall>q. q \<noteq> p \<longrightarrow> rang q w' = rang q w \<and> b_if w' q = b_if w q) \<and> b_if w' p = u \<and> b_sc w' p = s"
  using assms by (simp add: on_port_def rig_ok_def rang_def)

lemma rig_port: "rig_ok H w \<Longrightarrow> port_ok (hs_sys H p) (b_if w p) (b_sc w p)" and rig_nic: "rig_ok H w \<Longrightarrow> nic_fits (hs_env H p)"
  by (simp_all add: rig_ok_def host_ok_def)

text \<open>What every step of the program leaves as it was: the client addresses and, on all ports, the counts.\<close>

definition same_rig :: "bench \<Rightarrow> bench \<Rightarrow> bool" where
  "same_rig w w' \<longleftrightarrow> if_mac_addr (b_if w' PF0) = if_mac_addr (b_if w PF0) \<and> (\<forall>p. rang p w' = rang p w)"

lemma bench_poll_run:
  assumes "rig_ok H w"
  shows "\<exists>evs w'. bench_poll H p w = Some ((int (length evs), evs), w') \<and> rig_ok H w' \<and> b_clk w' = b_clk w \<and> same_rig w w'
    \<and> list_all (\<lambda>e. ev_type e = SFC7120_EV_RX \<longrightarrow> unat (ev_rx_bytes e) \<le> 2048) evs"
proof -
  obtain evs u s where p: "sfc7120_user_poll (hs_env H p) True 8 (b_if w p) (b_sc w p) = Some (int (length evs), evs, u, s)"
      "port_ok (hs_sys H p) u s" "if_mac_addr u = if_mac_addr (b_if w p)"
      "list_all (\<lambda>e. ev_type e = SFC7120_EV_RX \<longrightarrow> unat (ev_rx_bytes e) \<le> 2048) evs"
      "posted s = posted (b_sc w p)" "received s = received (b_sc w p)"
    using port_poll [OF rig_nic [OF assms, of p] rig_port [OF assms, of p]] by blast
  let ?f = "\<lambda>u s. do { (n, evs, u, s) \<leftarrow> sfc7120_user_poll (hs_env H p) True 8 u s; Some ((n, evs), u, s) }"
  have "?f (b_if w p) (b_sc w p) = Some ((int (length evs), evs), u, s)" by (simp add: p(1))
  from on_port_run [OF assms, of ?f, OF this p(2)] obtain w' where w': "bench_poll H p w = Some ((int (length evs), evs), w')" "rig_ok H w'"
      "b_clk w' = b_clk w" "rang p w' = (posted s, received s)"
      "\<And>q. q \<noteq> p \<Longrightarrow> rang q w' = rang q w \<and> b_if w' q = b_if w q" "b_if w' p = u"
    unfolding bench_poll_def by blast
  have "rang q w' = rang q w" for q using w'(4,5) p(5,6) by (cases "q = p") (simp_all add: rang_def)
  moreover have "if_mac_addr (b_if w' PF0) = if_mac_addr (b_if w PF0)" using w'(5) [of PF0] w'(6) p(3) by (cases "p = PF0") auto
  ultimately have "same_rig w w'" by (simp add: same_rig_def)
  then show ?thesis using w' p(4) by blast
qed

lemma buf_fill:
  assumes "length frame \<le> length (ub_bytes b)"
  shows "buf_write 0 frame b = Some (b\<lparr>ub_bytes := frame @ drop (length frame) (ub_bytes b)\<rparr>)"
  using assms by (simp add: buf_write_def)

lemma bench_recv_run:
  assumes "rig_ok H w" "unat n \<le> 2048" "length (ub_bytes buf) = 2048"
  shows "\<exists>buf' len w'. bench_recv H p n buf w = Some (0, buf', len, w') \<and> rig_ok H w' \<and> b_clk w' = b_clk w
    \<and> length (ub_bytes buf') = 2048 \<and> ub_cap buf' = ub_cap buf \<and> len \<le> 2034 \<and> if_mac_addr (b_if w' PF0) = if_mac_addr (b_if w PF0)
    \<and> rang p w' = (fst (rang p w), snd (rang p w) + 1) \<and> (\<forall>q. q \<noteq> p \<longrightarrow> rang q w' = rang q w)
    \<and> data_evq_ring (b_sc w' p) = data_evq_ring (b_sc w p) \<and> if_evq_read_ptr (b_if w' p) = if_evq_read_ptr (b_if w p)"
proof -
  obtain frame u s where p: "sfc7120_rx_recv (hs_env H p) (Some 2048) n (b_if w p) (b_sc w p) = Some (0, frame, u, s)"
      "port_ok (hs_sys H p) u s" "if_mac_addr u = if_mac_addr (b_if w p)" "length frame \<le> 2034"
      "posted s = posted (b_sc w p)" "received s = received (b_sc w p) + 1"
      "data_evq_ring s = data_evq_ring (b_sc w p)" "if_evq_read_ptr u = if_evq_read_ptr (b_if w p)"
    using port_recv [OF rig_nic [OF assms(1), of p] rig_port [OF assms(1), of p] assms(2), of 2048] by auto
  let ?f = "\<lambda>u s. do { (r, frame, u, s) \<leftarrow> sfc7120_rx_recv (hs_env H p) (Some (length (ub_bytes buf))) n u s; Some ((r, frame), u, s) }"
  have "?f (b_if w p) (b_sc w p) = Some ((0, frame), u, s)" by (simp add: p(1) assms(3))
  from on_port_run [OF assms(1), of ?f, OF this p(2)] obtain w' where w': "on_port p ?f w = Some ((0, frame), w')" "rig_ok H w'"
      "b_clk w' = b_clk w" "rang p w' = (posted s, received s)"
      "\<And>q. q \<noteq> p \<Longrightarrow> rang q w' = rang q w \<and> b_if w' q = b_if w q" "b_if w' p = u" "b_sc w' p = s"
    by blast
  have m: "if_mac_addr (b_if w' PF0) = if_mac_addr (b_if w PF0)" using w'(5) [of PF0] w'(6) p(3) by (cases "p = PF0") auto
  have b: "length frame \<le> length (ub_bytes buf)" using p(4) assms(3) by simp
  have "bench_recv H p n buf w = Some (0, buf\<lparr>ub_bytes := frame @ drop (length frame) (ub_bytes buf)\<rparr>, length frame, w')"
    unfolding bench_recv_def w'(1) by (simp add: buf_fill [OF b])
  then show ?thesis using w' m p(4-8) b assms(3) by (simp add: rang_def)
qed

lemma tx_direct_run:
  assumes "rig_ok H w"
  shows "\<exists>r w'. tx_direct H p buf len w = Some (r, w') \<and> rig_ok H w' \<and> b_clk w' = b_clk w
    \<and> if_mac_addr (b_if w' PF0) = if_mac_addr (b_if w PF0) \<and> (0 < len \<and> len \<le> 2048 \<longrightarrow> r = 0)
    \<and> rang p w' = (fst (rang p w) + of_bool (r = 0), snd (rang p w)) \<and> (\<forall>q. q \<noteq> p \<longrightarrow> rang q w' = rang q w)"
proof -
  obtain r u s where p: "sfc7120_tx_post (Some (\<lambda>i. ub_bytes buf ! i)) (of_nat len) (b_if w p) (b_sc w p) = Some (r, u, s)"
      "port_ok (hs_sys H p) u s" "if_mac_addr u = if_mac_addr (b_if w p)" "r = 0 \<longleftrightarrow> (of_nat len :: u64) \<noteq> 0 \<and> unat (of_nat len :: u64) \<le> 2048"
      "posted s = posted (b_sc w p) + of_bool (r = 0)" "received s = received (b_sc w p)"
    using port_post [OF rig_port [OF assms, of p], of "\<lambda>i. ub_bytes buf ! i" "of_nat len"] by blast
  from on_port_run [OF assms, of "sfc7120_tx_post (Some (\<lambda>i. ub_bytes buf ! i)) (of_nat len)", OF p(1,2)]
  obtain w' where w': "tx_direct H p buf len w = Some (r, w')" "rig_ok H w'"
      "b_clk w' = b_clk w" "rang p w' = (posted s, received s)"
      "\<And>q. q \<noteq> p \<Longrightarrow> rang q w' = rang q w \<and> b_if w' q = b_if w q" "b_if w' p = u"
    unfolding tx_direct_def by blast
  have m: "if_mac_addr (b_if w' PF0) = if_mac_addr (b_if w PF0)" using w'(5) [of PF0] w'(6) p(3) by (cases "p = PF0") auto
  have "r = 0" if "0 < len" "len \<le> 2048"
  proof -
    have "unat (of_nat len :: u64) = len" using that by (simp add: unsigned_of_nat take_bit_nat_eq_self)
    then show ?thesis using p(4) that by auto
  qed
  then show ?thesis using w' m p(5,6) by (simp add: rang_def)
qed

end
