(* ===== verification/Bench_Run.thy ===== *)
theory Bench_Run
  imports Bench_Rig
begin

text \<open>
  The loops of the benchmark end, whatever the NICs do: \<open>wait_rx\<close> by its deadline, the measuring loops by
  their time, the latency loop by its count.  The interface \<open>latency_path\<close> is what the latency loop needs of the
  two functions of a \<open>bench_path_t\<close>, and \<open>session_path\<close> adds a throughput run; both are met by the direct and by the
  system-call path, and the session is proved over them once.
\<close>

section \<open>Waiting for a frame ends\<close>

definition recv_post :: "host \<Rightarrow> ubuf \<Rightarrow> bench \<Rightarrow> (int \<times> ubuf \<times> nat \<times> bench) option \<Rightarrow> bool" where
  "recv_post H buf w X \<longleftrightarrow>
     (\<exists>r buf' len w'. X = Some (r, buf', len, w') \<and> rig_ok H w' \<and> length (ub_bytes buf') = 2048 \<and> ub_cap buf' = ub_cap buf
        \<and> len \<le> 2048 \<and> (r = 0 \<or> r = -1) \<and> if_mac_addr (b_if w' PF0) = if_mac_addr (b_if w PF0))"

lemma recv_post_mac: "recv_post H buf w' X \<Longrightarrow> if_mac_addr (b_if w' PF0) = if_mac_addr (b_if w PF0) \<Longrightarrow> recv_post H buf w X"
  by (simp add: recv_post_def)

text \<open>One turn: a result, or another turn with the clock read at most once.\<close>

lemma wait_rx_step:
  assumes "rig_ok H w" "length (ub_bytes buf) = 2048"
  shows "recv_post H buf w (wait_rx_loop H p buf d tries w)
    \<or> (\<exists>w'. rig_ok H w' \<and> b_clk w' = b_clk w \<and> if_mac_addr (b_if w' PF0) = if_mac_addr (b_if w PF0)
        \<and> wait_rx_loop H p buf d tries w =
            (let t = clock_ns H (b_clk w); w2 = w'\<lparr>b_clk := b_clk w + 1\<rparr> in
             if (tries + 1) mod 65536 \<noteq> 0 then wait_rx_loop H p buf d (tries + 1) w'
             else if d = 0 then wait_rx_loop H p buf (t + RX_TIMEOUT_NS) (tries + 1) w2
             else if d \<le> t then Some (-1, buf, 0, w2)
             else wait_rx_loop H p buf d (tries + 1) w2))"
proof -
  obtain evs w1 where e: "bench_poll H p w = Some ((int (length evs), evs), w1)" "rig_ok H w1" "b_clk w1 = b_clk w" "same_rig w w1"
      "list_all (\<lambda>e. ev_type e = SFC7120_EV_RX \<longrightarrow> unat (ev_rx_bytes e) \<le> 2048) evs"
    using bench_poll_run [OF assms(1)] by blast
  have mac: "if_mac_addr (b_if w1 PF0) = if_mac_addr (b_if w PF0)" using e(4) by (simp add: same_rig_def)
  show ?thesis
  proof (cases "find (\<lambda>e. ev_type e = SFC7120_EV_RX) evs")
    case None
    have "wait_rx_loop H p buf d tries w =
            (let t = clock_ns H (b_clk w); w2 = w1\<lparr>b_clk := b_clk w + 1\<rparr> in
             if (tries + 1) mod 65536 \<noteq> 0 then wait_rx_loop H p buf d (tries + 1) w1
             else if d = 0 then wait_rx_loop H p buf (t + RX_TIMEOUT_NS) (tries + 1) w2
             else if d \<le> t then Some (-1, buf, 0, w2)
             else wait_rx_loop H p buf d (tries + 1) w2)"
      unfolding wait_rx_loop.simps [of H p buf d tries w] by (simp add: e(1,3) None now_ns_def Let_def)
    then show ?thesis using e(2,3) mac by blast
  next
    case (Some ev)
    then have ev: "ev \<in> set evs" "ev_type ev = SFC7120_EV_RX" by (auto simp: find_Some_iff)
    with e(5) have "unat (ev_rx_bytes ev) \<le> 2048" by (simp add: list_all_iff)
    from bench_recv_run [OF e(2) this assms(2)] obtain buf' len w2 where r: "bench_recv H p (ev_rx_bytes ev) buf w1 = Some (0, buf', len, w2)"
        "rig_ok H w2" "length (ub_bytes buf') = 2048" "ub_cap buf' = ub_cap buf" "len \<le> 2034"
        "if_mac_addr (b_if w2 PF0) = if_mac_addr (b_if w1 PF0)" by blast
    have "wait_rx_loop H p buf d tries w = Some (0, buf', len, w2)"
      unfolding wait_rx_loop.simps [of H p buf d tries w] by (simp add: e(1) Some r(1))
    then show ?thesis using r mac by (simp add: recv_post_def)
  qed
qed

text \<open>The turns until the clock is read for the \<open>j\<close>-th time, when it is read every \<open>M\<close> turns.\<close>

definition turns_left :: "nat \<Rightarrow> nat \<Rightarrow> nat \<Rightarrow> nat \<Rightarrow> nat" where
  "turns_left M j clk tries = (j - clk) * M + (M - 1 - tries mod M)"

lemma turns_left_less:
  assumes "clk \<le> j" "1 < M"
  shows "(tries + 1) mod M \<noteq> 0 \<Longrightarrow> turns_left M j clk (tries + 1) < turns_left M j clk tries"
    "(tries + 1) mod M = 0 \<Longrightarrow> clk < j \<Longrightarrow> turns_left M j (clk + 1) (tries + 1) < turns_left M j clk tries"
proof -
  assume a: "(tries + 1) mod M \<noteq> 0"
  then have "(tries + 1) mod M = tries mod M + 1" by (simp add: mod_Suc split: if_splits)
  moreover have "tries mod M < M" "(tries + 1) mod M < M" using assms(2) by simp_all
  ultimately show "turns_left M j clk (tries + 1) < turns_left M j clk tries" using a unfolding turns_left_def by linarith
next
  assume a: "(tries + 1) mod M = 0" "clk < j"
  have "tries mod M = M - 1" using a(1) assms(2) by (simp add: mod_Suc split: if_splits)
  moreover have "(j - clk) * M = (j - (clk + 1)) * M + M"
    using a(2) by (metis Suc_diff_Suc Suc_eq_plus1 add.commute mult_Suc)
  ultimately show "turns_left M j (clk + 1) (tries + 1) < turns_left M j clk tries" using a(1) assms(2) unfolding turns_left_def by linarith
qed

lemma wait_rx_armed:
  assumes "d \<noteq> 0" "d \<le> clock_ns H j" "length (ub_bytes buf) = 2048"
  shows "rig_ok H w \<Longrightarrow> b_clk w \<le> j \<Longrightarrow> recv_post H buf w (wait_rx_loop H p buf d tries w)"
proof (induction "turns_left 65536 j (b_clk w) tries" arbitrary: tries w rule: less_induct)
  case less
  note ih = less.hyps and ok = less.prems
  from wait_rx_step [OF ok(1) assms(3), of p d tries] show ?case
  proof (elim disjE exE conjE)
    fix w' :: bench let ?w2 = "w'\<lparr>b_clk := b_clk w + 1\<rparr>"
    assume w': "rig_ok H w'" "b_clk w' = b_clk w" "if_mac_addr (b_if w' PF0) = if_mac_addr (b_if w PF0)"
      and run: "wait_rx_loop H p buf d tries w =
            (let t = clock_ns H (b_clk w); w2 = ?w2 in
             if (tries + 1) mod 65536 \<noteq> 0 then wait_rx_loop H p buf d (tries + 1) w'
             else if d = 0 then wait_rx_loop H p buf (t + RX_TIMEOUT_NS) (tries + 1) w2
             else if d \<le> t then Some (-1, buf, 0, w2)
             else wait_rx_loop H p buf d (tries + 1) w2)"
    show ?thesis
    proof (cases "(tries + 1) mod 65536 \<noteq> 0")
      case True
      have "recv_post H buf w' (wait_rx_loop H p buf d (tries + 1) w')"
        using ih [of w' "tries + 1"] turns_left_less(1) [OF ok(2) _ True] w' ok(2) by simp
      then show ?thesis using run True w'(3) by (simp add: recv_post_mac)
    next
      case False
      show ?thesis
      proof (cases "d \<le> clock_ns H (b_clk w)")
        case True
        then show ?thesis using run False assms(1,3) w' by (simp add: recv_post_def)
      next
        case go: False
        then have "b_clk w < j" using ok(2) assms(2) by (cases "b_clk w = j") auto
        then have "recv_post H buf ?w2 (wait_rx_loop H p buf d (tries + 1) ?w2)"
          using ih [of ?w2 "tries + 1"] turns_left_less(2) [OF ok(2), of 65536 tries] False w' by simp
        then show ?thesis using run False go assms(1) w'(3) recv_post_mac [of H buf ?w2 _ w] by simp
      qed
    qed
  qed
qed

lemma wait_rx_unarmed:
  assumes "clock_ns H j + RX_TIMEOUT_NS \<noteq> 0" "length (ub_bytes buf) = 2048"
  shows "rig_ok H w \<Longrightarrow> b_clk w \<le> j \<Longrightarrow> recv_post H buf w (wait_rx_loop H p buf 0 tries w)"
proof (induction "turns_left 65536 j (b_clk w) tries" arbitrary: tries w rule: less_induct)
  case less
  note ih = less.hyps and ok = less.prems
  let ?d = "clock_ns H (b_clk w) + RX_TIMEOUT_NS"
  from wait_rx_step [OF ok(1) assms(2), of p 0 tries] show ?case
  proof (elim disjE exE conjE)
    fix w' :: bench let ?w2 = "w'\<lparr>b_clk := b_clk w + 1\<rparr>"
    assume w': "rig_ok H w'" "b_clk w' = b_clk w" "if_mac_addr (b_if w' PF0) = if_mac_addr (b_if w PF0)"
      and run: "wait_rx_loop H p buf 0 tries w =
            (let t = clock_ns H (b_clk w); w2 = ?w2 in
             if (tries + 1) mod 65536 \<noteq> 0 then wait_rx_loop H p buf 0 (tries + 1) w'
             else if (0 :: u64) = 0 then wait_rx_loop H p buf (t + RX_TIMEOUT_NS) (tries + 1) w2
             else if 0 \<le> t then Some (-1, buf, 0, w2)
             else wait_rx_loop H p buf 0 (tries + 1) w2)"
    show ?thesis
    proof (cases "(tries + 1) mod 65536 \<noteq> 0")
      case True
      have "recv_post H buf w' (wait_rx_loop H p buf 0 (tries + 1) w')"
        using ih [of w' "tries + 1"] turns_left_less(1) [OF ok(2) _ True] w' ok(2) by simp
      then show ?thesis using run True w'(3) by (simp add: recv_post_mac)
    next
      case False
      have "recv_post H buf ?w2 (wait_rx_loop H p buf ?d (tries + 1) ?w2)"
      proof (cases "?d = 0")
        case True
        then have "b_clk w < j" using ok(2) assms(1) by (cases "b_clk w = j") auto
        then show ?thesis using True ih [of ?w2 "tries + 1"] turns_left_less(2) [OF ok(2), of 65536 tries] False w' by simp
      next
        case armed: False
        have "clock_ticks H" using ok(1) by (simp add: rig_ok_def host_ok_def)
        then obtain k where "b_clk w + 1 \<le> k" "?d \<le> clock_ns H k" unfolding clock_ticks_def by (meson le_add1)
        then show ?thesis using wait_rx_armed [OF armed _ assms(2)] w'(1) by simp
      qed
      then show ?thesis using run False w'(3) recv_post_mac [of H buf ?w2 _ w] by simp
    qed
  qed
qed

lemma wait_rx_total:
  assumes "rig_ok H w" "length (ub_bytes buf) = 2048"
  shows "recv_post H buf w (wait_rx H p buf w)"
proof -
  have "clock_ticks H" using assms(1) by (simp add: rig_ok_def host_ok_def)
  then obtain i where i: "b_clk w \<le> i" "TPUT_NS \<le> clock_ns H i - clock_ns H (b_clk w)" unfolding clock_ticks_def by blast
  then have "clock_ns H i \<noteq> clock_ns H (b_clk w)" by auto
  then obtain j where j: "b_clk w \<le> j" "clock_ns H j + RX_TIMEOUT_NS \<noteq> 0" using i(1) by (metis add_right_imp_eq order_refl)
  from wait_rx_unarmed [OF j(2) assms(2,1) j(1)] show ?thesis by (simp add: wait_rx_def)
qed

section \<open>Latency runs end\<close>

lemma nic_fits_user_env [simp]: "nic_fits (user_env buf K) = nic_fits K"
  by (simp add: nic_fits_def user_env_def)

lemma tx_kernel_run:
  assumes "rig_ok H w"
  shows "\<exists>r w'. tx_kernel H p buf len w = Some (r, w') \<and> rig_ok H w' \<and> b_clk w' = b_clk w
    \<and> if_mac_addr (b_if w' PF0) = if_mac_addr (b_if w PF0)"
proof -
  let ?K = "user_env buf (hs_env H p)" and ?u = "b_if w p" and ?s = "b_sc w p"
  have K: "nic_fits ?K" using rig_nic [OF assms] by simp
  obtain e out s where d: "dev_ioctl ?K (DriverCmd (SFC7120_TX (ub_cap buf) (of_nat len))) ?u ?s = Some (e, out, s)" "port_ok (hs_sys H p) ?u s"
    using port_ioctl [OF K rig_port [OF assms, of p], of "SFC7120_TX (ub_cap buf) (of_nat len)" "ub_cap buf" "of_nat len"] by blast
  let ?f = "\<lambda>u s. do { (r, s) \<leftarrow> sfc7120_tx ?K (ub_cap buf) (of_nat len) u s; Some (r, u, s) }"
  have "?f ?u ?s = Some (if e \<noteq> 0 then -1 else 0, ?u, s)" by (simp add: sfc7120_tx_def d(1))
  from on_port_run [OF assms, of ?f, OF this d(2)] obtain w' where w': "tx_kernel H p buf len w = Some (if e \<noteq> 0 then -1 else 0, w')"
      "rig_ok H w'" "b_clk w' = b_clk w" "\<And>q. q \<noteq> p \<Longrightarrow> b_if w' q = b_if w q" "b_if w' p = ?u"
    unfolding tx_kernel_def by blast
  have "b_if w' PF0 = b_if w PF0" using w'(4) [of PF0] w'(5) by (cases "p = PF0") auto
  then show ?thesis using w' by auto
qed

lemma rx_kernel_run:
  assumes "rig_ok H w" "length (ub_bytes buf) = 2048"
  shows "recv_post H buf w (rx_kernel H p buf w) \<and> (\<forall>r b n w'. rx_kernel H p buf w = Some (r, b, n, w') \<longrightarrow> b_clk w' = b_clk w)"
proof -
  let ?K = "hs_env H p" and ?u = "b_if w p" and ?s = "b_sc w p"
  obtain e out s where d: "dev_ioctl ?K (DriverCmd SFC7120_RX) ?u ?s = Some (e, out, s)" "port_ok (hs_sys H p) ?u s"
      "\<And>n. out = Inr (RxLength n) \<Longrightarrow> unat n \<le> 2034"
    using port_ioctl [OF rig_nic [OF assms(1), of p] rig_port [OF assms(1), of p], of SFC7120_RX] by blast
  define x where "x = (if e \<noteq> 0 then (-1, None) else (0 :: int, case out of Inr (RxLength n) \<Rightarrow> Some n | _ \<Rightarrow> Some 0))"
  have len: "(case snd x of None \<Rightarrow> 0 | Some l \<Rightarrow> unat l) \<le> 2034" using d(3) by (auto simp: x_def split: sum.split sfc_reply.split)
  let ?f = "\<lambda>u s. do { (r, len, s) \<leftarrow> sfc7120_rx ?K u s; Some ((r, len), u, s) }"
  have "?f ?u ?s = Some (x, ?u, s)" by (simp add: sfc7120_rx_def d(1) x_def)
  from on_port_run [OF assms(1), of ?f, OF this d(2)] obtain w' where w': "on_port p ?f w = Some (x, w')"
      "rig_ok H w'" "b_clk w' = b_clk w" "\<And>q. q \<noteq> p \<Longrightarrow> b_if w' q = b_if w q" "b_if w' p = ?u"
    by blast
  have m: "b_if w' PF0 = b_if w PF0" using w'(4) [of PF0] w'(5) by (cases "p = PF0") auto
  obtain a l where x: "x = (a, l)" by (cases x)
  define n where "n = (case l of None \<Rightarrow> 0 | Some l \<Rightarrow> unat l)"
  define fr where "fr = map (\<lambda>i. rx_buffer (b_sc w' p) (rx_head ?s * SFC7120_RX_BUFFER_SIZE + 14 + i)) [0..<n]"
  have fr: "length fr = n" "n \<le> 2034" using len by (simp_all add: fr_def n_def x)
  have run: "rx_kernel H p buf w =
      (if a \<noteq> 0 then Some (a, buf, 0, w') else Some (0, buf\<lparr>ub_bytes := fr @ drop n (ub_bytes buf)\<rparr>, n, w'))"
    using fr assms(2) buf_fill [of fr buf]
    unfolding rx_kernel_def w'(1) x Let_def bind.bind_lunit prod.case n_def [symmetric] fr_def [symmetric] by simp
  have "a = 0 \<or> a = -1" using x by (auto simp: x_def split: if_splits)
  then show ?thesis using run w' m fr assms(2) by (auto simp: recv_post_def)
qed

lemma port_sync:
  assumes "nic_fits K" "port_ok S u s"
  shows "port_ok S u (data_evq_sync K s)"
proof -
  have b: "if_evq_read_ptr u < 512" "if_tx_head u < 512" "if_rx_head u < 512" "rx_fits s"
    using assms(2) by (simp_all add: port_ok_def client_ok_def)
  have "dp_only s (data_evq_sync K s)" "dp_ok (data_evq_sync K s)"
    unfolding data_evq_sync_eq by (rule dp_only_direct, rule dp_ok_direct [OF port_dp [OF assms(2)]])
  from port_ok_step [OF assms(2) this rx_fits_sync(1) [OF assms(1) b(4)] b(1-3), of "if_used_poll u"] show ?thesis by simp
qed

lemma diag_scan_run:
  "nic_fits K \<Longrightarrow> port_ok S u s \<Longrightarrow> \<exists>n f s'. diag_scan K is a b s = Some (n, f, s') \<and> port_ok S u s'"
proof (induction "is" arbitrary: a b s)
  case (Cons i "is")
  let ?t = "data_evq_sync K s"
  have t: "port_ok S u ?t" by (rule port_sync [OF Cons.prems])
  then have "dma_mapped DMA_DATA_EVQ ?t" using port_dp by (simp add: dp_ok_def)
  then show ?case using Cons.IH [OF Cons.prems(1) t] by (simp add: Let_def)
qed simp

lemma diag_evq_run:
  assumes "rig_ok H w"
  shows "\<exists>x w'. diag_evq H p w = Some (x, w') \<and> rig_ok H w' \<and> if_mac_addr (b_if w' PF0) = if_mac_addr (b_if w PF0)"
proof -
  obtain n f s where d: "diag_scan (hs_env H p) [0..<SFC7120_NUM_EVQ_ENTRY] 0 None (b_sc w p) = Some (n, f, s)" "port_ok (hs_sys H p) (b_if w p) s"
    using diag_scan_run [OF rig_nic [OF assms] rig_port [OF assms]] by blast
  let ?f = "\<lambda>u s. do { (n, f, s) \<leftarrow> diag_scan (hs_env H p) [0..<SFC7120_NUM_EVQ_ENTRY] 0 None s; Some ((n, f), u, s) }"
  have "?f (b_if w p) (b_sc w p) = Some ((n, f), b_if w p, s)" by (simp only: d(1)) simp
  from on_port_run [OF assms, of ?f, OF this d(2)] obtain w' where w': "diag_evq H p w = Some ((n, f), w')" "rig_ok H w'"
      "\<And>q. q \<noteq> p \<Longrightarrow> b_if w' q = b_if w q" "b_if w' p = b_if w p"
    unfolding diag_evq_def by blast
  have "b_if w' PF0 = b_if w PF0" using w'(3) [of PF0] w'(4) by (cases "p = PF0") auto
  then show ?thesis using w' by auto
qed

lemma diag_both_run:
  assumes "rig_ok H w"
  shows "\<exists>w'. diag_both H P p q w = Some w' \<and> rig_ok H w'"
proof -
  obtain x w1 where 1: "diag_evq H p w = Some (x, w1)" "rig_ok H w1" using diag_evq_run [OF assms] by blast
  obtain y w2 where 2: "diag_evq H q w1 = Some (y, w2)" "rig_ok H w2" using diag_evq_run [OF 1(2)] by blast
  show ?thesis using assms 1 2 by (simp add: diag_both_def)
qed

text \<open>What the latency loop needs of a path (\<open>bench_path_t\<close>): sending and receiving return and keep the rig in
  order.\<close>

locale latency_path =
  fixes H :: host and P :: bench_path
  assumes tx_run: "\<And>w buf len p. rig_ok H w \<Longrightarrow> \<exists>r w'. bp_tx P H p buf len w = Some (r, w') \<and> rig_ok H w'
      \<and> if_mac_addr (b_if w' PF0) = if_mac_addr (b_if w PF0)"
    and rx_run: "\<And>w buf p. rig_ok H w \<Longrightarrow> length (ub_bytes buf) = 2048 \<Longrightarrow> recv_post H buf w (bp_rx P H p buf w)"
begin

lemma rx_obtain:
  assumes "rig_ok H w" "length (ub_bytes buf) = 2048"
  obtains r buf' len w' where "bp_rx P H p buf w = Some (r, buf', len, w')" "rig_ok H w'" "length (ub_bytes buf') = 2048" "len \<le> 2048"
  using rx_run [OF assms, of p] unfolding recv_post_def by blast

lemma bounce_run:
  assumes "rig_ok H w" "length (ub_bytes frame) = 2048" "length (ub_bytes rxbuf) = 2048" "sz \<le> 2048"
  shows "\<exists>t frame' rxbuf' w'. bounce H P dst sz seq frame rxbuf w = Some (t, frame', rxbuf', w') \<and> rig_ok H w'
    \<and> length (ub_bytes frame') = 2048 \<and> length (ub_bytes rxbuf') = 2048"
proof -
  obtain f where f: "build_frame dst (if_mac_addr (b_if w PF0)) sz seq frame = Some f" "length (ub_bytes f) = 2048"
    using build_frame_total [of sz frame dst "if_mac_addr (b_if w PF0)" seq] assms by auto
  let ?w = "w\<lparr>b_clk := Suc (b_clk w)\<rparr>" and ?t = "clock_ns H (b_clk w)"
  have "rig_ok H ?w" using assms(1) by simp
  then obtain r1 w1 where 1: "bp_tx P H PF0 f sz ?w = Some (r1, w1)" "rig_ok H w1" using tx_run by blast
  obtain r2 b2 n2 w2 where 2: "bp_rx P H PF1 rxbuf w1 = Some (r2, b2, n2, w2)" "rig_ok H w2" "length (ub_bytes b2) = 2048" "n2 \<le> 2048"
    by (rule rx_obtain [OF 1(2) assms(3)])
  obtain d2 where d2: "diag_both H P PF1 PF0 w2 = Some d2" "rig_ok H d2" using diag_both_run [OF 2(2)] by blast
  obtain b3 where 3: "swap_mac b2 = Some b3" "length (ub_bytes b3) = 2048" using swap_mac_total [of b2] 2(3) by auto
  obtain r4 w4 where 4: "bp_tx P H PF1 b3 n2 w2 = Some (r4, w4)" "rig_ok H w4" using tx_run [OF 2(2)] by blast
  obtain r5 b5 n5 w5 where 5: "bp_rx P H PF0 b3 w4 = Some (r5, b5, n5, w5)" "rig_ok H w5" "length (ub_bytes b5) = 2048"
    by (rule rx_obtain [OF 4(2) 3(2)])
  obtain d5 where d5: "diag_both H P PF0 PF1 w5 = Some d5" "rig_ok H d5" using diag_both_run [OF 5(2)] by blast
  have run: "bounce H P dst sz seq frame rxbuf w =
      (if r1 \<noteq> 0 then Some (None, f, rxbuf, w1) else if r2 \<noteq> 0 then Some (None, f, b2, d2)
       else if r4 \<noteq> 0 then Some (None, f, b3, w4) else if r5 \<noteq> 0 then Some (None, f, b5, d5)
       else Some (Some (clock_ns H (b_clk w5) - ?t), f, b5, w5\<lparr>b_clk := b_clk w5 + 1\<rparr>))"
    unfolding bounce_def f(1) bind.bind_lunit by (simp add: now_ns_def 1(1) 2(1) d2(1) 3(1) 4(1) 5(1) d5(1))
  show ?thesis unfolding run using f(2) 1(2) 2(2,3) d2(2) 3(2) 4(2) 5(2,3) d5(2) assms(3) by simp
qed

lemma lat_loop_run:
  "rig_ok H w \<Longrightarrow> length (ub_bytes frame) = 2048 \<Longrightarrow> length (ub_bytes rxbuf) = 2048 \<Longrightarrow> sz \<le> 2048 \<Longrightarrow>
   \<exists>xs frame' rxbuf' w'. lat_loop H P dst sz n i seq samples frame rxbuf w = Some (xs, frame', rxbuf', w') \<and> rig_ok H w'
     \<and> length (ub_bytes frame') = 2048 \<and> length (ub_bytes rxbuf') = 2048 \<and> (\<forall>ys. xs = Some ys \<longrightarrow> length ys = length samples)"
proof (induction n arbitrary: i seq samples frame rxbuf w)
  case (Suc n)
  obtain t f b w1 where b: "bounce H P dst sz seq frame rxbuf w = Some (t, f, b, w1)" "rig_ok H w1"
      "length (ub_bytes f) = 2048" "length (ub_bytes b) = 2048"
    using bounce_run [OF Suc.prems] by blast
  show ?case
  proof (cases t)
    case None
    then show ?thesis using b by simp
  next
    case (Some x)
    let ?ys = "if i \<ge> LAT_WARMUP then samples[i - LAT_WARMUP := x] else samples"
    have "length ?ys = length samples" by simp
    then show ?thesis using b Some Suc.IH [OF b(2,3,4) Suc.prems(4), of "i + 1" "seq + 1" ?ys] by (simp del: lat_loop.simps add: lat_loop.simps(2))
  qed
qed simp

lemma lat_sizes_run:
  "rig_ok H w \<Longrightarrow> length (ub_bytes frame) = 2048 \<Longrightarrow> length (ub_bytes rxbuf) = 2048 \<Longrightarrow> list_all (\<lambda>sz. sz \<le> 2048) sizes \<Longrightarrow>
   \<exists>r rows w'. lat_sizes H P dst sizes samples frame rxbuf w = Some (r, rows, w') \<and> rig_ok H w' \<and> (r = 0 \<or> r = -1)
     \<and> (r = 0 \<longrightarrow> map lr_size rows = sizes)"
proof (induction sizes arbitrary: samples frame rxbuf w)
  case (Cons sz sizes)
  have sz: "sz \<le> 2048" and sizes: "list_all (\<lambda>sz. sz \<le> 2048) sizes" using Cons.prems(4) by simp_all
  obtain xs f b w1 where l: "lat_loop H P dst sz (LAT_WARMUP + LAT_SAMPLES) 0 0 samples frame rxbuf w = Some (xs, f, b, w1)" "rig_ok H w1"
      "length (ub_bytes f) = 2048" "length (ub_bytes b) = 2048"
    using lat_loop_run [OF Cons.prems(1-3) sz] by blast
  show ?case
  proof (cases xs)
    case None
    then show ?thesis using l by (simp del: lat_loop.simps)
  next
    case (Some ys)
    obtain r rows w' where "lat_sizes H P dst sizes (qsort cmp_u64 ys) f b w1 = Some (r, rows, w')" "rig_ok H w'" "r = 0 \<or> r = -1"
        "r = 0 \<longrightarrow> map lr_size rows = sizes"
      using Cons.IH [OF l(2,3,4) sizes] by blast
    then show ?thesis using l Some by (simp del: lat_loop.simps add: lat_stats_def Let_def)
  qed
qed simp

lemma run_latency_run:
  assumes "rig_ok H w"
  shows "\<exists>r rows w'. run_latency H P w = Some (r, rows, w') \<and> rig_ok H w' \<and> (r = 0 \<or> r = -1) \<and> (r = 0 \<longrightarrow> map lr_size rows = g_sizes)"
proof (cases "hs_malloc_ok H")
  case True
  have "length (ub_bytes (hs_frame H)) = 2048" "length (ub_bytes (hs_rxbuf H)) = 2048" "list_all (\<lambda>sz. sz \<le> 2048) g_sizes"
    using assms by (simp_all add: rig_ok_def host_ok_def g_sizes_def)
  from lat_sizes_run [OF assms this] True show ?thesis by (simp add: run_latency_def)
next
  case False
  then show ?thesis using assms by (simp add: run_latency_def)
qed

end

interpretation direct: latency_path H g_path_direct for H
proof (unfold_locales, goal_cases)
  case (1 w buf len p)
  then show ?case using tx_direct_run [of H w p buf len] by (auto simp: g_path_direct_def)
next
  case (2 w buf p)
  then show ?case using wait_rx_total by (simp add: g_path_direct_def)
qed

interpretation kernel: latency_path H g_path_kernel for H
proof (unfold_locales, goal_cases)
  case (1 w buf len p)
  then show ?case using tx_kernel_run [of H w p buf len] by (auto simp: g_path_kernel_def)
next
  case (2 w buf p)
  then show ?case using rx_kernel_run by (simp add: g_path_kernel_def)
qed

section \<open>Throughput runs end, and every frame is accounted for\<close>

text \<open>A turn that returns, keeps an invariant when it succeeds and leaves the clock alone.\<close>

definition turn_post ::
  "(tput \<Rightarrow> bench \<Rightarrow> bool) \<Rightarrow> (bench \<Rightarrow> bool) \<Rightarrow> nat \<Rightarrow> (bool \<times> tput \<times> bench) option \<Rightarrow> bool" where
  "turn_post I R n X \<longleftrightarrow> (\<exists>ok c w. X = Some (ok, c, w) \<and> R w \<and> (ok \<longrightarrow> I c w) \<and> b_clk w = n)"

definition loop_post :: "(tput \<Rightarrow> bench \<Rightarrow> bool) \<Rightarrow> (bench \<Rightarrow> bool) \<Rightarrow> (bool \<times> tput \<times> bench) option \<Rightarrow> bool" where
  "loop_post I R X \<longleftrightarrow> (\<exists>ok c w. X = Some (ok, c, w) \<and> R w \<and> (ok \<longrightarrow> I c w))"

lemma timed_loop_run:
  assumes turn: "\<And>c w. I c w \<Longrightarrow> turn_post I R (b_clk w) (turn c w)"
    and clk: "\<And>c w n. I c w \<Longrightarrow> I c (w\<lparr>b_clk := n\<rparr>)" "\<And>w n. R w \<Longrightarrow> R (w\<lparr>b_clk := n\<rparr>)"
    and j: "TPUT_NS \<le> clock_ns H j - t0"
  shows "I c w \<Longrightarrow> b_clk w \<le> j \<Longrightarrow> loop_post I R (timed_loop H turn t0 iter c w)"
proof (induction "turns_left 256 j (b_clk w) (iter + 255)" arbitrary: iter c w rule: less_induct)
  case less
  note ih = less.hyps and ok = less.prems
  have sh: "(iter + 255 + 1) mod 256 = iter mod 256" by (simp add: add.assoc)
  obtain b c1 w1 where t: "turn c w = Some (b, c1, w1)" "R w1" "b \<Longrightarrow> I c1 w1" "b_clk w1 = b_clk w"
    using turn [OF ok(1)] unfolding turn_post_def by blast
  let ?w2 = "w1\<lparr>b_clk := b_clk w + 1\<rparr>"
  have run: "timed_loop H turn t0 iter c w =
      (if \<not> b then Some (False, c1, w1)
       else if iter mod 256 = 0
       then if TPUT_NS \<le> clock_ns H (b_clk w) - t0 then Some (True, c1, ?w2) else timed_loop H turn t0 (iter + 1) c1 ?w2
       else timed_loop H turn t0 (iter + 1) c1 w1)"
    unfolding timed_loop.simps [of H turn t0 iter c w] by (simp add: t(1,4) now_ns_def)
  show ?case
  proof (cases "b \<and> \<not> (iter mod 256 = 0 \<and> TPUT_NS \<le> clock_ns H (b_clk w) - t0)")
    case False
    then show ?thesis using run t clk(1) [of c1 w1 "b_clk w + 1"] clk(2) [OF t(2), of "b_clk w + 1"] by (auto simp: loop_post_def)
  next
    case go: True
    show ?thesis
    proof (cases "iter mod 256 = 0")
      case True
      with go have "b_clk w \<noteq> j" using j by auto
      then have lt: "b_clk w < j" using ok(2) by simp
      have "turns_left 256 j (b_clk w + 1) (iter + 1 + 255) < turns_left 256 j (b_clk w) (iter + 255)"
        using turns_left_less(2) [OF ok(2), of 256 "iter + 255"] lt sh True by (simp add: add.commute add.left_commute)
      then have "loop_post I R (timed_loop H turn t0 (iter + 1) c1 ?w2)"
        using ih [of ?w2 "iter + 1" c1] clk(1) [of c1 w1 "b_clk w + 1"] t(3) go lt by simp
      then show ?thesis using run go True by simp
    next
      case False
      have "turns_left 256 j (b_clk w1) (iter + 1 + 255) < turns_left 256 j (b_clk w) (iter + 255)"
        using turns_left_less(1) [OF ok(2), of 256 "iter + 255"] sh False t(4) by (simp add: add.commute add.left_commute)
      then have "loop_post I R (timed_loop H turn t0 (iter + 1) c1 w1)"
        using ih [of w1 "iter + 1" c1] t(3,4) go ok(2) by simp
      then show ?thesis using run go False by simp
    qed
  qed
qed

text \<open>The books: PF0 has posted \<open>W\<close> frames more than it has received, one for each round trip counted and \<open>W\<close>
  for the window; PF1 has sent back every frame it received.\<close>

definition books :: "nat \<times> nat \<Rightarrow> nat \<times> nat \<Rightarrow> nat \<Rightarrow> nat \<Rightarrow> bench \<Rightarrow> bool" where
  "books b0 b1 W n w \<longleftrightarrow>
     rang PF0 w = (fst b0 + W + n, snd b0 + n) \<and> (\<exists>k. rang PF1 w = (fst b1 + k, snd b1 + k))"

definition tput_ok :: "host \<Rightarrow> nat \<times> nat \<Rightarrow> nat \<times> nat \<Rightarrow> nat \<Rightarrow> tput \<Rightarrow> bench \<Rightarrow> bool" where
  "tput_ok H b0 b1 W c w \<longleftrightarrow>
     rig_ok H w \<and> length (ub_bytes (tp_frame c)) = 2048 \<and> length (ub_bytes (tp_rxbuf c)) = 2048 \<and> books b0 b1 W (tp_round_trips c) w"

lemma prime_run:
  "rig_ok H w \<Longrightarrow> length (ub_bytes frame) = 2048 \<Longrightarrow> 0 < sz \<Longrightarrow> sz \<le> 2048 \<Longrightarrow> \<exists>seq' frame' w'.
     prime H dst sz k seq frame w = Some (True, seq', frame', w') \<and> rig_ok H w' \<and> length (ub_bytes frame') = 2048
     \<and> b_clk w' = b_clk w \<and> rang PF0 w' = (fst (rang PF0 w) + k, snd (rang PF0 w)) \<and> rang PF1 w' = rang PF1 w"
proof (induction k arbitrary: seq frame w)
  case (Suc k)
  obtain f where f: "build_frame dst (if_mac_addr (b_if w PF0)) sz seq frame = Some f" "length (ub_bytes f) = 2048"
    using build_frame_total [of sz frame dst "if_mac_addr (b_if w PF0)" seq] Suc.prems by auto
  obtain w1 where t: "tx_direct H PF0 f sz w = Some (0, w1)" "rig_ok H w1" "b_clk w1 = b_clk w"
      "rang PF0 w1 = (fst (rang PF0 w) + 1, snd (rang PF0 w))" "rang PF1 w1 = rang PF1 w"
    using tx_direct_run [OF Suc.prems(1), of PF0 f sz] Suc.prems(3,4) by auto
  then show ?case using f Suc.IH [OF t(2) f(2) Suc.prems(3,4), of "seq + 1"] by (auto simp: add.assoc)
qed simp

lemma reflect_run:
  "rig_ok H w \<Longrightarrow> length (ub_bytes b) = 2048 \<Longrightarrow> list_all (\<lambda>e. ev_type e = SFC7120_EV_RX \<longrightarrow> unat (ev_rx_bytes e) \<le> 2048) evs \<Longrightarrow>
   \<exists>ok b' w'. reflect H evs b w = Some (ok, b', w') \<and> rig_ok H w' \<and> length (ub_bytes b') = 2048 \<and> b_clk w' = b_clk w
     \<and> rang PF0 w' = rang PF0 w \<and> (ok \<longrightarrow> (\<exists>k. rang PF1 w' = (fst (rang PF1 w) + k, snd (rang PF1 w) + k)))"
proof (induction evs arbitrary: b w)
  case Nil
  have "rang PF1 w = (fst (rang PF1 w) + 0, snd (rang PF1 w) + 0)" by simp
  then show ?case using Nil unfolding reflect.simps by blast
next
  case (Cons e es)
  have es: "list_all (\<lambda>e. ev_type e = SFC7120_EV_RX \<longrightarrow> unat (ev_rx_bytes e) \<le> 2048) es" using Cons.prems(3) by simp
  show ?case
  proof (cases "ev_type e = SFC7120_EV_RX")
    case False
    then show ?thesis using Cons.IH [OF Cons.prems(1,2) es] by simp
  next
    case True
    then have n: "unat (ev_rx_bytes e) \<le> 2048" using Cons.prems(3) by simp
    obtain b1 len w1 where 1: "bench_recv H PF1 (ev_rx_bytes e) b w = Some (0, b1, len, w1)" "rig_ok H w1" "b_clk w1 = b_clk w"
        "length (ub_bytes b1) = 2048" "rang PF1 w1 = (fst (rang PF1 w), snd (rang PF1 w) + 1)" "rang PF0 w1 = rang PF0 w"
      using bench_recv_run [OF Cons.prems(1) n Cons.prems(2), of PF1] by (metis pf.distinct(1))
    obtain b2 where 2: "swap_mac b1 = Some b2" "length (ub_bytes b2) = 2048" using swap_mac_total [of b1] 1(4) by auto
    obtain r w3 where 3: "tx_direct H PF1 b2 len w1 = Some (r, w3)" "rig_ok H w3" "b_clk w3 = b_clk w1"
        "rang PF1 w3 = (fst (rang PF1 w1) + of_bool (r = 0), snd (rang PF1 w1))" "rang PF0 w3 = rang PF0 w1"
      using tx_direct_run [OF 1(2), of PF1 b2 len] by auto
    have run: "reflect H (e # es) b w = (if r \<noteq> 0 then Some (False, b2, w3) else reflect H es b2 w3)"
      by (simp add: True 1(1) 2(1) 3(1))
    show ?thesis
    proof (cases "r = 0")
      case False
      then have "reflect H (e # es) b w = Some (False, b2, w3)" using run by simp
      then show ?thesis using 1(3,6) 2(2) 3(2,3,5) by auto
    next
      case ok: True
      obtain okf b4 w4 where 4: "reflect H es b2 w3 = Some (okf, b4, w4)" "rig_ok H w4" "length (ub_bytes b4) = 2048" "b_clk w4 = b_clk w3"
          "rang PF0 w4 = rang PF0 w3" "okf \<Longrightarrow> \<exists>k. rang PF1 w4 = (fst (rang PF1 w3) + k, snd (rang PF1 w3) + k)"
        using Cons.IH [OF 3(2) 2(2) es] by blast
      have "\<exists>k. rang PF1 w4 = (fst (rang PF1 w) + k, snd (rang PF1 w) + k)" if o: okf
      proof -
        obtain k where "rang PF1 w4 = (fst (rang PF1 w3) + k, snd (rang PF1 w3) + k)" using 4(6) [OF o] by blast
        then have "rang PF1 w4 = (fst (rang PF1 w) + (k + 1), snd (rang PF1 w) + (k + 1))" using 3(4) 1(5) ok by simp
        then show ?thesis by blast
      qed
      moreover have "reflect H (e # es) b w = Some (okf, b4, w4)" using run ok 4(1) by simp
      moreover have "b_clk w4 = b_clk w" "rang PF0 w4 = rang PF0 w" using 1(3,6) 3(3,5) 4(4,5) by simp_all
      ultimately show ?thesis using 4(2,3) by blast
    qed
  qed
qed

lemma relaunch_run:
  "tput_ok H b0 b1 W c w \<Longrightarrow> 0 < sz \<Longrightarrow> sz \<le> 2048 \<Longrightarrow> list_all (\<lambda>e. ev_type e = SFC7120_EV_RX \<longrightarrow> unat (ev_rx_bytes e) \<le> 2048) evs \<Longrightarrow>
   turn_post (tput_ok H b0 b1 W) (rig_ok H) (b_clk w) (relaunch H dst sz evs c w)"
proof (induction evs arbitrary: c w)
  case Nil
  then show ?case unfolding turn_post_def by (auto simp: tput_ok_def)
next
  case (Cons e es)
  have es: "list_all (\<lambda>e. ev_type e = SFC7120_EV_RX \<longrightarrow> unat (ev_rx_bytes e) \<le> 2048) es" using Cons.prems(4) by simp
  show ?case
  proof (cases "ev_type e = SFC7120_EV_RX")
    case False
    then show ?thesis using Cons.IH [OF Cons.prems(1-3) es] by simp
  next
    case True
    then have n: "unat (ev_rx_bytes e) \<le> 2048" using Cons.prems(4) by simp
    have c: "rig_ok H w" "length (ub_bytes (tp_frame c)) = 2048" "length (ub_bytes (tp_rxbuf c)) = 2048" "books b0 b1 W (tp_round_trips c) w"
      using Cons.prems(1) by (simp_all add: tput_ok_def)
    obtain b len w1 where 1: "bench_recv H PF0 (ev_rx_bytes e) (tp_rxbuf c) w = Some (0, b, len, w1)" "rig_ok H w1" "b_clk w1 = b_clk w"
        "length (ub_bytes b) = 2048" "rang PF0 w1 = (fst (rang PF0 w), snd (rang PF0 w) + 1)" "rang PF1 w1 = rang PF1 w"
      using bench_recv_run [OF c(1) n c(3), of PF0] by auto
    obtain f where f: "build_frame dst (if_mac_addr (b_if w1 PF0)) sz (tp_seq c) (tp_frame c) = Some f" "length (ub_bytes f) = 2048"
      using build_frame_total [of sz "tp_frame c" dst "if_mac_addr (b_if w1 PF0)" "tp_seq c"] Cons.prems(3) c(2) by auto
    obtain w3 where 3: "tx_direct H PF0 f sz w1 = Some (0, w3)" "rig_ok H w3" "b_clk w3 = b_clk w1"
        "rang PF0 w3 = (fst (rang PF0 w1) + 1, snd (rang PF0 w1))" "rang PF1 w3 = rang PF1 w1"
      using tx_direct_run [OF 1(2), of PF0 f sz] Cons.prems(2,3) by auto
    let ?c = "c\<lparr>tp_rxbuf := b, tp_round_trips := tp_round_trips c + 1, tp_frame := f, tp_seq := tp_seq c + 1\<rparr>"
    have "tput_ok H b0 b1 W ?c w3" using c(4) 1(4-6) 3(2,4,5) f(2) by (simp add: tput_ok_def books_def)
    from Cons.IH [OF this Cons.prems(2,3) es] have "turn_post (tput_ok H b0 b1 W) (rig_ok H) (b_clk w) (relaunch H dst sz es ?c w3)"
      using 1(3) 3(3) by simp
    then show ?thesis using True 1(1) f(1) 3(1) by (simp add: Let_def)
  qed
qed

lemma tput_turn_run:
  assumes c: "tput_ok H b0 b1 W c w" and sz: "0 < sz" "sz \<le> 2048"
  shows "turn_post (tput_ok H b0 b1 W) (rig_ok H) (b_clk w) (tput_turn H dst sz c w)"
proof -
  have ok: "rig_ok H w" "length (ub_bytes (tp_rxbuf c)) = 2048" using c by (simp_all add: tput_ok_def)
  obtain evs w1 where 1: "bench_poll H PF1 w = Some ((int (length evs), evs), w1)" "rig_ok H w1" "b_clk w1 = b_clk w" "same_rig w w1"
      "list_all (\<lambda>e. ev_type e = SFC7120_EV_RX \<longrightarrow> unat (ev_rx_bytes e) \<le> 2048) evs"
    using bench_poll_run [OF ok(1)] by blast
  obtain b okf w2 where 2: "reflect H evs (tp_rxbuf c) w1 = Some (okf, b, w2)" "rig_ok H w2" "length (ub_bytes b) = 2048" "b_clk w2 = b_clk w1"
      "rang PF0 w2 = rang PF0 w1" "okf \<Longrightarrow> \<exists>k. rang PF1 w2 = (fst (rang PF1 w1) + k, snd (rang PF1 w1) + k)"
    using reflect_run [OF 1(2) ok(2) 1(5)] by blast
  obtain evs' w3 where 3: "bench_poll H PF0 w2 = Some ((int (length evs'), evs'), w3)" "rig_ok H w3" "b_clk w3 = b_clk w2" "same_rig w2 w3"
      "list_all (\<lambda>e. ev_type e = SFC7120_EV_RX \<longrightarrow> unat (ev_rx_bytes e) \<le> 2048) evs'"
    using bench_poll_run [OF 2(2)] by blast
  have run: "tput_turn H dst sz c w = (if \<not> okf then Some (False, c\<lparr>tp_rxbuf := b\<rparr>, w2) else relaunch H dst sz evs' (c\<lparr>tp_rxbuf := b\<rparr>) w3)"
    by (simp add: tput_turn_def 1(1) 2(1) 3(1))
  show ?thesis
  proof (cases okf)
    case False
    then show ?thesis using run 1(3) 2(2,4) by (auto simp: turn_post_def)
  next
    case True
    then obtain k where k: "rang PF1 w2 = (fst (rang PF1 w1) + k, snd (rang PF1 w1) + k)" using 2(6) by blast
    obtain k0 where k0: "rang PF1 w = (fst b1 + k0, snd b1 + k0)" using c by (auto simp: tput_ok_def books_def)
    have "rang PF1 w3 = (fst b1 + (k0 + k), snd b1 + (k0 + k))" using k k0 1(4) 3(4) by (simp add: same_rig_def)
    moreover have "rang PF0 w3 = rang PF0 w" using 1(4) 2(5) 3(4) by (simp add: same_rig_def)
    ultimately have "tput_ok H b0 b1 W (c\<lparr>tp_rxbuf := b\<rparr>) w3" using c 3(2) 2(3) unfolding tput_ok_def books_def by auto
    from relaunch_run [OF this sz 3(5), of dst] show ?thesis using run True 1(3) 2(4) 3(3) by simp
  qed
qed

definition size_post ::
  "host \<Rightarrow> bool \<Rightarrow> nat \<Rightarrow> nat \<Rightarrow> bench \<Rightarrow> (tput_row option \<times> ubuf \<times> ubuf \<times> bench) option \<Rightarrow> bool" where
  "size_post H A W sz w X \<longleftrightarrow>
     (\<exists>res f b w'. X = Some (res, f, b, w') \<and> rig_ok H w'
        \<and> (\<forall>row. res = Some row \<longrightarrow> length (ub_bytes f) = 2048 \<and> length (ub_bytes b) = 2048 \<and> tr_size row = sz
             \<and> (A \<longrightarrow> books (rang PF0 w) (rang PF1 w) W (tr_round_trips row) w')))"

lemma books_start:
  assumes "rang PF0 w = (fst b0 + W, snd b0)" "rang PF1 w = b1"
  shows "books b0 b1 W 0 w"
proof -
  have "rang PF1 w = (fst b1 + 0, snd b1 + 0)" using assms(2) by simp
  then show ?thesis unfolding books_def using assms(1) by (metis add_0_right)
qed

lemma clock_reaches:
  assumes "rig_ok H w"
  obtains j where "Suc k \<le> j" "TPUT_NS \<le> clock_ns H j - clock_ns H k"
  using assms unfolding rig_ok_def host_ok_def clock_ticks_def by (meson le_Suc_eq order_refl)

lemma tput_ok_clk: "tput_ok H b0 b1 W c w \<Longrightarrow> tput_ok H b0 b1 W c (w\<lparr>b_clk := n\<rparr>)"
  by (simp add: tput_ok_def books_def)

lemma tput_size_run:
  assumes "rig_ok H w" "length (ub_bytes frame) = 2048" "length (ub_bytes rxbuf) = 2048" "0 < sz" "sz \<le> 2048"
  shows "size_post H True TPUT_WINDOW sz w (tput_size H dst sz frame rxbuf w)"
proof -
  obtain seq f w1 where p: "prime H dst sz TPUT_WINDOW 0 frame w = Some (True, seq, f, w1)" "rig_ok H w1" "length (ub_bytes f) = 2048"
      "rang PF0 w1 = (fst (rang PF0 w) + 128, snd (rang PF0 w))" "rang PF1 w1 = rang PF1 w"
    using prime_run [OF assms(1,2,4,5)] by blast
  let ?t0 = "clock_ns H (b_clk w1)" and ?w = "w1\<lparr>b_clk := Suc (b_clk w1)\<rparr>"
  let ?c = "\<lparr>tp_seq = seq, tp_round_trips = 0, tp_frame = f, tp_rxbuf = rxbuf\<rparr>"
  let ?I = "tput_ok H (rang PF0 w) (rang PF1 w) TPUT_WINDOW"
  have "books (rang PF0 w) (rang PF1 w) 128 0 ?w" by (rule books_start) (simp_all add: p(4,5))
  then have c: "?I ?c ?w" using p(2,3) assms(3) by (simp add: tput_ok_def)
  obtain j where "Suc (b_clk w1) \<le> j" and j: "TPUT_NS \<le> clock_ns H j - ?t0" by (rule clock_reaches [OF assms(1)])
  then have k: "b_clk ?w \<le> j" by simp
  have "loop_post ?I (rig_ok H) (timed_loop H (tput_turn H dst sz) ?t0 0 ?c ?w)"
    by (rule timed_loop_run [OF tput_turn_run [OF _ assms(4,5)] tput_ok_clk _ j c k]) simp_all
  then obtain ok c' w' where l: "timed_loop H (tput_turn H dst sz) ?t0 0 ?c ?w = Some (ok, c', w')" "rig_ok H w'" "ok \<Longrightarrow> ?I c' w'"
    unfolding loop_post_def by blast
  have run: "tput_size H dst sz frame rxbuf w =
      (if \<not> ok then Some (None, tp_frame c', tp_rxbuf c', w')
       else Some (Some \<lparr>tr_size = sz, tr_round_trips = tp_round_trips c', tr_elapsed = clock_ns H (b_clk w') - ?t0\<rparr>,
         tp_frame c', tp_rxbuf c', w'\<lparr>b_clk := Suc (b_clk w')\<rparr>))"
    unfolding tput_size_def p(1) by (simp add: now_ns_def l(1) del: timed_loop.simps)
  show ?thesis
  proof (cases ok)
    case False
    then show ?thesis unfolding run using l(2) by (simp add: size_post_def)
  next
    case True
    then show ?thesis unfolding run using l(2,3) by (simp add: size_post_def tput_ok_def books_def)
  qed
qed

definition ktput_ok :: "host \<Rightarrow> tput \<Rightarrow> bench \<Rightarrow> bool" where
  "ktput_ok H c w \<longleftrightarrow> rig_ok H w \<and> length (ub_bytes (tp_frame c)) = 2048 \<and> length (ub_bytes (tp_rxbuf c)) = 2048"

lemma rx_kernel_obtain:
  assumes "rig_ok H w" "length (ub_bytes buf) = 2048"
  obtains r buf' len w' where "rx_kernel H p buf w = Some (r, buf', len, w')" "rig_ok H w'" "length (ub_bytes buf') = 2048" "b_clk w' = b_clk w"
  using rx_kernel_run [OF assms, of p] unfolding recv_post_def by blast

lemma ktput_turn_run:
  assumes c: "ktput_ok H c w" and sz: "sz \<le> 2048"
  shows "turn_post (ktput_ok H) (rig_ok H) (b_clk w) (ktput_turn H dst sz c w)"
proof -
  have ok: "rig_ok H w" "length (ub_bytes (tp_frame c)) = 2048" "length (ub_bytes (tp_rxbuf c)) = 2048" using c by (simp_all add: ktput_ok_def)
  obtain f where f: "build_frame dst (if_mac_addr (b_if w PF0)) sz (tp_seq c) (tp_frame c) = Some f" "length (ub_bytes f) = 2048"
    using build_frame_total [of sz "tp_frame c" dst "if_mac_addr (b_if w PF0)" "tp_seq c"] sz ok(2) by auto
  obtain r1 w1 where 1: "tx_kernel H PF0 f sz w = Some (r1, w1)" "rig_ok H w1" "b_clk w1 = b_clk w" using tx_kernel_run [OF ok(1)] by blast
  obtain r2 b2 n2 w2 where 2: "rx_kernel H PF1 (tp_rxbuf c) w1 = Some (r2, b2, n2, w2)" "rig_ok H w2" "length (ub_bytes b2) = 2048" "b_clk w2 = b_clk w1"
    by (rule rx_kernel_obtain [OF 1(2) ok(3)])
  obtain b3 where 3: "swap_mac b2 = Some b3" "length (ub_bytes b3) = 2048" using swap_mac_total [of b2] 2(3) by auto
  obtain r4 w4 where 4: "tx_kernel H PF1 b3 n2 w2 = Some (r4, w4)" "rig_ok H w4" "b_clk w4 = b_clk w2" using tx_kernel_run [OF 2(2)] by blast
  obtain r5 b5 n5 w5 where 5: "rx_kernel H PF0 b3 w4 = Some (r5, b5, n5, w5)" "rig_ok H w5" "length (ub_bytes b5) = 2048" "b_clk w5 = b_clk w4"
    by (rule rx_kernel_obtain [OF 4(2) 3(2)])
  let ?c = "c\<lparr>tp_frame := f, tp_seq := tp_seq c + 1\<rparr>"
  have run: "ktput_turn H dst sz c w =
      (if r1 \<noteq> 0 then Some (False, ?c, w1) else if r2 \<noteq> 0 then Some (False, ?c\<lparr>tp_rxbuf := b2\<rparr>, w2)
       else if r4 \<noteq> 0 then Some (False, ?c\<lparr>tp_rxbuf := b3\<rparr>, w4) else if r5 \<noteq> 0 then Some (False, ?c\<lparr>tp_rxbuf := b5\<rparr>, w5)
       else Some (True, ?c\<lparr>tp_rxbuf := b5, tp_round_trips := tp_round_trips c + 1\<rparr>, w5))"
    by (simp add: ktput_turn_def Let_def f(1) 1(1) 2(1) 3(1) 4(1) 5(1))
  show ?thesis unfolding run turn_post_def using f(2) 1(2,3) 2(2,4) 4(2,3) 5(2-4) by (auto simp: ktput_ok_def)
qed

lemma ktput_size_run:
  assumes "rig_ok H w" "length (ub_bytes frame) = 2048" "length (ub_bytes rxbuf) = 2048" "sz \<le> 2048"
  shows "size_post H False W sz w (ktput_size H dst sz frame rxbuf w)"
proof -
  let ?t0 = "clock_ns H (b_clk w)" and ?w = "w\<lparr>b_clk := Suc (b_clk w)\<rparr>"
  let ?c = "\<lparr>tp_seq = 0, tp_round_trips = 0, tp_frame = frame, tp_rxbuf = rxbuf\<rparr>"
  have c: "ktput_ok H ?c ?w" using assms(1-3) by (simp add: ktput_ok_def)
  obtain j where "Suc (b_clk w) \<le> j" and j: "TPUT_NS \<le> clock_ns H j - ?t0" by (rule clock_reaches [OF assms(1)])
  then have k: "b_clk ?w \<le> j" by simp
  have "loop_post (ktput_ok H) (rig_ok H) (timed_loop H (ktput_turn H dst sz) ?t0 0 ?c ?w)"
    by (rule timed_loop_run [OF ktput_turn_run [OF _ assms(4)] _ _ j c k]) (simp_all add: ktput_ok_def)
  then obtain ok c' w' where l: "timed_loop H (ktput_turn H dst sz) ?t0 0 ?c ?w = Some (ok, c', w')" "rig_ok H w'" "ok \<Longrightarrow> ktput_ok H c' w'"
    unfolding loop_post_def by blast
  have run: "ktput_size H dst sz frame rxbuf w =
      (if \<not> ok then Some (None, tp_frame c', tp_rxbuf c', w')
       else Some (Some \<lparr>tr_size = sz, tr_round_trips = tp_round_trips c', tr_elapsed = clock_ns H (b_clk w') - ?t0\<rparr>,
         tp_frame c', tp_rxbuf c', w'\<lparr>b_clk := Suc (b_clk w')\<rparr>))"
    unfolding ktput_size_def by (simp add: now_ns_def l(1) del: timed_loop.simps)
  show ?thesis
  proof (cases ok)
    case False
    then show ?thesis unfolding run using l(2) by (simp add: size_post_def)
  next
    case True
    then show ?thesis unfolding run using l(2,3) by (simp add: size_post_def ktput_ok_def)
  qed
qed

lemma books_trans:
  assumes "books b0 b1 W n w" "books (rang PF0 w) (rang PF1 w) V m w'"
  shows "books b0 b1 (W + V) (n + m) w'"
proof -
  obtain k l where kl: "rang PF1 w = (fst b1 + k, snd b1 + k)" "rang PF1 w' = (fst (rang PF1 w) + l, snd (rang PF1 w) + l)"
    using assms unfolding books_def by blast
  then have "rang PF1 w' = (fst b1 + (k + l), snd b1 + (k + l))" by simp
  then show ?thesis using assms unfolding books_def by auto
qed

lemma tput_sizes_run:
  assumes run: "\<And>sz frame rxbuf w. rig_ok H w \<Longrightarrow> length (ub_bytes frame) = 2048 \<Longrightarrow> length (ub_bytes rxbuf) = 2048 \<Longrightarrow>
      0 < sz \<Longrightarrow> sz \<le> 2048 \<Longrightarrow> size_post H A W sz w (run sz frame rxbuf w)"
  shows "rig_ok H w \<Longrightarrow> length (ub_bytes frame) = 2048 \<Longrightarrow> length (ub_bytes rxbuf) = 2048 \<Longrightarrow>
    list_all (\<lambda>sz. 0 < sz \<and> sz \<le> 2048) sizes \<Longrightarrow>
    \<exists>r rows w'. tput_sizes run sizes frame rxbuf w = Some (r, rows, w') \<and> rig_ok H w' \<and> (r = 0 \<or> r = -1)
      \<and> (r = 0 \<longrightarrow> map tr_size rows = sizes
          \<and> (A \<longrightarrow> books (rang PF0 w) (rang PF1 w) (length sizes * W) (sum_list (map tr_round_trips rows)) w'))"
proof (induction sizes arbitrary: frame rxbuf w)
  case Nil
  have "books (rang PF0 w) (rang PF1 w) 0 0 w" by (rule books_start) simp_all
  then show ?case using Nil by simp
next
  case (Cons sz sizes)
  have sz: "0 < sz" "sz \<le> 2048" "list_all (\<lambda>sz. 0 < sz \<and> sz \<le> 2048) sizes" using Cons.prems(4) by simp_all
  obtain res f b w1 where 1: "run sz frame rxbuf w = Some (res, f, b, w1)" "rig_ok H w1"
      "\<And>row. res = Some row \<Longrightarrow> length (ub_bytes f) = 2048 \<and> length (ub_bytes b) = 2048 \<and> tr_size row = sz
         \<and> (A \<longrightarrow> books (rang PF0 w) (rang PF1 w) W (tr_round_trips row) w1)"
    using run [OF Cons.prems(1-3) sz(1,2)] unfolding size_post_def by blast
  show ?case
  proof (cases res)
    case None
    then show ?thesis using 1 by simp
  next
    case (Some row)
    note s = 1(3) [OF Some]
    obtain r rows w2 where 2: "tput_sizes run sizes f b w1 = Some (r, rows, w2)" "rig_ok H w2" "r = 0 \<or> r = -1"
        "r = 0 \<Longrightarrow> map tr_size rows = sizes
          \<and> (A \<longrightarrow> books (rang PF0 w1) (rang PF1 w1) (length sizes * W) (sum_list (map tr_round_trips rows)) w2)"
      using Cons.IH [OF 1(2) _ _ sz(3), of f b] s by blast
    have "tput_sizes run (sz # sizes) frame rxbuf w = Some (r, row # rows, w2)" using 1(1) Some 2(1) by simp
    then show ?thesis using 2(2-4) s books_trans [of "rang PF0 w" "rang PF1 w" W "tr_round_trips row" w1] by auto
  qed
qed

lemma run_throughput_run:
  assumes "rig_ok H w"
  shows "\<exists>r rows w'. run_throughput H w = Some (r, rows, w') \<and> rig_ok H w' \<and> (r = 0 \<or> r = -1)
    \<and> (r = 0 \<longrightarrow> map tr_size rows = g_sizes
        \<and> books (rang PF0 w) (rang PF1 w) (3 * TPUT_WINDOW) (sum_list (map tr_round_trips rows)) w')"
proof -
  have b: "length (ub_bytes (hs_frame H)) = 2048" "length (ub_bytes (hs_rxbuf H)) = 2048" "list_all (\<lambda>sz. 0 < sz \<and> sz \<le> 2048) g_sizes"
    and l: "length g_sizes = 3"
    using assms by (simp_all add: rig_ok_def host_ok_def g_sizes_def)
  from tput_sizes_run [OF tput_size_run assms b] show ?thesis unfolding run_throughput_def l simp_thms .
qed

lemma run_throughput_kernel_run:
  assumes "rig_ok H w"
  shows "\<exists>r rows w'. run_throughput_kernel H w = Some (r, rows, w') \<and> rig_ok H w' \<and> (r = 0 \<or> r = -1) \<and> (r = 0 \<longrightarrow> map tr_size rows = g_sizes)"
proof -
  have b: "length (ub_bytes (hs_frame H)) = 2048" "length (ub_bytes (hs_rxbuf H)) = 2048" "list_all (\<lambda>sz. 0 < sz \<and> sz \<le> 2048) g_sizes"
    using assms by (simp_all add: rig_ok_def host_ok_def g_sizes_def)
  from tput_sizes_run [OF ktput_size_run assms b] show ?thesis unfolding run_throughput_kernel_def simp_thms .
qed

section \<open>Sessions end, and leave nothing behind\<close>

definition at_rest :: "softc \<Rightarrow> bool" where
  "at_rest s \<longleftrightarrow> in_service s \<and> rx_fits s \<and> is_null (sealed_cap (capio_sc s))"

definition rig_rest :: "bench \<Rightarrow> bool" where
  "rig_rest w \<longleftrightarrow> (\<forall>p. at_rest (b_sc w p))"

definition rig_sys :: "host \<Rightarrow> bool" where
  "rig_sys H \<longleftrightarrow> (\<forall>p. sys_ok (hs_sys H p) \<and> sys_slices_ok (hs_sys H p))"

lemma rx_fits_side: "driver_side s' = driver_side s \<Longrightarrow> rx_fits s' = rx_fits s"
  by (cases s, cases s') (simp add: rx_fits_def)

lemma rx_fits_put [simp]: "rx_fits (put_indices i s) = rx_fits s"
  by (simp add: put_indices_def rx_fits_def)

lemma client_up_ok:
  assumes "client_up S u s" "sys_slices_ok S" "in_service s" "rx_fits s"
  shows "port_ok S u s"
proof -
  have "data_evq_read_ptr s < 512" "tx_head s < 512" "rx_head s < 512"
    using assms(3) by (simp_all add: in_service_def serving_def dp_ok_def)
  then show ?thesis
    using assms by (simp add: port_ok_def client_ok_def client_up_def client_mapped_def slices_from_def user_indices_def indices_def)
qed

lemma init_port:
  assumes "at_rest s" "sys_ok S" "sys_slices_ok S"
  shows "\<exists>r u' s'. sfc7120_init K S zero_if s = Some (r, u', s') \<and> (if r = 0 then port_ok S u' s' else at_rest s')"
proof -
  have s: "in_service s" "rx_fits s" using assms(1) by (simp_all add: at_rest_def)
  have "is_null (if_cap_token zero_if)" by (simp add: zero_if_def is_null_def null_cap_def)
  then obtain r u' s' where i: "sfc7120_init K S zero_if s = Some (r, u', s')" "in_service s'" "driver_side s' = driver_side s"
      "if r = 0 then client_up S u' s' else r = -1 \<and> (s' = s \<or> is_null (sealed_cap (capio_sc s')))"
    using sfc7120_init_total [OF s(1) assms(2), of zero_if K] by blast
  have f: "rx_fits s'" using rx_fits_side [OF i(3)] s(2) by simp
  show ?thesis
  proof (cases "r = 0")
    case True
    then show ?thesis using i client_up_ok [OF _ assms(3) i(2) f] by auto
  next
    case False
    then show ?thesis using i assms(1) f by (auto simp: at_rest_def)
  qed
qed

lemma destroy_port:
  assumes "port_ok S u s" "sys_ok S"
  shows "\<exists>u' s'. sfc7120_destroy K S u s = Some (u', s') \<and> at_rest s'"
proof -
  have a: "in_service s" "is_null (if_cap_token u) \<or> if_cap_token u = sys_malloc S" "if_evq_read_ptr u < 512" "if_tx_head u < 512"
      "if_rx_head u < 512" "if_fd u \<ge> 0" "rx_fits s"
    using assms(1) by (simp_all add: port_ok_def client_ok_def)
  obtain u' s' where d: "sfc7120_destroy K S u s = Some (u', s')" "in_service s'"
      "driver_side s' = driver_side (put_indices (if syncs u s then user_indices u else indices s) s)" "is_null (sealed_cap (capio_sc s'))"
    using destroy_total [OF a(1) assms(2) a(2-5), of K] a(6) by blast
  then show ?thesis using rx_fits_side [OF d(3)] a(7) by (simp add: at_rest_def)
qed

lemma bench_init_run:
  assumes "rig_sys H" "at_rest (b_sc w p)" "b_if w p = zero_if"
  shows "\<exists>r w'. bench_init H p w = Some (r, w') \<and> (if r = 0 then port_ok (hs_sys H p) (b_if w' p) (b_sc w' p) else at_rest (b_sc w' p))
    \<and> (\<forall>q. q \<noteq> p \<longrightarrow> b_if w' q = b_if w q \<and> b_sc w' q = b_sc w q)"
proof -
  have S: "sys_ok (hs_sys H p)" "sys_slices_ok (hs_sys H p)" using assms(1) by (simp_all add: rig_sys_def)
  obtain r u s where "sfc7120_init (hs_env H p) (hs_sys H p) zero_if (b_sc w p) = Some (r, u, s)"
      "if r = 0 then port_ok (hs_sys H p) u s else at_rest s"
    using init_port [OF assms(2) S] by blast
  then show ?thesis using assms(3) by (simp add: bench_init_def on_port_def)
qed

lemma bench_destroy_run:
  assumes "rig_sys H" "port_ok (hs_sys H p) (b_if w p) (b_sc w p)"
  shows "\<exists>w'. bench_destroy H p w = Some w' \<and> at_rest (b_sc w' p) \<and> (\<forall>q. q \<noteq> p \<longrightarrow> b_if w' q = b_if w q \<and> b_sc w' q = b_sc w q)"
proof -
  have S: "sys_ok (hs_sys H p)" using assms(1) by (simp add: rig_sys_def)
  obtain u s where "sfc7120_destroy (hs_env H p) (hs_sys H p) (b_if w p) (b_sc w p) = Some (u, s)" "at_rest s"
    using destroy_port [OF assms(2) S] by blast
  then show ?thesis by (simp add: bench_destroy_def on_port_def)
qed

lemma all_pf: "(\<forall>p. Q p) \<longleftrightarrow> Q PF0 \<and> Q PF1"
  by (metis pf.exhaust)

text \<open>A session needs a throughput run as well.\<close>

locale session_path = latency_path H P for H P +
  assumes tput_run: "\<And>w. rig_ok H w \<Longrightarrow> \<exists>r rows w'. session_tput H P w = Some (r, rows, w') \<and> rig_ok H w' \<and> (r = 0 \<or> r = -1)"
begin

lemma measure_run:
  assumes "rig_ok H w"
  shows "\<exists>rc w'. session_measure H P do_lat do_tput w = Some (rc, w') \<and> rig_ok H w' \<and> (rc = 0 \<or> rc = -1)"
proof -
  obtain rc w1 where 1: "(if do_lat then do { (r, _, w) \<leftarrow> run_latency H P w; Some (if r \<noteq> 0 then -1 else 0, w) } else Some (0, w)) = Some (rc, w1)"
      "rig_ok H w1" "rc = 0 \<or> rc = (-1 :: int)"
    using run_latency_run [OF assms] assms by (cases do_lat) auto
  obtain r rows w2 where 2: "session_tput H P w1 = Some (r, rows, w2)" "rig_ok H w2" "r = 0 \<or> r = -1" using tput_run [OF 1(2)] by blast
  show ?thesis unfolding session_measure_def 1(1) using 1(2,3) 2 by auto
qed

lemma session_run:
  assumes H: "host_ok H" "rig_sys H" and w: "rig_rest w"
  shows "\<exists>r w'. run_path_session H P do_lat do_tput w = Some (r, w') \<and> rig_rest w' \<and> (r = 0 \<or> r = -1)"
proof -
  let ?w = "w\<lparr>b_if := \<lambda>_. zero_if\<rparr>"
  have rest: "at_rest (b_sc ?w p)" for p using w by (simp add: rig_rest_def)
  obtain r0 w0 where 0: "bench_init H PF0 ?w = Some (r0, w0)"
      "if r0 = 0 then port_ok (hs_sys H PF0) (b_if w0 PF0) (b_sc w0 PF0) else at_rest (b_sc w0 PF0)"
      "b_if w0 PF1 = zero_if" "b_sc w0 PF1 = b_sc w PF1"
    using bench_init_run [OF H(2) rest, of PF0] by auto
  show ?thesis
  proof (cases "r0 = 0")
    case False
    then show ?thesis using 0 rest [of PF1] by (simp add: run_path_session_def rig_rest_def all_pf)
  next
    case up0: True
    obtain r1 w1 where 1: "bench_init H PF1 w0 = Some (r1, w1)"
        "if r1 = 0 then port_ok (hs_sys H PF1) (b_if w1 PF1) (b_sc w1 PF1) else at_rest (b_sc w1 PF1)"
        "b_if w1 PF0 = b_if w0 PF0" "b_sc w1 PF0 = b_sc w0 PF0"
      using bench_init_run [OF H(2), of w0 PF1] 0(3,4) rest [of PF1] by auto
    have p0: "port_ok (hs_sys H PF0) (b_if w1 PF0) (b_sc w1 PF0)" using 0(2) 1(3,4) up0 by simp
    show ?thesis
    proof (cases "r1 = 0")
      case False
      obtain w2 where "bench_destroy H PF0 w1 = Some w2" "at_rest (b_sc w2 PF0)" "b_sc w2 PF1 = b_sc w1 PF1"
        using bench_destroy_run [OF H(2) p0] by auto
      then show ?thesis using 0(1) 1 up0 False by (simp add: run_path_session_def rig_rest_def all_pf)
    next
      case up1: True
      have ok: "rig_ok H w1" using p0 1(2) up1 H(1) by (simp add: rig_ok_def all_pf)
      obtain rc w2 where m: "session_measure H P do_lat do_tput w1 = Some (rc, w2)" "rig_ok H w2" "rc = 0 \<or> rc = -1"
        using measure_run [OF ok] by blast
      obtain w3 where 3: "bench_destroy H PF1 w2 = Some w3" "at_rest (b_sc w3 PF1)" "b_if w3 PF0 = b_if w2 PF0" "b_sc w3 PF0 = b_sc w2 PF0"
        using bench_destroy_run [OF H(2) rig_port [OF m(2), of PF1]] by auto
      have "port_ok (hs_sys H PF0) (b_if w3 PF0) (b_sc w3 PF0)" using rig_port [OF m(2), of PF0] 3(3,4) by simp
      then obtain w4 where 4: "bench_destroy H PF0 w3 = Some w4" "at_rest (b_sc w4 PF0)" "b_sc w4 PF1 = b_sc w3 PF1"
        using bench_destroy_run [OF H(2)] by fastforce
      have "run_path_session H P do_lat do_tput w = Some (rc, w4)"
        using 0(1) 1(1) up0 up1 m(1) 3(1) 4(1) by (simp add: run_path_session_def)
      then show ?thesis using 3(2) 4(2,3) m(3) by (simp add: rig_rest_def all_pf)
    qed
  qed
qed

end

interpretation direct: session_path H g_path_direct for H
proof (unfold_locales, goal_cases)
  case (1 w)
  then show ?case using run_throughput_run [of H w] by (auto simp: session_tput_def g_path_direct_def)
qed

interpretation kernel: session_path H g_path_kernel for H
proof (unfold_locales, goal_cases)
  case (1 w)
  then show ?case using run_throughput_kernel_run [of H w] by (auto simp: session_tput_def g_path_kernel_def)
qed

end
