(* ===== verification/Bench_Results.thy ===== *)
theory Bench_Results
  imports Bench_Run
begin

text \<open>
  What the benchmark reports and what it does to frames: a batch of events of which one is served, the
  echo of PF1, the statistics of a latency run, and the properties of the program, each with a witness on a
  small rig.
\<close>

section \<open>A frame behind another is lost\<close>

lemma poll_idle:
  assumes "client_ok u s" "dp_ok s" "evq_idle K" "no_event (data_evq_ring s (if_evq_read_ptr u))"
  shows "sfc7120_user_poll K True 8 u s = Some (0, [], u\<lparr>if_used_poll := True\<rparr>, s\<lparr>io := EvqPostread DMA_DATA_EVQ # io s\<rparr>)"
proof -
  have c: "if_evq_ring u \<noteq> 0" "if_mmio_slices u = Some sfc7120_reg_slices" "if_mmio_slices_len u = 5" "if_evq_read_ptr u < 512"
      "dma_mapped DMA_DATA_EVQ s"
    using assms(1,2) by (simp_all add: client_ok_def dp_ok_def)
  have t: "data_evq_sync K s = s\<lparr>io := EvqPostread DMA_DATA_EVQ # io s\<rparr>"
    using assms(3) by (simp add: data_evq_sync_eq evq_idle_def dma_in_None)
  have "poll_loop K (Suc 7) (u\<lparr>if_used_poll := True\<rparr>) s = Some ([], u\<lparr>if_used_poll := True\<rparr>, s\<lparr>io := EvqPostread DMA_DATA_EVQ # io s\<rparr>)"
    unfolding poll_loop.simps t using c assms(4) by (simp add: user_evq_read_def dma_mapped_def)
  then show ?thesis using c by (simp add: sfc7120_user_poll_def eval_nat_numeral)
qed

definition port_idle :: "host \<Rightarrow> pf \<Rightarrow> bench \<Rightarrow> bool" where
  "port_idle H p w \<longleftrightarrow> rig_ok H w \<and> no_event (data_evq_ring (b_sc w p) (if_evq_read_ptr (b_if w p)))"

lemma bench_poll_idle:
  assumes "port_idle H p w" "evq_idle (hs_env H p)"
  shows "\<exists>w'. bench_poll H p w = Some ((0, []), w') \<and> port_idle H p w'"
proof -
  have ok: "rig_ok H w" "no_event (data_evq_ring (b_sc w p) (if_evq_read_ptr (b_if w p)))" using assms(1) by (simp_all add: port_idle_def)
  note po = rig_port [OF ok(1), of p]
  have c: "client_ok (b_if w p) (b_sc w p)" using po by (simp add: port_ok_def)
  note e = poll_idle [OF c port_dp [OF po] assms(2) ok(2)]
  have "bench_poll H p w = Some ((0, []), w\<lparr>b_if := (b_if w)(p := (b_if w p)\<lparr>if_used_poll := True\<rparr>),
      b_sc := (b_sc w)(p := (b_sc w p)\<lparr>io := EvqPostread DMA_DATA_EVQ # io (b_sc w p)\<rparr>)\<rparr>)" (is "_ = Some (_, ?w)")
    by (simp add: bench_poll_def on_port_def e)
  moreover have "rig_ok H ?w" using bench_poll_run [OF ok(1), of p] calculation by auto
  ultimately show ?thesis using ok(2) by (simp add: port_idle_def)
qed

lemma port_idle_clk [simp]: "port_idle H p (w\<lparr>b_clk := n\<rparr>) = port_idle H p w"
  by (simp add: port_idle_def)

lemma wait_rx_idle:
  assumes "wait_rx_loop H p buf d tries w = Some y"
  shows "evq_idle (hs_env H p) \<longrightarrow> port_idle H p w \<longrightarrow> fst y = -1"
proof (rule wait_rx_loop.raw_induct [OF _ assms, where P = "\<lambda>H p buf d tries w y. evq_idle (hs_env H p) \<longrightarrow> port_idle H p w \<longrightarrow> fst y = -1"], goal_cases)
  case (1 loop H p buf d tries w y)
  show ?case
  proof (intro impI)
    assume i: "evq_idle (hs_env H p)" "port_idle H p w"
    obtain w1 where w1: "bench_poll H p w = Some ((0, []), w1)" "port_idle H p w1" using bench_poll_idle [OF i(2,1)] by blast
    let ?w2 = "w1\<lparr>b_clk := b_clk w1 + 1\<rparr>"
    have ih: "loop H p buf d' tries' w' = Some y \<Longrightarrow> port_idle H p w' \<Longrightarrow> fst y = -1" for d' tries' w'
      using 1(1) i(1) by blast
    show "fst y = -1"
      using 1(2) w1 ih [of _ _ w1] ih [of _ _ ?w2] by (auto simp: now_ns_def split: if_splits)
  qed
qed

lemma pending_end:
  assumes "length (pending k q p) < k"
  shows "no_event (zeroed n p q ((p + length (pending k q p)) mod 512))"
proof -
  let ?xs = "map (\<lambda>i. q ((p + i) mod 512)) [0..<k]"
  have "\<not> \<not> no_event (?xs ! length (pending k q p))"
    using assms unfolding pending_def by (intro nth_length_takeWhile) simp
  then have "no_event (q ((p + length (pending k q p)) mod 512))" using assms by simp
  then show ?thesis by (simp add: zeroed_def no_event_def)
qed

lemma poll_batch:
  assumes "client_ok u s" "dp_ok s" "evq_idle K" "evs = pending 8 (data_evq_ring s) (if_evq_read_ptr u)"
  shows "\<exists>u' s'. sfc7120_user_poll K True 8 u s = Some (int (length evs), map decode_ev evs, u', s')
    \<and> if_evq_read_ptr u' = (if_evq_read_ptr u + length evs) mod 512
    \<and> data_evq_ring s' = zeroed (length evs) (if_evq_read_ptr u) (data_evq_ring s)"
proof -
  have m: "dma_mapped DMA_DATA_EVQ s" "if_evq_read_ptr u < 512" using assms(1,2) by (simp_all add: client_ok_def dp_ok_def)
  let ?u = "u\<lparr>if_used_poll := True\<rparr>"
  obtain h where l: "poll_loop K 8 ?u s = Some (map decode_ev evs, ?u\<lparr>if_evq_read_ptr := (if_evq_read_ptr u + length evs) mod 512\<rparr>,
      s\<lparr>io := h @ io s, data_evq_ring := zeroed (length evs) (if_evq_read_ptr u) (data_evq_ring s)\<rparr>)"
    using poll_loop_pending [OF assms(3) m(1), of ?u 8 evs] m(2) assms(4) by auto
  have eight: "0 < (8 :: int)" by simp
  obtain es u' s' where p: "sfc7120_user_poll K True 8 u s = Some (int (length es), es, u', s')"
    using user_poll_spec [OF assms(1,2) eight, of K] by blast
  obtain s1 where "poll_loop K 8 ?u s = Some (es, u', s1)" "data_evq_ring s' = data_evq_ring s1"
    using user_poll_loop [OF assms(1,2) p] by blast
  then show ?thesis using l p by auto
qed

lemma wait_rx_batch:
  assumes ok: "rig_ok H w" "length (ub_bytes buf) = 2048" "evq_idle (hs_env H p)"
    and evs: "evs = pending 8 (data_evq_ring (b_sc w p)) (if_evq_read_ptr (b_if w p))" "length evs < 8" "list_ex (\<lambda>ev. ev_code ev = 0) evs"
  shows "\<exists>b n w1. wait_rx H p buf w = Some (0, b, n, w1) \<and> length (ub_bytes b) = 2048 \<and> port_idle H p w1"
proof -
  let ?P = "\<lambda>e. ev_type e = SFC7120_EV_RX"
  note po = rig_port [OF ok(1), of p]
  have c: "client_ok (b_if w p) (b_sc w p)" using po by (simp add: port_ok_def)
  obtain u s where p: "sfc7120_user_poll (hs_env H p) True 8 (b_if w p) (b_sc w p) = Some (int (length evs), map decode_ev evs, u, s)"
      "if_evq_read_ptr u = (if_evq_read_ptr (b_if w p) + length evs) mod 512"
      "data_evq_ring s = zeroed (length evs) (if_evq_read_ptr (b_if w p)) (data_evq_ring (b_sc w p))"
    using poll_batch [OF c port_dp [OF po] ok(3) evs(1)] by blast
  let ?w = "w\<lparr>b_if := (b_if w)(p := u), b_sc := (b_sc w)(p := s)\<rparr>"
  have b: "bench_poll H p w = Some ((int (length evs), map decode_ev evs), ?w)" by (simp add: bench_poll_def on_port_def p(1))
  obtain es w' where "bench_poll H p w = Some ((int (length es), es), w')" "rig_ok H w'" "list_all (\<lambda>e. ?P e \<longrightarrow> unat (ev_rx_bytes e) \<le> 2048) es"
    using bench_poll_run [OF ok(1), of p] by blast
  with b have w': "rig_ok H ?w" "list_all (\<lambda>e. ?P e \<longrightarrow> unat (ev_rx_bytes e) \<le> 2048) (map decode_ev evs)" by simp_all
  obtain x where "x \<in> set evs" "ev_code x = 0" using evs(3) by (auto simp: list_ex_iff)
  then have "decode_ev x \<in> set (map decode_ev evs)" "?P (decode_ev x)" using decode_rx_count(1) by auto
  then obtain e where e: "find ?P (map decode_ev evs) = Some e" using find_None_iff [of ?P "map decode_ev evs"] by (cases "find ?P (map decode_ev evs)") blast+
  then have "e \<in> set (map decode_ev evs)" "?P e" using find_Some_iff [of ?P "map decode_ev evs" e] by (metis nth_mem)+
  with w'(2) have n: "unat (ev_rx_bytes e) \<le> 2048" by (auto simp: list_all_iff)
  obtain b' len w1 where r: "bench_recv H p (ev_rx_bytes e) buf ?w = Some (0, b', len, w1)" "rig_ok H w1" "length (ub_bytes b') = 2048"
      "data_evq_ring (b_sc w1 p) = data_evq_ring (b_sc ?w p)" "if_evq_read_ptr (b_if w1 p) = if_evq_read_ptr (b_if ?w p)"
    using bench_recv_run [OF w'(1) n ok(2), of p] by blast
  have "wait_rx H p buf w = Some (0, b', len, w1)"
    unfolding wait_rx_def wait_rx_loop.simps [of H p buf 0 0 w] by (simp add: b e r(1))
  moreover have "port_idle H p w1"
    unfolding port_idle_def r(4,5) using r(2) p(2,3) evs(1,2) pending_end [of 8 "data_evq_ring (b_sc w p)" "if_evq_read_ptr (b_if w p)"] by simp
  ultimately show ?thesis using r(3) by blast
qed

section \<open>Statistics\<close>

lemma qsort_sort: "qsort cmp_u64 xs = sort xs"
proof -
  have "insort_cmp cmp_u64 x ys = insort x ys" for x ys
    by (induction ys) (auto simp: cmp_u64_def)
  then have "insort_cmp cmp_u64 = insort" by blast
  then show ?thesis by (simp add: qsort_def sort_key_def)
qed

lemma sum_list_unat:
  fixes xs :: "u64 list"
  assumes "sum_list (map unat xs) < 2 ^ 64"
  shows "unat (sum_list xs) = sum_list (map unat xs)"
  using assms
proof (induction xs)
  case (Cons x xs)
  then have "unat (sum_list xs) = sum_list (map unat xs)" by simp
  with Cons.prems show ?case by (simp add: unat_add_lem [THEN iffD1])
qed simp

lemma lat_stats_order:
  assumes "length samples = LAT_SAMPLES" "row = lat_stats sz samples"
  shows "lr_min row = Min (set samples)" "lr_min row \<le> lr_med row" "lr_med row \<le> lr_p99 row" "lr_p99 row \<le> Max (set samples)"
proof -
  let ?xs = "sort samples"
  have len: "length ?xs = 20000" using assms(1) by simp
  have row: "lr_min row = ?xs ! 0" "lr_med row = ?xs ! 10000" "lr_p99 row = ?xs ! 19800"
    using assms(2) by (simp_all add: lat_stats_def qsort_sort Let_def)
  have mono: "?xs ! i \<le> ?xs ! j" if "i \<le> j" "j < 20000" for i j using that len by (intro sorted_nth_mono) simp_all
  show "lr_min row \<le> lr_med row" "lr_med row \<le> lr_p99 row" unfolding row by (rule mono; simp)+
  have "?xs ! 19800 \<in> set samples" using len nth_mem [of 19800 ?xs] by simp
  then show "lr_p99 row \<le> Max (set samples)" unfolding row by (intro Max_ge) simp_all
  have "samples \<noteq> []" using assms(1) by auto
  show "lr_min row = Min (set samples)"
    unfolding row
  proof (rule Min_eqI [symmetric])
    show "?xs ! 0 \<in> set samples" using len nth_mem [of 0 ?xs] by simp
    fix y assume "y \<in> set samples"
    then obtain j where "j < length ?xs" "?xs ! j = y" by (metis in_set_conv_nth set_sort)
    then show "?xs ! 0 \<le> y" using mono [of 0 j] len by simp
  qed simp
qed

lemma lat_stats_mean:
  assumes "length samples = LAT_SAMPLES" "row = lat_stats sz samples" "sum_list (map unat samples) < 2 ^ 64"
  shows "unat (lr_mean row) = sum_list (map unat samples) div 20000"
proof -
  have i: "sum_list (map unat (insort x xs)) = unat x + sum_list (map unat xs)" for x :: u64 and xs by (induction xs) auto
  have p: "sum_list (map unat (sort xs)) = sum_list (map unat xs)" for xs :: "u64 list"
    by (induction xs) (simp_all add: i)
  have "unat (sum_list (sort samples)) = sum_list (map unat samples)" using sum_list_unat [of "sort samples"] assms(3) p by simp
  then show ?thesis using assms(2) by (simp add: lat_stats_def qsort_sort Let_def unat_div)
qed

section \<open>The echo\<close>

lemma reflect_echo:
  assumes ok: "rig_ok H w" "length (ub_bytes rxbuf) = 2048"
    and e: "ev_type e = SFC7120_EV_RX" "unat (ev_rx_bytes e) \<le> 2048"
    and fr: "length dst = 6" "length src = 6" "18 \<le> n"
    and i: "i = if_rx_head (b_if w PF1)" and t: "t = if_tx_head (b_if w PF1)"
    and m: "m = dma_in (rxb_mem (hs_env H PF1) (RxBufPostread # io (b_sc w PF1))) (rx_buffer (b_sc w PF1))"
    and n: "n = unat (rx_frame_len (m (i * 2048 + 8)) (m (i * 2048 + 9)) (ucast (ev_rx_bytes e)))"
    and bytes: "map (\<lambda>k. m (i * 2048 + 14 + k)) [0..<n] = frame_bytes dst src n seq"
  shows "\<exists>rxbuf' w'. reflect H [e] rxbuf w = Some (True, rxbuf', w')
    \<and> map (\<lambda>k. tx_buffer (b_sc w' PF1) (t * 2048 + k)) [0..<n] = frame_bytes src dst n seq
    \<and> tx_desc_ring (b_sc w' PF1) t = ef10_desc (of_nat n) (tx_slot_pa t (b_sc w PF1))
    \<and> if_tx_head (b_if w' PF1) = tx_next t \<and> if_rx_head (b_if w' PF1) = rx_next i"
proof -
  let ?u = "b_if w PF1" and ?s = "b_sc w PF1" and ?K = "hs_env H PF1"
  note po = rig_port [OF ok(1), of PF1]
  have c: "client_ok ?u ?s" "rx_fits ?s" "dp_ok ?s" using po port_dp [OF po] by (simp_all add: port_ok_def)
  have i5: "i < 512" using c(1) i by (simp add: client_ok_def)
  have lm: "lens_ok m" using rig_nic [OF ok(1), of PF1] c(2) by (simp add: m nic_fits_def rx_fits_def)
  have "unat (ucast (ev_rx_bytes e) :: u32) \<le> 2048" using e(2) by (simp add: ucast_small)
  with lm i5 have n2: "n \<le> 2034" unfolding n by (intro frame_len_le) (simp_all add: lens_ok_def)
  let ?d = "ef10_desc (of_nat SFC7120_RX_BUFFER_SIZE) (rx_slot_pa i ?s)"
  let ?u1 = "?u\<lparr>if_used_poll := True, if_rx_head := rx_next i\<rparr>"
  let ?s1 = "?s\<lparr>io := RegWrite SFC7120_REG_DATA_RX_DESC_DBL (of_nat i) # RxDescStore i ?d # RxBufPostread # io ?s,
         rx_buffer := m, rx_desc_ring := (rx_desc_ring ?s)(i := ?d)\<rparr>"
  have r: "sfc7120_rx_recv ?K (Some 2048) (ev_rx_bytes e) ?u ?s = Some (0, frame_bytes dst src n seq, ?u1, ?s1)"
    using rx_recv_eq [OF c(1,3) i m n, of 2048] i5 n2 bytes by (simp add: Let_def)
  let ?w1 = "w\<lparr>b_if := (b_if w)(PF1 := ?u1), b_sc := (b_sc w)(PF1 := ?s1)\<rparr>"
  have l: "length (frame_bytes dst src n seq) = n" "length (frame_bytes src dst n seq) = n" using length_frame_bytes fr by simp_all
  let ?z = "drop n (ub_bytes rxbuf)"
  have recv: "bench_recv H PF1 (ev_rx_bytes e) rxbuf w = Some (0, rxbuf\<lparr>ub_bytes := frame_bytes dst src n seq @ ?z\<rparr>, n, ?w1)"
    using buf_fill [of "frame_bytes dst src n seq" rxbuf] l n2 ok(2) by (simp add: bench_recv_def on_port_def r)
  have sw: "swap_mac (rxbuf\<lparr>ub_bytes := frame_bytes dst src n seq @ ?z\<rparr>) = Some (rxbuf\<lparr>ub_bytes := frame_bytes src dst n seq @ ?z\<rparr>)"
    unfolding frame_bytes_def append.assoc by (rule swap_mac_eq [OF fr(1,2)])
  have c1: "client_ok ?u1 ?s1" "dp_ok ?s1" using c(1) dp_ok_direct(2) [OF c(3)] rx_ring.step_bound by (simp_all add: client_ok_def)
  have un: "unat (of_nat n :: u64) = n" using n2 by (simp add: unsigned_of_nat take_bit_nat_eq_self)
  have nz: "(of_nat n :: u64) \<noteq> 0" using un fr(3) by (metis not_numeral_le_zero unsigned_0)
  let ?bs = "(!) (frame_bytes src dst n seq @ ?z)"
  let ?td = "ef10_desc (of_nat n) (tx_slot_pa t ?s1)"
  let ?u2 = "?u1\<lparr>if_tx_head := tx_next t\<rparr>"
  let ?s2 = "?s1\<lparr>io := RegWrite SFC7120_REG_DATA_TX_WPTR_DBL (of_nat (tx_next t)) # TxDescStore t ?td # io ?s1,
         tx_buffer := mem_fill (t * SFC7120_TX_BUFFER_SIZE) n ?bs (tx_buffer ?s), tx_desc_ring := (tx_desc_ring ?s)(t := ?td)\<rparr>"
  have tp: "sfc7120_tx_post (Some ?bs) (of_nat n) ?u1 ?s1 = Some (0, ?u2, ?s2)"
    using tx_post_eq [OF c1 nz, of ?bs] un n2 t by (simp add: Let_def)
  let ?w2 = "?w1\<lparr>b_if := (b_if ?w1)(PF1 := ?u2), b_sc := (b_sc ?w1)(PF1 := ?s2)\<rparr>"
  have tx: "tx_direct H PF1 (rxbuf\<lparr>ub_bytes := frame_bytes src dst n seq @ ?z\<rparr>) n ?w1 = Some (0, ?w2)"
    using tp by (simp add: tx_direct_def on_port_def)
  have "reflect H [e] rxbuf w = Some (True, rxbuf\<lparr>ub_bytes := frame_bytes src dst n seq @ ?z\<rparr>, ?w2)"
    using tx by (simp add: e(1) recv sw)
  moreover have "map (\<lambda>k. tx_buffer (b_sc ?w2 PF1) (t * 2048 + k)) [0..<n] = frame_bytes src dst n seq"
    by (rule nth_equalityI) (simp_all add: l mem_fill_def nth_append)
  moreover have "tx_slot_pa t ?s1 = tx_slot_pa t ?s" by (simp add: tx_slot_pa_def)
  ultimately show ?thesis by (intro exI [of _ "rxbuf\<lparr>ub_bytes := frame_bytes src dst n seq @ ?z\<rparr>"] exI [of _ ?w2]) simp
qed

section \<open>Properties\<close>

text \<open>A rig of two ports with quiet NICs, a modmap device that maps what it is asked to, and a clock that
  ticks once per read.\<close>

definition ex_bench_sys :: sys where
  "ex_bench_sys = ex_sys\<lparr>sys_get_slices := \<lambda>ty s. Some (0, 4096, if ty = map_type_code SFC7120_MMIO_REGION then 5 else 0, s)\<rparr>"

definition ex_buf :: ubuf where
  "ex_buf = \<lparr>ub_cap = ex_packet, ub_bytes = replicate 2048 0\<rparr>"

definition ex_host :: host where
  "ex_host = \<lparr>hs_env = \<lambda>_. quiet_env, hs_sys = \<lambda>_. ex_bench_sys, hs_clock = \<lambda>n. (0, of_nat n), hs_malloc_ok = True,
     hs_frame = ex_buf, hs_rxbuf = ex_buf\<rparr>"

definition ex_rig :: bench where
  "ex_rig = \<lparr>b_if = \<lambda>_. ex_client, b_sc = \<lambda>_. live_softc, b_clk = 0\<rparr>"

lemma quiet_fits: "nic_fits quiet_env"
  by (simp add: nic_fits_def quiet_env_def dma_in_None)

lemma ex_clock: "clock_ticks ex_host"
proof -
  have "\<exists>j\<ge>i. clock_ns ex_host j = t" for i t
  proof (intro exI conjI)
    show "i \<le> unat t + i * 2 ^ 64" by simp
    have "(2 :: u64) ^ 64 = 0" by simp
    then have "(of_nat (unat t + i * 2 ^ 64) :: u64) = t"
      by (simp only: of_nat_add of_nat_mult of_nat_power of_nat_numeral mult_zero_right add_0_right) simp
    then show "clock_ns ex_host (unat t + i * 2 ^ 64) = t" by (simp only: clock_ns_def ex_host_def host.simps fst_conv snd_conv) simp
  qed
  then obtain f where f: "i \<le> f i t" "clock_ns ex_host (f i t) = t" for i t by metis
  have "\<exists>j\<ge>i. TPUT_NS \<le> clock_ns ex_host j - clock_ns ex_host k" "\<exists>j\<ge>i. clock_ns ex_host k + RX_TIMEOUT_NS \<le> clock_ns ex_host j" for i k
    by (rule exI [of _ "f i (clock_ns ex_host k + TPUT_NS)"], simp add: f)
       (rule exI [of _ "f i (clock_ns ex_host k + RX_TIMEOUT_NS)"], simp add: f)
  then show ?thesis unfolding clock_ticks_def by blast
qed

lemma ex_host_ok: "host_ok ex_host"
  using ex_clock quiet_fits by (simp add: host_ok_def ex_host_def ex_buf_def)

text \<open>Slot 0 of the receive buffer holds a frame of 18 bytes behind its prefix.\<close>

definition ex_slot :: "nat \<Rightarrow> u8" where
  "ex_slot k = (if k = 8 then 18 else if 14 \<le> k \<and> k < 32 then frame_bytes [2, 0, 0, 0, 0, 2] [2, 0, 0, 0, 0, 1] 18 7 ! (k - 14) else 0)"

lemma live_fits: "rx_fits live_softc" "rx_fits (live_softc\<lparr>data_evq_ring := (\<lambda>_. 0)(0 := 78, 1 := 78)\<rparr>)"
  "rx_fits (live_softc\<lparr>rx_buffer := ex_slot\<rparr>)"
  by (simp_all add: rx_fits_def lens_ok_def evs_ok_def live_softc_def zero_softc_def le16_def ex_slot_def)

lemma ex_port: "port_ok ex_bench_sys ex_client live_softc"
  using live_in_service ex_client_ok live_fits by (simp add: port_ok_def ex_client_def is_null_def null_cap_def)

lemma ex_rig_ok: "rig_ok ex_host ex_rig"
  using ex_host_ok ex_port by (simp add: rig_ok_def ex_rig_def) (simp add: ex_host_def)

lemma ex_rig_with:
  assumes "dp_only live_softc s" "dp_ok s" "rx_fits s"
  shows "rig_ok ex_host (ex_rig\<lparr>b_sc := \<lambda>_. s\<rparr>)"
proof -
  have b: "if_evq_read_ptr ex_client < 512" "if_tx_head ex_client < 512" "if_rx_head ex_client < 512" by (simp_all add: ex_client_def)
  have "port_ok ex_bench_sys ex_client s"
    using port_ok_step [OF ex_port assms b, of "if_used_poll ex_client"] by simp
  then show ?thesis using ex_host_ok by (simp add: rig_ok_def ex_rig_def) (simp add: ex_host_def)
qed

lemma ex_rig_sys: "rig_sys ex_host"
proof -
  have "sys_ok ex_bench_sys" using ex_sys_ok unfolding sys_ok_def by (simp add: ex_bench_sys_def)
  moreover have "sys_slices_ok ex_bench_sys"
    by (auto simp: sys_slices_ok_def ex_bench_sys_def ex_sys_def bind_eq_Some_conv)
  ultimately show ?thesis by (simp add: rig_sys_def ex_host_def)
qed

lemma ex_rig_rest: "rig_rest ex_rig"
  using live_in_service live_fits by (simp add: rig_rest_def at_rest_def ex_rig_def live_softc_def is_null_def null_cap_def)



text \<open>Waiting for a frame ends: with a clock that advances, \<open>wait_rx\<close> returns whatever the NIC does, with 0 and a frame
  of at most 2048 bytes in the buffer or with -1, and keeps both ports in order.\<close>

theorem wait_rx_returns:
  assumes "rig_ok H w" "length (ub_bytes buf) = 2048"
  shows "\<exists>r buf' len w'. wait_rx H p buf w = Some (r, buf', len, w') \<and> (r = 0 \<or> r = -1) \<and> len \<le> 2048
    \<and> length (ub_bytes buf') = 2048 \<and> rig_ok H w'"
  using wait_rx_total [OF assms, of p] unfolding recv_post_def by blast

theorem wait_rx_returns_witness:
  "\<exists>r buf' len w'. wait_rx ex_host PF1 ex_buf ex_rig = Some (r, buf', len, w') \<and> (r = 0 \<or> r = -1) \<and> len \<le> 2048
    \<and> length (ub_bytes buf') = 2048 \<and> rig_ok ex_host w'"
  by (rule wait_rx_returns [OF ex_rig_ok]) (simp add: ex_buf_def)

text \<open>C37 \<open>wait_rx\<close> takes up to eight events off the queue at a time and receives only the frame of the first receive
  event among them: however many frames are waiting, when fewer than eight events are pending one is delivered, and
  the next call, with nothing new from the NIC, times out.\<close>

theorem wait_rx_loses_frames:
  assumes "rig_ok H w" "length (ub_bytes buf) = 2048" "evq_idle (hs_env H p)"
    "evs = pending 8 (data_evq_ring (b_sc w p)) (if_evq_read_ptr (b_if w p))" "length evs < 8" "list_ex (\<lambda>ev. ev_code ev = 0) evs"
  shows "\<exists>b n w1 b' n' w2. wait_rx H p buf w = Some (0, b, n, w1) \<and> wait_rx H p b w1 = Some (-1, b', n', w2)"
proof -
  obtain b n w1 where 1: "wait_rx H p buf w = Some (0, b, n, w1)" "length (ub_bytes b) = 2048" "port_idle H p w1"
    using wait_rx_batch [OF assms] by blast
  obtain r b' n' w2 where 2: "wait_rx H p b w1 = Some (r, b', n', w2)"
    using wait_rx_total [OF _ 1(2), of H w1 p] 1(3) unfolding recv_post_def port_idle_def by blast
  have "r = -1" using wait_rx_idle [of H p b 0 0 w1] 2 assms(3) 1(3) by (simp add: wait_rx_def)
  with 1(1) 2 show ?thesis by blast
qed

theorem wait_rx_loses_frames_witness:
  "\<exists>b n w1 b' n' w2. wait_rx ex_host PF1 ex_buf (ex_rig\<lparr>b_sc := \<lambda>_. live_softc\<lparr>data_evq_ring := (\<lambda>_. 0)(0 := 78, 1 := 78)\<rparr>\<rparr>) = Some (0, b, n, w1)
    \<and> wait_rx ex_host PF1 b w1 = Some (-1, b', n', w2)"
proof -
  let ?s = "live_softc\<lparr>data_evq_ring := (\<lambda>_. 0)(0 := 78, 1 := 78)\<rparr>"
  let ?w = "ex_rig\<lparr>b_sc := \<lambda>_. ?s\<rparr>"
  have dp: "dp_ok ?s" using live_dp_ok by (simp add: dp_ok_def dma_mapped_def)
  have "dp_only live_softc ?s" using dp_only_direct(3) [where s = live_softc and h = "io live_softc"] by simp
  from ex_rig_with [OF this dp live_fits(2)] have ok: "rig_ok ex_host ?w" .
  have "[78, 78] = pending 8 (data_evq_ring (b_sc ?w PF1)) (if_evq_read_ptr (b_if ?w PF1))"
    by (simp add: pending_def ex_rig_def ex_client_def upt_rec no_event_def)
  from wait_rx_loses_frames [OF ok _ _ this, of ex_buf] show ?thesis
    by (simp add: ex_buf_def ex_host_def evq_idle_def quiet_env_def ev_code_def)
qed

text \<open>A frame and its echo: \<open>build_frame\<close> lays out destination, source, EtherType 0x88B5, the little-endian sequence
  number and the filling, and leaves the rest of the buffer alone; \<open>swap_mac\<close> turns it into the frame built with the
  two addresses exchanged.\<close>

theorem frame_echo:
  assumes "length dst = 6" "length src = 6" "18 \<le> len" "len \<le> length (ub_bytes b)"
  shows "\<exists>f g. build_frame dst src len seq b = Some f \<and> ub_bytes f = frame_bytes dst src len seq @ drop len (ub_bytes b)
    \<and> length (frame_bytes dst src len seq) = len \<and> get32 14 (ub_bytes f) = seq
    \<and> swap_mac f = Some g \<and> build_frame src dst len seq b = Some g \<and> swap_mac g = Some f"
proof -
  let ?z = "drop len (ub_bytes b)"
  let ?f = "b\<lparr>ub_bytes := frame_bytes dst src len seq @ ?z\<rparr>" and ?g = "b\<lparr>ub_bytes := frame_bytes src dst len seq @ ?z\<rparr>"
  have "swap_mac ?f = Some ?g" "swap_mac ?g = Some ?f"
    unfolding frame_bytes_def append.assoc by (rule swap_mac_eq [OF assms(1,2)], rule swap_mac_eq [OF assms(2,1)])
  moreover have "get32 14 (ub_bytes ?f) = seq"
    using assms(1,2) le32_bytes [of seq] by (simp add: get32_def frame_bytes_def nth_append)
  ultimately show ?thesis
    using build_frame_eq [OF assms] build_frame_eq [OF assms(2,1,3,4)] length_frame_bytes [OF assms(1-3)]
    by (intro exI [of _ ?f] exI [of _ ?g]) simp
qed

theorem frame_echo_witness:
  "\<exists>f g. build_frame [2, 0, 0, 0, 0, 2] [2, 0, 0, 0, 0, 1] 64 7 ex_buf = Some f \<and> get32 14 (ub_bytes f) = 7 \<and> swap_mac f = Some g
    \<and> build_frame [2, 0, 0, 0, 0, 1] [2, 0, 0, 0, 0, 2] 64 7 ex_buf = Some g \<and> swap_mac g = Some f"
  using frame_echo [of "[2, 0, 0, 0, 0, 2]" "[2, 0, 0, 0, 0, 1]" 64 ex_buf 7] by (simp add: ex_buf_def) blast

text \<open>C26 PF1 reflects: for a receive event, the frame in the slot at \<open>rx_head\<close> is sent back with its two addresses
  exchanged and nothing else changed: the transmit slot holds the bytes of the frame with source and destination
  swapped, its descriptor gives the frame's own length, and both rings advance by one.\<close>

theorem reflect_echoes:
  assumes "rig_ok H w" "length (ub_bytes rxbuf) = 2048" "ev_type e = SFC7120_EV_RX" "unat (ev_rx_bytes e) \<le> 2048"
    "length dst = 6" "length src = 6" "18 \<le> n"
    "i = if_rx_head (b_if w PF1)" "t = if_tx_head (b_if w PF1)"
    "m = dma_in (rxb_mem (hs_env H PF1) (RxBufPostread # io (b_sc w PF1))) (rx_buffer (b_sc w PF1))"
    "n = unat (rx_frame_len (m (i * 2048 + 8)) (m (i * 2048 + 9)) (ucast (ev_rx_bytes e)))"
    "map (\<lambda>k. m (i * 2048 + 14 + k)) [0..<n] = frame_bytes dst src n seq"
  shows "\<exists>rxbuf' w'. reflect H [e] rxbuf w = Some (True, rxbuf', w')
    \<and> map (\<lambda>k. tx_buffer (b_sc w' PF1) (t * 2048 + k)) [0..<n] = frame_bytes src dst n seq
    \<and> tx_desc_ring (b_sc w' PF1) t = ef10_desc (of_nat n) (tx_slot_pa t (b_sc w PF1))
    \<and> if_tx_head (b_if w' PF1) = tx_next t \<and> if_rx_head (b_if w' PF1) = rx_next i"
  by (rule reflect_echo [OF assms])

theorem reflect_echoes_witness:
  "\<exists>rxbuf' w'. reflect ex_host [decode_ev 32] ex_buf (ex_rig\<lparr>b_sc := \<lambda>_. live_softc\<lparr>rx_buffer := ex_slot\<rparr>\<rparr>) = Some (True, rxbuf', w')
    \<and> map (\<lambda>k. tx_buffer (b_sc w' PF1) (0 * 2048 + k)) [0..<18] = frame_bytes [2, 0, 0, 0, 0, 1] [2, 0, 0, 0, 0, 2] 18 7"
proof -
  let ?s = "live_softc\<lparr>rx_buffer := ex_slot\<rparr>"
  let ?w = "ex_rig\<lparr>b_sc := \<lambda>_. ?s\<rparr>"
  have dp: "dp_ok ?s" using live_dp_ok by (simp add: dp_ok_def dma_mapped_def)
  have "dp_only live_softc ?s"
    using dp_only_direct(2) [where s = live_softc and h = "io live_softc" and rd = "rx_desc_ring live_softc"] by simp
  from ex_rig_with [OF this dp live_fits(3)] have ok: "rig_ok ex_host ?w" .
  have len: "length (ub_bytes ex_buf) = 2048" by (simp add: ex_buf_def)
  have e: "ev_type (decode_ev 32) = SFC7120_EV_RX" "unat (ev_rx_bytes (decode_ev 32)) = 32"
    using decode_rx_count [of 32] by (simp_all add: ev_code_def)
  have u: "(0 :: nat) = if_rx_head (b_if ?w PF1)" "(0 :: nat) = if_tx_head (b_if ?w PF1)" by (simp_all add: ex_rig_def ex_client_def)
  have m: "ex_slot = dma_in (rxb_mem (hs_env ex_host PF1) (RxBufPostread # io (b_sc ?w PF1))) (rx_buffer (b_sc ?w PF1))"
    by (simp add: ex_host_def quiet_env_def dma_in_None)
  have n: "18 = unat (rx_frame_len (ex_slot (0 * 2048 + 8)) (ex_slot (0 * 2048 + 9)) (ucast (ev_rx_bytes (decode_ev 32))))"
    by (simp add: ex_slot_def rx_frame_len_def le16_def)
  have b: "map (\<lambda>k. ex_slot (0 * 2048 + 14 + k)) [0..<18] = frame_bytes [2, 0, 0, 0, 0, 2] [2, 0, 0, 0, 0, 1] 18 7"
    by (rule nth_equalityI) (simp_all add: ex_slot_def frame_bytes_def)
  show ?thesis using reflect_echoes [OF ok len e(1) _ _ _ _ u m n b] e(2) by auto
qed

lemma sort_rank:
  fixes xs :: "'a::linorder list"
  assumes "i < length xs"
  shows "i < length (filter (\<lambda>x. x \<le> sort xs ! i) xs)" "length xs - i \<le> length (filter (\<lambda>x. sort xs ! i \<le> x) xs)"
proof -
  let ?ys = "sort xs" and ?y = "sort xs ! i"
  have len: "length (filter P xs) = length (filter P ?ys)" for P by (simp add: filter_sort)
  have mono: "?ys ! a \<le> ?ys ! b" if "a \<le> b" "b < length xs" for a b using that by (simp add: sorted_nth_mono)
  have le: "\<forall>x\<in>set (take (Suc i) ?ys). x \<le> ?y" using assms mono [of _ i] by (auto simp: in_set_conv_nth)
  have ge: "\<forall>x\<in>set (drop i ?ys). ?y \<le> x" using assms mono [of i] by (auto simp: in_set_conv_nth)
  have "length (take (Suc i) ?ys) = length (filter (\<lambda>x. x \<le> ?y) (take (Suc i) ?ys))" using le by (simp add: filter_id_conv [THEN iffD2])
  also have "\<dots> \<le> length (filter (\<lambda>x. x \<le> ?y) (take (Suc i) ?ys @ drop (Suc i) ?ys))" by (simp only: filter_append length_append le_add1)
  finally show "i < length (filter (\<lambda>x. x \<le> ?y) xs)" using assms by (simp add: len)
  have "length (drop i ?ys) = length (filter (\<lambda>x. ?y \<le> x) (drop i ?ys))" using ge by (simp add: filter_id_conv [THEN iffD2])
  also have "\<dots> \<le> length (filter (\<lambda>x. ?y \<le> x) (take i ?ys @ drop i ?ys))" by (simp only: filter_append length_append le_add2)
  finally show "length xs - i \<le> length (filter (\<lambda>x. ?y \<le> x) xs)" by (simp add: len)
qed



text \<open>C25 Every frame of a throughput run is accounted for: when \<open>run_throughput\<close> succeeds, PF0 has received exactly the
  round trips its rows count and has posted those and 384 more, and PF1 has sent back as many frames as it has
  received.  The 384 are three windows: each size fills a window of 128 and none is drained, so the second and
  third sizes run with frames of the earlier ones still in flight and count them.\<close>

theorem throughput_accounts:
  assumes "rig_ok H w"
  shows "\<exists>r rows w'. run_throughput H w = Some (r, rows, w') \<and> (r = 0 \<or> r = -1) \<and> rig_ok H w'
    \<and> (r = 0 \<longrightarrow> map tr_size rows = [64, 1024, 1518]
        \<and> received (b_sc w' PF0) = received (b_sc w PF0) + sum_list (map tr_round_trips rows)
        \<and> posted (b_sc w' PF0) = posted (b_sc w PF0) + sum_list (map tr_round_trips rows) + 3 * TPUT_WINDOW
        \<and> (\<exists>k. received (b_sc w' PF1) = received (b_sc w PF1) + k \<and> posted (b_sc w' PF1) = posted (b_sc w PF1) + k))"
  using run_throughput_run [OF assms] unfolding books_def rang_def g_sizes_def fst_conv snd_conv prod.inject by auto

theorem throughput_accounts_witness:
  "\<exists>r rows w'. run_throughput ex_host ex_rig = Some (r, rows, w') \<and> (r = 0 \<or> r = -1) \<and> rig_ok ex_host w'"
  using throughput_accounts [OF ex_rig_ok] by blast

end
