(* ===== verification/Smoke.thy ===== *)
theory Smoke
  imports Bench_Results
begin

text \<open>
  The test program \<open>userlib/test.c\<close>: a producer and a consumer over the system calls and over the direct path, an
  event poller, and the security test, which commits three accesses outside the capabilities a client holds and
  expects each to trap.  Each run opens one port.  A child process of the security test shares the device's memory
  with its parent; it catches the fault, so that its exit status tells whether there was one.  What the runs
  print is left out, except for counts the exit status depends on.
\<close>

section \<open>Frames and state dump\<close>

abbreviation (input) TEST_PACKETS :: nat where "TEST_PACKETS \<equiv> 4"
abbreviation (input) FRAME_LEN :: nat where "FRAME_LEN \<equiv> 64"
abbreviation (input) POLL_TRIES :: nat where "POLL_TRIES \<equiv> 2000000000"

definition test_frame :: "u8 list \<Rightarrow> u8 list \<Rightarrow> nat \<Rightarrow> ubuf \<Rightarrow> ubuf option" where
  "test_frame dst src seq frame = do {
     frame \<leftarrow> buf_write 0 (replicate FRAME_LEN 0) frame;
     frame \<leftarrow> buf_write 0 (take 6 dst) frame;
     frame \<leftarrow> buf_write 6 (take 6 src) frame;
     frame \<leftarrow> buf_write 12 [ucast (drop_bit 8 ETHERTYPE AND 0xff)] frame;
     frame \<leftarrow> buf_write 13 [ucast (ETHERTYPE AND 0xff)] frame;
     frame \<leftarrow> buf_write 14 [of_nat seq] frame;
     buf_write 15 (replicate (FRAME_LEN - 15) 0xA5) frame }"

text \<open>A register load through slice \<open>i\<close>.\<close>

definition slice_load :: "slice_def list \<Rightarrow> nat \<Rightarrow> nat \<Rightarrow> u64 option" where
  "slice_load ds i b =
     (if i < length ds \<and> b + 4 \<le> unat (slice_length (ds ! i)) then Some (slice_offset (ds ! i) + of_nat b) else None)"

definition dump_vi_state :: "env \<Rightarrow> sfc7120_if \<Rightarrow> softc \<Rightarrow> (u32 option \<times> softc) option" where
  "dump_vi_state K u s =
     (if if_mmio_slices_len u > slice_idx SFC7120_SLICE_HW_REV_ID
      then do {
        ds \<leftarrow> if_mmio_slices u;
        off \<leftarrow> slice_load ds (slice_idx SFC7120_SLICE_HW_REV_ID) 0;
        let (rev, s) = SFC7120_READ_REG K off s;
        Some (Some rev, s) }
      else Some (None, s))"

text \<open>The frame all runs have: bring the client up, dump its state, run, leave.\<close>

definition test_session ::
  "env \<Rightarrow> sys \<Rightarrow> (sfc7120_if \<Rightarrow> softc \<Rightarrow> (int \<times> sfc7120_if \<times> softc) option) \<Rightarrow> softc \<Rightarrow> (int \<times> softc) option" where
  "test_session K S run s = do {
     (r, u, s) \<leftarrow> sfc7120_init K S zero_if s;
     if r \<noteq> 0 then Some (1, s)
     else do {
       (_, s) \<leftarrow> dump_vi_state K u s;
       (rc, u, s) \<leftarrow> run u s;
       (_, s) \<leftarrow> sfc7120_destroy K S u s;
       Some (rc, s) } }"

section \<open>Producers\<close>

text \<open>\<open>n\<close> frames from number \<open>i\<close> on; whether all were sent.\<close>

fun send_ioctl :: "env \<Rightarrow> u8 list \<Rightarrow> nat \<Rightarrow> nat \<Rightarrow> ubuf \<Rightarrow> sfc7120_if \<Rightarrow> softc \<Rightarrow> (bool \<times> softc) option" where
  "send_ioctl K dst 0 i frame u s = Some (True, s)"
| "send_ioctl K dst (Suc n) i frame u s = do {
     frame \<leftarrow> test_frame dst (if_mac_addr u) i frame;
     (r, s) \<leftarrow> sfc7120_tx (user_env frame K) (ub_cap frame) (of_nat FRAME_LEN) u s;
     if r \<noteq> 0 then Some (False, s) else send_ioctl K dst n (i + 1) frame u s }"

definition run_producer :: "env \<Rightarrow> sys \<Rightarrow> ubuf \<Rightarrow> softc \<Rightarrow> (int \<times> softc) option" where
  "run_producer K S frame = test_session K S (\<lambda>u s. do {
     (ok, s) \<leftarrow> send_ioctl K (peer_mac (if_mac_addr u)) TEST_PACKETS 0 frame u s;
     Some (if ok then 0 else 1, u, s) })"

fun send_direct :: "u8 list \<Rightarrow> nat \<Rightarrow> nat \<Rightarrow> ubuf \<Rightarrow> sfc7120_if \<Rightarrow> softc \<Rightarrow> (bool \<times> sfc7120_if \<times> softc) option" where
  "send_direct dst 0 i frame u s = Some (True, u, s)"
| "send_direct dst (Suc n) i frame u s = do {
     frame \<leftarrow> test_frame dst (if_mac_addr u) i frame;
     (r, u, s) \<leftarrow> sfc7120_tx_post (Some (\<lambda>k. ub_bytes frame ! k)) (of_nat FRAME_LEN) u s;
     if r \<noteq> 0 then Some (False, u, s) else send_direct dst n (i + 1) frame u s }"

text \<open>Poll until four events of one type have been seen, at most \<open>tries\<close> times.\<close>

definition count_events :: "sfc7120_ev_type \<Rightarrow> sfc7120_ev list \<Rightarrow> nat" where
  "count_events ty evs = length (filter (\<lambda>e. ev_type e = ty) evs)"

fun harvest :: "env \<Rightarrow> sfc7120_ev_type \<Rightarrow> nat \<Rightarrow> nat \<Rightarrow> sfc7120_if \<Rightarrow> softc \<Rightarrow> (nat \<times> sfc7120_if \<times> softc) option" where
  "harvest K ty 0 seen u s = Some (seen, u, s)"
| "harvest K ty (Suc tries) seen u s =
     (if \<not> seen < TEST_PACKETS then Some (seen, u, s)
      else do {
        (n, evs, u, s) \<leftarrow> sfc7120_user_poll K True 8 u s;
        if n < 0 then Some (seen, u, s) else harvest K ty tries (seen + count_events ty evs) u s })"

definition run_producer_direct :: "env \<Rightarrow> sys \<Rightarrow> ubuf \<Rightarrow> softc \<Rightarrow> (int \<times> softc) option" where
  "run_producer_direct K S frame = test_session K S (\<lambda>u s. do {
     (ok, u, s) \<leftarrow> send_direct (peer_mac (if_mac_addr u)) TEST_PACKETS 0 frame u s;
     if \<not> ok then Some (1, u, s)
     else do {
       (done, u, s) \<leftarrow> harvest K SFC7120_EV_TX POLL_TRIES 0 u s;
       Some (if done = TEST_PACKETS then 0 else 1, u, s) } })"

section \<open>Consumers\<close>

text \<open>The lengths of the frames received.\<close>

fun recv_ioctl :: "env \<Rightarrow> nat \<Rightarrow> sfc7120_if \<Rightarrow> softc \<Rightarrow> (nat list \<times> softc) option" where
  "recv_ioctl K 0 u s = Some ([], s)"
| "recv_ioctl K (Suc n) u s = do {
     (r, len, s) \<leftarrow> sfc7120_rx K u s;
     if r \<noteq> 0 then Some ([], s)
     else do {
       (lens, s) \<leftarrow> recv_ioctl K n u s;
       Some ((case len of None \<Rightarrow> 0 | Some l \<Rightarrow> unat l) # lens, s) } }"

definition run_consumer :: "env \<Rightarrow> sys \<Rightarrow> softc \<Rightarrow> (int \<times> softc) option" where
  "run_consumer K S = test_session K S (\<lambda>u s. do {
     (lens, s) \<leftarrow> recv_ioctl K TEST_PACKETS u s;
     Some (0, u, s) })"

text \<open>Serve a batch of events: whether to go on, and how many frames have been received.\<close>

fun recv_batch :: "env \<Rightarrow> sfc7120_ev list \<Rightarrow> nat \<Rightarrow> sfc7120_if \<Rightarrow> softc \<Rightarrow> (bool \<times> nat \<times> sfc7120_if \<times> softc) option" where
  "recv_batch K [] got u s = Some (True, got, u, s)"
| "recv_batch K (e # es) got u s =
     (if ev_type e \<noteq> SFC7120_EV_RX then recv_batch K es got u s
      else do {
        (r, frame, u, s) \<leftarrow> sfc7120_rx_recv K (Some SFC7120_RX_BUFFER_SIZE) (ev_rx_bytes e) u s;
        if r \<noteq> 0 then Some (False, got, u, s) else recv_batch K es (got + 1) u s })"

fun recv_direct :: "env \<Rightarrow> nat \<Rightarrow> nat \<Rightarrow> sfc7120_if \<Rightarrow> softc \<Rightarrow> (nat \<times> sfc7120_if \<times> softc) option" where
  "recv_direct K 0 got u s = Some (got, u, s)"
| "recv_direct K (Suc tries) got u s =
     (if \<not> got < TEST_PACKETS then Some (got, u, s)
      else do {
        (n, evs, u, s) \<leftarrow> sfc7120_user_poll K True 8 u s;
        if n < 0 then Some (got, u, s)
        else do {
          (more, got, u, s) \<leftarrow> recv_batch K evs got u s;
          if \<not> more then Some (got, u, s) else recv_direct K tries got u s } })"

definition run_consumer_direct :: "env \<Rightarrow> sys \<Rightarrow> softc \<Rightarrow> (int \<times> softc) option" where
  "run_consumer_direct K S = test_session K S (\<lambda>u s. do {
     (got, u, s) \<leftarrow> recv_direct K POLL_TRIES 0 u s;
     Some (if got = TEST_PACKETS then 0 else 1, u, s) })"

definition run_poller :: "env \<Rightarrow> sys \<Rightarrow> softc \<Rightarrow> (int \<times> softc) option" where
  "run_poller K S = test_session K S (\<lambda>u s. do {
     (seen, u, s) \<leftarrow> harvest K SFC7120_EV_RX POLL_TRIES 0 u s;
     Some (if seen = TEST_PACKETS then 0 else 1, u, s) })"

section \<open>The security test\<close>

text \<open>The three accesses; \<open>None\<close> is the capability fault.  The bounds of the two buffers are those of their regions.\<close>

definition violate_doorbell_oob :: "sfc7120_if \<Rightarrow> softc \<Rightarrow> softc option" where
  "violate_doorbell_oob u s = slice_write (slice_idx SFC7120_SLICE_TX_DESC_DBL) (64 * 4) 0xdeadbeef u s"

definition violate_txbuf_overflow :: "sfc7120_if \<Rightarrow> softc \<Rightarrow> softc option" where
  "violate_txbuf_overflow u s =
     (let cap_len = SFC7120_NUM_TX_DESC * SFC7120_TX_BUFFER_SIZE in tx_fill (\<lambda>_. 0xA5) 1 cap_len s)"

definition violate_descring_oob :: "sfc7120_if \<Rightarrow> softc \<Rightarrow> softc option" where
  "violate_descring_oob u s =
     (let cap_len = SFC7120_NUM_TX_DESC * SFC7120_TX_DESC_SIZE; n_desc = cap_len div SFC7120_TX_DESC_SIZE
      in tx_desc_write n_desc 0xdeadbeefcafef00d s)"

text \<open>The child's exit status and what it leaves of the device; the parent's verdict.\<close>

definition violation_child :: "(sfc7120_if \<Rightarrow> softc \<Rightarrow> softc option) \<Rightarrow> sfc7120_if \<Rightarrow> softc \<Rightarrow> int \<times> softc" where
  "violation_child fn u s = (case fn u s of Some s' \<Rightarrow> (42, s') | None \<Rightarrow> (0, s))"

definition run_one_violation :: "bool \<Rightarrow> (sfc7120_if \<Rightarrow> softc \<Rightarrow> softc option) \<Rightarrow> sfc7120_if \<Rightarrow> softc \<Rightarrow> nat \<times> softc" where
  "run_one_violation forked fn u s =
     (if \<not> forked then (0, s)
      else let (code, s) = violation_child fn u s in (if code = 0 then 1 else 0, s))"

definition security_body :: "(nat \<Rightarrow> bool) \<Rightarrow> sfc7120_if \<Rightarrow> softc \<Rightarrow> (int \<times> sfc7120_if \<times> softc) option" where
  "security_body forked u s =
     (let (a, s) = run_one_violation (forked 1) violate_doorbell_oob u s;
          (b, s) = run_one_violation (forked 2) violate_txbuf_overflow u s;
          (c, s) = run_one_violation (forked 3) violate_descring_oob u s
      in Some (if a + b + c = 3 then 0 else 1, u, s))"

definition run_security_test :: "env \<Rightarrow> sys \<Rightarrow> (nat \<Rightarrow> bool) \<Rightarrow> softc \<Rightarrow> (int \<times> softc) option" where
  "run_security_test K S forked = test_session K S (security_body forked)"

section \<open>Main\<close>

record tester =
  ts_env :: "pf \<Rightarrow> env"
  ts_sys :: "pf \<Rightarrow> sys"
  ts_frame :: ubuf
  ts_forked :: "nat \<Rightarrow> bool"

definition on_device :: "pf \<Rightarrow> (softc \<Rightarrow> (int \<times> softc) option) \<Rightarrow> (pf \<Rightarrow> softc) \<Rightarrow> (int \<times> (pf \<Rightarrow> softc)) option" where
  "on_device p run d = do { (rc, s) \<leftarrow> run (d p); Some (rc, d(p := s)) }"

definition test_main :: "tester \<Rightarrow> string list \<Rightarrow> (pf \<Rightarrow> softc) \<Rightarrow> (int \<times> (pf \<Rightarrow> softc)) option" where
  "test_main T argv d =
     (if length argv \<noteq> 2 then Some (2, d)
      else if argv ! 1 = ''tx'' then on_device PF0 (run_producer (ts_env T PF0) (ts_sys T PF0) (ts_frame T)) d
      else if argv ! 1 = ''txd'' then on_device PF0 (run_producer_direct (ts_env T PF0) (ts_sys T PF0) (ts_frame T)) d
      else if argv ! 1 = ''rx'' then on_device PF1 (run_consumer (ts_env T PF1) (ts_sys T PF1)) d
      else if argv ! 1 = ''rxd'' then on_device PF1 (run_consumer_direct (ts_env T PF1) (ts_sys T PF1)) d
      else if argv ! 1 = ''poll'' then on_device PF1 (run_poller (ts_env T PF1) (ts_sys T PF1)) d
      else if argv ! 1 = ''sec'' then on_device PF1 (run_security_test (ts_env T PF1) (ts_sys T PF1) (ts_forked T)) d
      else Some (2, d))"

section \<open>Every run ends\<close>

lemma test_frame_total:
  assumes "length (ub_bytes b) = 64"
  shows "\<exists>f. test_frame dst src i b = Some f \<and> length (ub_bytes f) = 64"
proof -
  have w: "\<exists>f'. buf_write off bs f = Some f' \<and> length (ub_bytes f') = 64" if "length (ub_bytes f) = 64" "off + length bs \<le> 64" for off bs f
    using buf_write_some [of off bs f] that by auto
  have t6: "length (take 6 xs) \<le> 6" for xs :: "u8 list" by simp
  obtain f1 where 1: "buf_write 0 (replicate 64 0) b = Some f1" "length (ub_bytes f1) = 64" using w [OF assms, of 0 "replicate 64 0"] by auto
  obtain f2 where 2: "buf_write 0 (take 6 dst) f1 = Some f2" "length (ub_bytes f2) = 64" using w [OF 1(2), of 0 "take 6 dst"] t6 [of dst] by fastforce
  obtain f3 where 3: "buf_write 6 (take 6 src) f2 = Some f3" "length (ub_bytes f3) = 64" using w [OF 2(2), of 6 "take 6 src"] t6 [of src] by fastforce
  obtain f4 where 4: "buf_write 12 [ucast (drop_bit 8 ETHERTYPE AND 0xff)] f3 = Some f4" "length (ub_bytes f4) = 64"
    using w [OF 3(2), of 12 "[ucast (drop_bit 8 ETHERTYPE AND 0xff)]"] by auto
  obtain f5 where 5: "buf_write 13 [ucast (ETHERTYPE AND 0xff)] f4 = Some f5" "length (ub_bytes f5) = 64"
    using w [OF 4(2), of 13 "[ucast (ETHERTYPE AND 0xff)]"] by auto
  obtain f6 where 6: "buf_write 14 [of_nat i] f5 = Some f6" "length (ub_bytes f6) = 64" using w [OF 5(2), of 14 "[of_nat i]"] by auto
  show ?thesis unfolding test_frame_def 1 2 3 4 5 6 bind.bind_lunit by (rule w [OF 6(2)]) simp
qed

lemma dump_run:
  assumes "port_ok S u s"
  shows "\<exists>v s'. dump_vi_state K u s = Some (v, s') \<and> port_ok S u s'"
proof -
  have c: "if_mmio_slices u = Some sfc7120_reg_slices" "if_mmio_slices_len u = 5" using assms by (simp_all add: port_ok_def client_ok_def)
  have b: "if_evq_read_ptr u < 512" "if_tx_head u < 512" "if_rx_head u < 512" "rx_fits s"
    using assms by (simp_all add: port_ok_def client_ok_def)
  let ?s = "s\<lparr>io := RegRead 0 # io s\<rparr>"
  have "dp_only s ?s" using dp_only_direct(3) [where s = s and h = "RegRead 0 # io s" and q = "data_evq_ring s"] by simp
  moreover have "dp_ok ?s" using dp_ok_direct(3) [OF port_dp [OF assms], where h = "RegRead 0 # io s" and q = "data_evq_ring s"] by simp
  ultimately have "port_ok S u ?s" using port_ok_step [OF assms _ _ _ b(1-3), of ?s "if_used_poll u"] b(4) by simp
  then show ?thesis
    by (simp add: dump_vi_state_def c slice_load_def sfc7120_reg_slices_def SFC7120_READ_REG_def softc_emit)
qed

lemma test_session_run:
  assumes "at_rest s" "sys_ok S" "sys_slices_ok S"
    and run: "\<And>u s. port_ok S u s \<Longrightarrow> \<exists>rc u' s'. run u s = Some (rc, u', s') \<and> port_ok S u' s' \<and> (rc = 0 \<or> rc = 1)"
  shows "\<exists>rc s'. test_session K S run s = Some (rc, s') \<and> at_rest s' \<and> (rc = 0 \<or> rc = 1)"
proof -
  obtain r u s1 where 1: "sfc7120_init K S zero_if s = Some (r, u, s1)" "if r = 0 then port_ok S u s1 else at_rest s1"
    using init_port [OF assms(1-3)] by blast
  show ?thesis
  proof (cases "r = 0")
    case False
    then show ?thesis using 1 by (simp add: test_session_def)
  next
    case True
    then have "port_ok S u s1" using 1(2) by simp
    then obtain v s2 where 2: "dump_vi_state K u s1 = Some (v, s2)" "port_ok S u s2" using dump_run by blast
    obtain rc u3 s3 where 3: "run u s2 = Some (rc, u3, s3)" "port_ok S u3 s3" "rc = 0 \<or> rc = 1" using run [OF 2(2)] by blast
    obtain u4 s4 where 4: "sfc7120_destroy K S u3 s3 = Some (u4, s4)" "at_rest s4" using destroy_port [OF 3(2) assms(2)] by blast
    show ?thesis using 1(1) True 2(1) 3 4 by (simp add: test_session_def)
  qed
qed

lemma send_ioctl_run:
  "nic_fits K \<Longrightarrow> port_ok S u s \<Longrightarrow> length (ub_bytes frame) = 64 \<Longrightarrow> \<exists>ok s'. send_ioctl K dst n i frame u s = Some (ok, s') \<and> port_ok S u s'"
proof (induction n arbitrary: i frame s)
  case (Suc n)
  obtain f where f: "test_frame dst (if_mac_addr u) i frame = Some f" "length (ub_bytes f) = 64" using test_frame_total [OF Suc.prems(3)] by blast
  have K: "nic_fits (user_env f K)" using Suc.prems(1) by simp
  obtain e out s1 where d: "dev_ioctl (user_env f K) (DriverCmd (SFC7120_TX (ub_cap f) 64)) u s = Some (e, out, s1)" "port_ok S u s1"
    using port_ioctl [OF K Suc.prems(2), of "SFC7120_TX (ub_cap f) 64" "ub_cap f" 64] by blast
  then show ?case using f Suc.IH [OF Suc.prems(1) d(2) f(2), of "i + 1"] by (auto simp: sfc7120_tx_def)
qed auto

lemma send_direct_run:
  "port_ok S u s \<Longrightarrow> length (ub_bytes frame) = 64 \<Longrightarrow> \<exists>u' s'. send_direct dst n i frame u s = Some (True, u', s') \<and> port_ok S u' s'
    \<and> posted s' = posted s + n"
proof (induction n arbitrary: i frame u s)
  case (Suc n)
  obtain f where f: "test_frame dst (if_mac_addr u) i frame = Some f" "length (ub_bytes f) = 64" using test_frame_total [OF Suc.prems(2)] by blast
  obtain r u1 s1 where p: "sfc7120_tx_post (Some (\<lambda>k. ub_bytes f ! k)) 64 u s = Some (r, u1, s1)" "port_ok S u1 s1"
      "r = 0 \<longleftrightarrow> (64 :: u64) \<noteq> 0 \<and> unat (64 :: u64) \<le> 2048" "posted s1 = posted s + of_bool (r = 0)"
    using port_post [OF Suc.prems(1), of "\<lambda>k. ub_bytes f ! k" 64] by blast
  have r: "r = 0" using p(3) by simp
  obtain u' s' where i: "send_direct dst n (i + 1) f u1 s1 = Some (True, u', s')" "port_ok S u' s'" "posted s' = posted s1 + n"
    using Suc.IH [OF p(2) f(2)] by blast
  have "send_direct dst (Suc n) i frame u s = Some (True, u', s')" using f(1) p(1) r i(1) by simp
  then show ?case using i(2,3) p(4) r by simp
qed simp

lemma harvest_run:
  "nic_fits K \<Longrightarrow> port_ok S u s \<Longrightarrow> \<exists>n u' s'. harvest K ty tries seen u s = Some (n, u', s') \<and> port_ok S u' s'"
proof (induction tries arbitrary: seen u s)
  case (Suc tries)
  obtain evs u1 s1 where "sfc7120_user_poll K True 8 u s = Some (int (length evs), evs, u1, s1)" "port_ok S u1 s1"
    using port_poll [OF Suc.prems] by blast
  then show ?case using Suc.IH [OF Suc.prems(1), of u1 s1] Suc.prems(2) by simp
qed simp

lemma recv_ioctl_run:
  "nic_fits K \<Longrightarrow> port_ok S u s \<Longrightarrow> \<exists>lens s'. recv_ioctl K n u s = Some (lens, s') \<and> port_ok S u s'"
proof (induction n arbitrary: s)
  case (Suc n)
  obtain e out s1 where d: "dev_ioctl K (DriverCmd SFC7120_RX) u s = Some (e, out, s1)" "port_ok S u s1"
    using port_ioctl [OF Suc.prems, of SFC7120_RX] by blast
  then show ?case using Suc.IH [OF Suc.prems(1) d(2)] by (auto simp: sfc7120_rx_def)
qed simp

lemma recv_batch_run:
  "nic_fits K \<Longrightarrow> port_ok S u s \<Longrightarrow> list_all (\<lambda>e. ev_type e = SFC7120_EV_RX \<longrightarrow> unat (ev_rx_bytes e) \<le> 2048) evs \<Longrightarrow>
   \<exists>u' s'. recv_batch K evs got u s = Some (True, got + count_events SFC7120_EV_RX evs, u', s') \<and> port_ok S u' s'"
proof (induction evs arbitrary: got u s)
  case (Cons e es)
  show ?case
  proof (cases "ev_type e = SFC7120_EV_RX")
    case False
    then show ?thesis using Cons.IH [OF Cons.prems(1,2)] Cons.prems(3) by (simp add: count_events_def)
  next
    case True
    then have n: "unat (ev_rx_bytes e) \<le> 2048" using Cons.prems(3) by simp
    obtain frame u1 s1 where r: "sfc7120_rx_recv K (Some 2048) (ev_rx_bytes e) u s = Some (0, frame, u1, s1)" "port_ok S u1 s1"
      using port_recv [OF Cons.prems(1,2) n, of 2048] by auto
    obtain u' s' where "recv_batch K es (got + 1) u1 s1 = Some (True, got + 1 + count_events SFC7120_EV_RX es, u', s')" "port_ok S u' s'"
      using Cons.IH [OF Cons.prems(1) r(2), of "got + 1"] Cons.prems(3) by auto
    then show ?thesis using True r(1) by (simp add: count_events_def)
  qed
qed (simp add: count_events_def)

text \<open>Receiving on the direct path sees exactly the events the poller would count.\<close>

lemma recv_direct_run:
  "nic_fits K \<Longrightarrow> port_ok S u s \<Longrightarrow> \<exists>n u' s'. recv_direct K tries got u s = Some (n, u', s') \<and> port_ok S u' s'"
proof (induction tries arbitrary: got u s)
  case (Suc tries)
  obtain evs u1 s1 where p: "sfc7120_user_poll K True 8 u s = Some (int (length evs), evs, u1, s1)" "port_ok S u1 s1"
      "list_all (\<lambda>e. ev_type e = SFC7120_EV_RX \<longrightarrow> unat (ev_rx_bytes e) \<le> 2048) evs"
    using port_poll [OF Suc.prems] by blast
  obtain u2 s2 where b: "recv_batch K evs got u1 s1 = Some (True, got + count_events SFC7120_EV_RX evs, u2, s2)" "port_ok S u2 s2"
    using recv_batch_run [OF Suc.prems(1) p(2,3)] by blast
  then show ?case using p(1) Suc.IH [OF Suc.prems(1) b(2)] Suc.prems(2) by simp
qed simp

section \<open>The three violations trap\<close>

lemma violations_trap:
  assumes "port_ok S u s"
  shows "violate_doorbell_oob u s = None" "violate_txbuf_overflow u s = None" "violate_descring_oob u s = None"
proof -
  have "if_mmio_slices u = Some sfc7120_reg_slices" using assms by (simp add: port_ok_def client_ok_def)
  then show "violate_doorbell_oob u s = None" by (simp add: violate_doorbell_oob_def slice_write_def slice_store_def sfc7120_reg_slices_def)
qed (simp_all add: violate_txbuf_overflow_def violate_descring_oob_def tx_fill_def tx_desc_write_def)

lemma security_body_eq:
  assumes "port_ok S u s"
  shows "security_body forked u s = Some (if forked 1 \<and> forked 2 \<and> forked 3 then 0 else 1, u, s)"
  using violations_trap [OF assms]
  by (simp add: security_body_def run_one_violation_def violation_child_def)

lemma producer_body:
  assumes "nic_fits K" "length (ub_bytes frame) = 64" "port_ok S u s"
  shows "\<exists>rc u' s'. do { (ok, s) \<leftarrow> send_ioctl K dst TEST_PACKETS 0 frame u s; Some (if ok then 0 else 1, u, s) } = Some (rc, u', s')
    \<and> port_ok S u' s' \<and> (rc = 0 \<or> rc = (1 :: int))"
proof -
  obtain ok s1 where "send_ioctl K dst TEST_PACKETS 0 frame u s = Some (ok, s1)" "port_ok S u s1"
    using send_ioctl_run [OF assms(1,3,2)] by blast
  then show ?thesis by simp
qed

lemma producer_direct_body:
  assumes "nic_fits K" "length (ub_bytes frame) = 64" "port_ok S u s"
  shows "\<exists>rc u' s'. do {
      (ok, u, s) \<leftarrow> send_direct dst TEST_PACKETS 0 frame u s;
      if \<not> ok then Some (1, u, s)
      else do { (done, u, s) \<leftarrow> harvest K ty POLL_TRIES 0 u s; Some (if done = TEST_PACKETS then 0 else 1, u, s) } } = Some (rc, u', s')
    \<and> port_ok S u' s' \<and> (rc = 0 \<or> rc = (1 :: int))"
proof -
  obtain u1 s1 where 1: "send_direct dst TEST_PACKETS 0 frame u s = Some (True, u1, s1)" "port_ok S u1 s1"
    using send_direct_run [OF assms(3,2)] by blast
  obtain n u2 s2 where "harvest K ty POLL_TRIES 0 u1 s1 = Some (n, u2, s2)" "port_ok S u2 s2" using harvest_run [OF assms(1) 1(2)] by blast
  with 1 show ?thesis by simp
qed

lemma counting_body:
  assumes "\<exists>n u' s'. X = Some (n, u', s') \<and> port_ok S u' s'"
  shows "\<exists>rc u' s'. do { (n, u, s) \<leftarrow> X; Some (if n = TEST_PACKETS then 0 else 1, u, s) } = Some (rc, u', s')
    \<and> port_ok S u' s' \<and> (rc = 0 \<or> rc = (1 :: int))"
  using assms by auto

lemma consumer_body:
  assumes "nic_fits K" "port_ok S u s"
  shows "\<exists>rc u' s'. do { (lens, s) \<leftarrow> recv_ioctl K TEST_PACKETS u s; Some (0, u, s) } = Some (rc, u', s')
    \<and> port_ok S u' s' \<and> (rc = 0 \<or> rc = (1 :: int))"
proof -
  obtain lens s1 where "recv_ioctl K TEST_PACKETS u s = Some (lens, s1)" "port_ok S u s1" using recv_ioctl_run [OF assms] by blast
  then show ?thesis by simp
qed

lemma runs_end:
  assumes "nic_fits K" "sys_ok S" "sys_slices_ok S" "at_rest s" "length (ub_bytes frame) = 64"
    "run \<in> {run_producer K S frame, run_producer_direct K S frame, run_consumer K S, run_consumer_direct K S, run_poller K S,
      run_security_test K S forked}"
  shows "\<exists>rc s'. run s = Some (rc, s') \<and> at_rest s' \<and> (rc = 0 \<or> rc = 1)"
proof -
  note session = test_session_run [OF assms(4,2,3), of _ K]
  have "\<exists>rc s'. run_producer K S frame s = Some (rc, s') \<and> at_rest s' \<and> (rc = 0 \<or> rc = 1)"
    unfolding run_producer_def by (rule session, rule producer_body [OF assms(1,5)])
  moreover have "\<exists>rc s'. run_producer_direct K S frame s = Some (rc, s') \<and> at_rest s' \<and> (rc = 0 \<or> rc = 1)"
    unfolding run_producer_direct_def by (rule session, rule producer_direct_body [OF assms(1,5)])
  moreover have "\<exists>rc s'. run_consumer K S s = Some (rc, s') \<and> at_rest s' \<and> (rc = 0 \<or> rc = 1)"
    unfolding run_consumer_def by (rule session, rule consumer_body [OF assms(1)])
  moreover have "\<exists>rc s'. run_consumer_direct K S s = Some (rc, s') \<and> at_rest s' \<and> (rc = 0 \<or> rc = 1)"
    unfolding run_consumer_direct_def by (rule session, rule counting_body, rule recv_direct_run [OF assms(1)])
  moreover have "\<exists>rc s'. run_poller K S s = Some (rc, s') \<and> at_rest s' \<and> (rc = 0 \<or> rc = 1)"
    unfolding run_poller_def by (rule session, rule counting_body, rule harvest_run [OF assms(1)])
  moreover have "\<exists>rc s'. run_security_test K S forked s = Some (rc, s') \<and> at_rest s' \<and> (rc = 0 \<or> rc = 1)"
    unfolding run_security_test_def by (rule session) (simp add: security_body_eq)
  ultimately show ?thesis using assms(6) by auto
qed

section \<open>Properties\<close>

definition ex_tester :: tester where
  "ex_tester = \<lparr>ts_env = \<lambda>_. quiet_env, ts_sys = \<lambda>_. ex_bench_sys, ts_frame = \<lparr>ub_cap = ex_packet, ub_bytes = replicate 64 0\<rparr>,
     ts_forked = \<lambda>_. True\<rparr>"

lemma ex_bench_sys_ok: "sys_ok ex_bench_sys" "sys_slices_ok ex_bench_sys"
  using ex_rig_sys by (simp_all add: rig_sys_def ex_host_def)

lemma live_rest: "at_rest live_softc"
  using ex_rig_rest by (simp add: rig_rest_def ex_rig_def)





text \<open>The consumer over the system calls reports success whatever it received: once the client is up, its exit status
  is 0 for every behaviour of the NIC, a NIC that delivers nothing included.\<close>

theorem consumer_always_succeeds:
  assumes "nic_fits K" "sys_ok S" "sys_slices_ok S" "at_rest s" "sfc7120_init K S zero_if s = Some (0, u, s1)"
  shows "\<exists>s'. run_consumer K S s = Some (0, s')"
proof -
  have up: "port_ok S u s1" using init_port [OF assms(4,2,3), of K] assms(5) by auto
  obtain v s2 where 2: "dump_vi_state K u s1 = Some (v, s2)" "port_ok S u s2" using dump_run [OF up] by blast
  obtain lens s3 where 3: "recv_ioctl K TEST_PACKETS u s2 = Some (lens, s3)" "port_ok S u s3" using recv_ioctl_run [OF assms(1) 2(2)] by blast
  obtain u4 s4 where 4: "sfc7120_destroy K S u s3 = Some (u4, s4)" using destroy_port [OF 3(2) assms(2)] by blast
  show ?thesis using assms(5) 2(1) 3(1) 4 by (simp add: run_consumer_def test_session_def)
qed

end
