(* ===== verification/Sfxge.thy ===== *)
theory Sfxge
  imports Mcdi
begin

text \<open>
  The transport of FreeBSD's \<open>sfxge\<close> driver that \<open>sfc7120_mcdi.c\<close> was written after, as kept in
  \<open>ref_sfxge_mcdi.c\<close>.  The common code it calls (\<open>efx_mcdi_*\<close>) and the rest of that driver are not in the
  repository: they are the record \<open>efx\<close> of functions on a state of their own.  The reference's poll loop is compared
  with the loop of \<open>sfc7120_mcdi_exec\<close>: run on the same polls, they wait for the same delays and give up at the same point.

  Delays are naturals; they stay below the timeout plus 100 ms.  The message log, a compile-time option, is theory \<open>Sfxge_Log\<close>.
\<close>

section \<open>State and common code\<close>

datatype sfxge_mcdi_state = SFXGE_MCDI_UNINITIALIZED | SFXGE_MCDI_INITIALIZED

record efx_mcdi_req =
  emr_cmd :: u32
  emr_in_buf :: "u8 list"
  emr_out_buf :: "u8 list"
  emr_out_length_used :: nat
  emr_rc :: int

text \<open>Poll and abort of the request in flight, its start and its timeout; the initialisation of the common code;
  the two ways to wait; a reset of the card; a DMA buffer of a given size.\<close>

record 'w efx =
  efx_mcdi_request_poll :: "efx_mcdi_req \<Rightarrow> 'w \<Rightarrow> (bool \<times> efx_mcdi_req \<times> 'w) option"
  efx_mcdi_request_abort :: "'w \<Rightarrow> (bool \<times> 'w) option"
  efx_mcdi_request_start :: "efx_mcdi_req \<Rightarrow> 'w \<Rightarrow> 'w option"
  efx_mcdi_get_timeout :: "efx_mcdi_req \<Rightarrow> 'w \<Rightarrow> u32"
  efx_mcdi_init :: "'w \<Rightarrow> int \<times> 'w"
  efx_mcdi_fini :: "'w \<Rightarrow> 'w"
  efx_DELAY :: "nat \<Rightarrow> 'w \<Rightarrow> 'w"
  efx_pause :: "nat \<Rightarrow> 'w \<Rightarrow> 'w"
  sfxge_schedule_reset :: "'w \<Rightarrow> 'w"
  sfxge_dma_alloc :: "nat \<Rightarrow> 'w \<Rightarrow> int"

record 'w sfxge_softc =
  sx_state :: sfxge_mcdi_state
  sx_lock :: mtx
  sx_transport :: bool
  sx_mem :: bool
  sx_w :: 'w

section \<open>Execute\<close>

definition sfxge_mcdi_timeout :: "'w efx \<Rightarrow> 'w \<Rightarrow> 'w" where
  "sfxge_mcdi_timeout E w = sfxge_schedule_reset E w"

partial_function (option) sfxge_poll_loop ::
  "'w efx \<Rightarrow> nat \<Rightarrow> nat \<Rightarrow> nat \<Rightarrow> efx_mcdi_req \<Rightarrow> 'w \<Rightarrow> (efx_mcdi_req \<times> 'w) option" where
  "sfxge_poll_loop E timeout_us total_us delay_us r w =
     Option.bind (efx_mcdi_request_poll E r w) (\<lambda>x. case x of (done, r, w) \<Rightarrow>
       if done then Some (r, w)
       else if total_us > timeout_us
       then Option.bind (efx_mcdi_request_abort E w) (\<lambda>y. case y of (aborted, w) \<Rightarrow>
              if aborted then Some (r, sfxge_mcdi_timeout E w) else None)
       else sfxge_poll_loop E timeout_us (total_us + delay_us) (if delay_us * 2 > 100000 then 100000 else delay_us * 2) r
              (if delay_us < 1000000 then efx_DELAY E delay_us w else efx_pause E delay_us w))"

definition sfxge_mcdi_poll :: "'w efx \<Rightarrow> nat \<Rightarrow> efx_mcdi_req \<Rightarrow> 'w \<Rightarrow> (efx_mcdi_req \<times> 'w) option" where
  "sfxge_mcdi_poll E timeout_us r w = sfxge_poll_loop E timeout_us 0 10 r w"

definition sfxge_mcdi_execute :: "'w efx \<Rightarrow> efx_mcdi_req \<Rightarrow> 'w sfxge_softc \<Rightarrow> (efx_mcdi_req \<times> 'w sfxge_softc) option" where
  "sfxge_mcdi_execute E r s = do {
     l \<leftarrow> mtx_lock (sx_lock s);
     kassert (sx_state s = SFXGE_MCDI_INITIALIZED);
     let timeout_us = unat (efx_mcdi_get_timeout E r (sx_w s));
     kassert (timeout_us > 0);
     w \<leftarrow> efx_mcdi_request_start E r (sx_w s);
     (r, w) \<leftarrow> sfxge_mcdi_poll E timeout_us r w;
     l \<leftarrow> mtx_unlock l;
     Some (r, s\<lparr>sx_lock := l, sx_w := w\<rparr>) }"

definition sfxge_mcdi_ev_cpl :: "'w sfxge_softc \<Rightarrow> 'w sfxge_softc option" where
  "sfxge_mcdi_ev_cpl s = do { kassert (sx_state s = SFXGE_MCDI_INITIALIZED); Some s }"

definition sfxge_mcdi_exception :: "'w efx \<Rightarrow> 'w sfxge_softc \<Rightarrow> 'w sfxge_softc" where
  "sfxge_mcdi_exception E s = s\<lparr>sx_w := sfxge_schedule_reset E (sx_w s)\<rparr>"

section \<open>The passthrough ioctl\<close>

text \<open>\<open>max_payload\<close> is \<open>SFXGE_MCDI_MAX_PAYLOAD\<close>, \<open>feature\<close> says whether the card has MCDI, and \<open>inp\<close> and \<open>oute\<close> are the results of copying in
  and out.  The structure of the call is returned as updated so far; the temporary buffer lives within the call.\<close>

record sfxge_ioc =
  ioc_cmd :: u32
  ioc_len :: nat
  ioc_rc :: int
  ioc_payload :: "u8 list"

abbreviation (input) ENODEV :: int where "ENODEV \<equiv> 19"
abbreviation (input) SFXGE_MC_CMD_REBOOT :: u32 where "SFXGE_MC_CMD_REBOOT \<equiv> 0x3d"

definition sfxge_mcdi_ioctl ::
  "'w efx \<Rightarrow> nat \<Rightarrow> bool \<Rightarrow> int \<times> u8 list \<Rightarrow> int \<Rightarrow> sfxge_ioc \<Rightarrow> 'w sfxge_softc \<Rightarrow> (int \<times> sfxge_ioc \<times> 'w sfxge_softc) option" where
  "sfxge_mcdi_ioctl E max_payload feature inp oute ip s =
     (if sx_state s = SFXGE_MCDI_UNINITIALIZED then Some (ENODEV, ip, s)
      else if \<not> feature then Some (EOPNOTSUPP, ip, s)
      else if ioc_len ip > max_payload then Some (EINVAL, ip, s)
      else if fst inp \<noteq> 0 then Some (fst inp, ip, s)
      else do {
        let mcdibuf = take (ioc_len ip) (snd inp) @ replicate (max_payload - ioc_len ip) 0;
        (emr, s) \<leftarrow> sfxge_mcdi_execute E
           \<lparr>emr_cmd = ioc_cmd ip, emr_in_buf = take (ioc_len ip) mcdibuf, emr_out_buf = mcdibuf, emr_out_length_used = 0, emr_rc = 0\<rparr> s;
        kassert (emr_out_length_used emr \<le> max_payload);
        let ip = ip\<lparr>ioc_rc := emr_rc emr, ioc_cmd := emr_cmd emr, ioc_len := emr_out_length_used emr\<rparr>;
        if oute \<noteq> 0 then Some (oute, ip, s)
        else do {
          let ip = ip\<lparr>ioc_payload := take (ioc_len ip) (emr_out_buf emr) @ drop (ioc_len ip) (ioc_payload ip)\<rparr>;
          Some (0, ip, if ioc_cmd ip = SFXGE_MC_CMD_REBOOT then s\<lparr>sx_w := sfxge_schedule_reset E (sx_w s)\<rparr> else s) } })"

section \<open>Init and fini\<close>

text \<open>The label \<open>fail\<close>.\<close>

definition sfxge_init_fail :: "int \<Rightarrow> 'w sfxge_softc \<Rightarrow> (int \<times> 'w sfxge_softc) option" where
  "sfxge_init_fail rc s = do {
     l \<leftarrow> mtx_destroy (sx_lock s);
     Some (rc, s\<lparr>sx_lock := l, sx_state := SFXGE_MCDI_UNINITIALIZED\<rparr>) }"

abbreviation (input) MCDI_CTL_SDU_LEN_MAX_V2 :: nat where "MCDI_CTL_SDU_LEN_MAX_V2 \<equiv> 0x400"

definition sfxge_mcdi_init :: "'w efx \<Rightarrow> 'w sfxge_softc \<Rightarrow> (int \<times> 'w sfxge_softc) option" where
  "sfxge_mcdi_init E s = do {
     let max_msg_size = 4 + MCDI_CTL_SDU_LEN_MAX_V2;
     kassert (sx_state s = SFXGE_MCDI_UNINITIALIZED);
     l \<leftarrow> mtx_init (sx_lock s);
     let s = s\<lparr>sx_lock := l, sx_state := SFXGE_MCDI_INITIALIZED\<rparr>;
     let rc = sfxge_dma_alloc E max_msg_size (sx_w s);
     if rc \<noteq> 0 then sfxge_init_fail rc s
     else do {
       let s = s\<lparr>sx_mem := True, sx_transport := True\<rparr>;
       let (rc, w) = efx_mcdi_init E (sx_w s);
       let s = s\<lparr>sx_w := w\<rparr>;
       if rc \<noteq> 0 then sfxge_init_fail rc s else Some (0, s) } }"

definition sfxge_mcdi_fini :: "'w efx \<Rightarrow> 'w sfxge_softc \<Rightarrow> 'w sfxge_softc option" where
  "sfxge_mcdi_fini E s = do {
     l \<leftarrow> mtx_lock (sx_lock s);
     kassert (sx_state s = SFXGE_MCDI_INITIALIZED);
     let s = s\<lparr>sx_w := efx_mcdi_fini E (sx_w s), sx_transport := False\<rparr>;
     l \<leftarrow> mtx_unlock l;
     kassert (sx_mem s);
     l \<leftarrow> mtx_destroy l;
     Some (s\<lparr>sx_mem := False, sx_lock := l\<rparr>) }"

section \<open>The poll loop ends\<close>

text \<open>What the transport needs of the common code: polling returns, an abort after a failed poll succeeds, and
  neither they nor waiting leave \<open>I\<close>.\<close>

locale efx_common =
  fixes E :: "'w efx" and I :: "'w \<Rightarrow> bool"
  assumes poll_runs: "\<And>r w. I w \<Longrightarrow> \<exists>b r' w'. efx_mcdi_request_poll E r w = Some (b, r', w') \<and> I w'"
    and abort_runs: "\<And>w. I w \<Longrightarrow> \<exists>w'. efx_mcdi_request_abort E w = Some (True, w') \<and> I w'"
    and waits: "\<And>w n. I w \<Longrightarrow> I (efx_DELAY E n w)" "\<And>w n. I w \<Longrightarrow> I (efx_pause E n w)"
    and resets: "\<And>w. I w \<Longrightarrow> I (sfxge_schedule_reset E w)"
begin

lemma poll_loop_returns:
  "I w \<Longrightarrow> 0 < d \<Longrightarrow> \<exists>r' w'. sfxge_poll_loop E T t d r w = Some (r', w') \<and> I w'"
proof (induction "Suc T - t" arbitrary: t d r w rule: less_induct)
  case less
  obtain b r1 w1 where p: "efx_mcdi_request_poll E r w = Some (b, r1, w1)" "I w1" using poll_runs [OF less.prems(1)] by blast
  obtain w2 where a: "efx_mcdi_request_abort E w1 = Some (True, w2)" "I w2" using abort_runs [OF p(2)] by blast
  let ?w = "if d < 1000000 then efx_DELAY E d w1 else efx_pause E d w1" and ?d = "if d * 2 > 100000 then 100000 else d * 2"
  have run: "sfxge_poll_loop E T t d r w =
      (if b then Some (r1, w1) else if T < t then Some (r1, sfxge_mcdi_timeout E w2) else sfxge_poll_loop E T (t + d) ?d r1 ?w)"
    unfolding sfxge_poll_loop.simps [of E T t d r w] by (simp add: p(1) a(1))
  show ?case
  proof (cases "b \<or> T < t")
    case True
    then have "sfxge_poll_loop E T t d r w = Some (if b then (r1, w1) else (r1, sfxge_mcdi_timeout E w2))" unfolding run by auto
    then show ?thesis using p(2) resets [OF a(2)] by (simp add: sfxge_mcdi_timeout_def)
  next
    case False
    then have "Suc T - (t + d) < Suc T - t" using less.prems(2) by linarith
    moreover have "I ?w" "0 < ?d" using waits p(2) less.prems(2) by simp_all
    ultimately obtain r' w' where "sfxge_poll_loop E T (t + d) ?d r1 ?w = Some (r', w')" "I w'" using less.hyps by blast
    then show ?thesis unfolding run using False by simp
  qed
qed

lemma execute_returns:
  assumes "sx_state s = SFXGE_MCDI_INITIALIZED" "sx_lock s = MtxFree" "efx_mcdi_get_timeout E r (sx_w s) \<noteq> 0"
    "efx_mcdi_request_start E r (sx_w s) = Some w" "I w"
  shows "\<exists>r' w'. sfxge_mcdi_execute E r s = Some (r', s\<lparr>sx_w := w'\<rparr>) \<and> I w'"
proof -
  obtain r' w' where p: "sfxge_mcdi_poll E (unat (efx_mcdi_get_timeout E r (sx_w s))) r w = Some (r', w')" "I w'"
    using poll_loop_returns [OF assms(5), of 10] unfolding sfxge_mcdi_poll_def by fastforce
  have "0 < unat (efx_mcdi_get_timeout E r (sx_w s))" using assms(3) by (simp add: unat_gt_0)
  then have "sfxge_mcdi_execute E r s = Some (r', s\<lparr>sx_lock := MtxFree, sx_w := w'\<rparr>)" using assms p(1) by (simp add: sfxge_mcdi_execute_def)
  also have "s\<lparr>sx_lock := MtxFree, sx_w := w'\<rparr> = s\<lparr>sx_w := w'\<rparr>" using assms(2) by (cases s) simp
  finally show ?thesis using p(2) by blast
qed

end

section \<open>The reference loop and the driver's\<close>

text \<open>The common code played by the driver's own poll: the state is the softc and whether the request was
  aborted.\<close>

definition sfxge_on :: "env \<Rightarrow> (bool \<times> softc) efx" where
  "sfxge_on K = \<lparr>
     efx_mcdi_request_poll = \<lambda>r (t, s). do { (resp, s) \<leftarrow> sfc7120_mcdi_poll_response K s; Some (resp, r, (t, s)) },
     efx_mcdi_request_abort = \<lambda>(t, s). Some (True, (True, s)),
     efx_mcdi_request_start = \<lambda>r (t, s). do {
        (_, s) \<leftarrow> sfc7120_mcdi_send_locked (emr_cmd r) (emr_in_buf r) (mcdi_seq s AND 0x0f) s; Some (False, s) },
     efx_mcdi_get_timeout = \<lambda>r w. of_nat SFC7120_MCDI_TIMEOUT_US,
     efx_mcdi_init = \<lambda>w. (0, w), efx_mcdi_fini = \<lambda>w. w,
     efx_DELAY = \<lambda>n (t, s). (t, emit (Delay n) s), efx_pause = \<lambda>n (t, s). (t, emit (Delay n) s),
     sfxge_schedule_reset = \<lambda>w. w, sfxge_dma_alloc = \<lambda>n w. 0\<rparr>"

interpretation driver_poll: efx_common "sfxge_on K" "\<lambda>(t, s). mcdi_mtx s = MtxOwned \<and> dma_mapped DMA_MCDI s" for K
proof (unfold_locales, goal_cases)
  case (1 r w)
  then show ?case by (cases w) (auto simp: sfxge_on_def poll_response_eq mcdi_sync_eq dma_mapped_def)
qed (auto simp: sfxge_on_def softc_emit dma_mapped_def)

text \<open>The delays double from 10 us to 81920 us and stay at 100 ms, so the time waited is never exactly the
  timeout: that the one loop gives up when it is reached and the other when it is passed makes no difference.\<close>

definition schedule :: "nat \<Rightarrow> nat \<Rightarrow> bool" where
  "schedule t d \<longleftrightarrow> (\<exists>k\<le>13. d = 10 * 2 ^ k \<and> t + 10 = 10 * 2 ^ k) \<or> d = 100000 \<and> t mod 100000 = 63830"

lemma schedule_start: "schedule 0 10"
  unfolding schedule_def by (intro disjI1 exI [of _ 0]) simp

lemma schedule_step:
  assumes "schedule t d"
  shows "schedule (t + d) (if d * 2 > 100000 then 100000 else d * 2)"
  using assms unfolding schedule_def [of t d]
proof (elim disjE exE conjE)
  fix k :: nat assume k: "k \<le> 13" "d = 10 * 2 ^ k" "t + 10 = 10 * 2 ^ k"
  show ?thesis
  proof (cases "k = 13")
    case True
    then show ?thesis using k by (simp add: schedule_def)
  next
    case False
    then have "(2 :: nat) ^ k \<le> 2 ^ 12" using k(1) by (intro power_increasing) simp_all
    then show ?thesis unfolding schedule_def using k False by (intro disjI1 exI [of _ "Suc k"]) simp
  qed
next
  assume "d = 100000" "t mod 100000 = 63830"
  then show ?thesis by (simp add: schedule_def)
qed

lemma schedule_timeout: "schedule t d \<Longrightarrow> t \<noteq> SFC7120_MCDI_TIMEOUT_US"
  unfolding schedule_def
proof (elim disjE exE conjE)
  fix k :: nat assume k: "k \<le> 13" "t + 10 = 10 * 2 ^ k"
  then have "(2 :: nat) ^ k \<le> 2 ^ 13" by (intro power_increasing) simp_all
  then show "t \<noteq> SFC7120_MCDI_TIMEOUT_US" using k(2) by simp
qed auto

lemma loops_agree:
  assumes "schedule t d" "0 < d"
  shows "sfxge_poll_loop (sfxge_on K) SFC7120_MCDI_TIMEOUT_US t d r (b, s)
    = do { (resp, s') \<leftarrow> mcdi_wait K d t s; Some (r, (b \<or> \<not> resp, s')) }"
  using assms
proof (induction "Suc SFC7120_MCDI_TIMEOUT_US - t" arbitrary: t d s rule: less_induct)
  case less
  let ?d = "if d * 2 > 100000 then 100000 else d * 2"
  show ?case
  proof (cases "sfc7120_mcdi_poll_response K s")
    case None
    then show ?thesis
      unfolding sfxge_poll_loop.simps [of _ _ t] mcdi_wait.simps [of K d t] by (simp add: sfxge_on_def)
  next
    case (Some p)
    then obtain resp s1 where p: "sfc7120_mcdi_poll_response K s = Some (resp, s1)" by (cases p) simp
    have ref: "sfxge_poll_loop (sfxge_on K) SFC7120_MCDI_TIMEOUT_US t d r (b, s) =
        (if resp then Some (r, (b, s1)) else if SFC7120_MCDI_TIMEOUT_US < t then Some (r, (True, s1))
         else sfxge_poll_loop (sfxge_on K) SFC7120_MCDI_TIMEOUT_US (t + d) ?d r (b, emit (Delay d) s1))"
      unfolding sfxge_poll_loop.simps [of _ _ t] by (simp add: sfxge_on_def p sfxge_mcdi_timeout_def)
    have drv: "mcdi_wait K d t s =
        (if resp then Some (True, s1) else if SFC7120_MCDI_TIMEOUT_US \<le> t then Some (False, s1)
         else mcdi_wait K ?d (t + d) (emit (Delay d) s1))"
      unfolding mcdi_wait.simps [of K d t] by (simp add: p)
    show ?thesis
    proof (cases "resp \<or> SFC7120_MCDI_TIMEOUT_US < t")
      case True
      then show ?thesis unfolding ref drv by auto
    next
      case False
      then have lt: "t < SFC7120_MCDI_TIMEOUT_US" using schedule_timeout [OF less.prems(1)] by simp
      then have "Suc SFC7120_MCDI_TIMEOUT_US - (t + d) < Suc SFC7120_MCDI_TIMEOUT_US - t" using less.prems(2) by linarith
      from less.hyps [OF this schedule_step [OF less.prems(1)]] show ?thesis
        unfolding ref drv using False lt less.prems(2) by simp
    qed
  qed
qed

text \<open>C17 The driver waits for the MC exactly as the \<open>sfxge\<close> driver does: on the same polls, with the same timeout of ten
  seconds, \<open>sfxge_mcdi_poll\<close> polls the same number of times, waits for the same delays between the polls and aborts the request in exactly
  the runs in which the driver's loop reports that no response came, although the one stops once the timeout is
  reached and the other only when it is exceeded.\<close>

theorem wait_matches_sfxge:
  "sfxge_mcdi_poll (sfxge_on K) SFC7120_MCDI_TIMEOUT_US r (False, s)
   = do { (resp, s') \<leftarrow> mcdi_wait K SFC7120_MCDI_POLL_MIN_US 0 s; Some (r, (\<not> resp, s')) }"
  using loops_agree [OF schedule_start, of K r False s] by (simp add: sfxge_mcdi_poll_def)

text \<open>When the common code fails to start, the reference's \<open>sfxge_mcdi_init\<close> undoes everything but the DMA
  buffer, and the driver's \<open>sfc7120_mcdi_init\<close> (\<open>Mcdi\<close>) everything.\<close>

theorem sfxge_init_leaks:
  assumes "sx_state s = SFXGE_MCDI_UNINITIALIZED" "sx_lock s = MtxAbsent" "sfxge_dma_alloc E 1028 (sx_w s) = 0"
    "efx_mcdi_init E (sx_w s) = (rc, w)" "rc \<noteq> 0"
  shows "\<exists>s'. sfxge_mcdi_init E s = Some (rc, s') \<and> sx_state s' = SFXGE_MCDI_UNINITIALIZED \<and> sx_lock s' = MtxAbsent \<and> sx_mem s'"
  using assms by (simp add: sfxge_mcdi_init_def sfxge_init_fail_def Let_def)

end
