(* ===== verification/Sfxge_Log.thy ===== *)
theory Sfxge_Log
  imports Sfxge "HOL-Library.Sublist"
begin

text \<open>
  The message log of the reference transport (\<open>sfxge_mcdi_do_log\<close> and \<open>sfxge_mcdi_logger\<close> of
  \<open>ref_sfxge_mcdi.c\<close>): the words of a request or response in hexadecimal behind a prefix, broken into lines that fit a
  buffer of 128 characters.  The buffer is a list of 128 characters, a store outside it has no result, and a line is
  printed up to its first NUL.  The log is compared with its specification: the words in order, as many to a line as fit.
\<close>

section \<open>The C library\<close>

abbreviation (input) NUL :: char where "NUL \<equiv> CHR 0x00"

definition hex_digit :: "nat \<Rightarrow> char" where
  "hex_digit d = (if d < 10 then char_of (48 + d) else char_of (87 + d))"

fun hex_nat :: "nat \<Rightarrow> string" where
  "hex_nat n = (if n < 16 then [hex_digit n] else hex_nat (n div 16) @ [hex_digit (n mod 16)])"

declare hex_nat.simps [simp del]

text \<open>The conversion \<open>%0wx\<close>: at least \<open>w\<close> digits.\<close>

definition hex_pad :: "nat \<Rightarrow> u32 \<Rightarrow> string" where
  "hex_pad w v = (let h = hex_nat (unat v) in replicate (w - length h) CHR ''0'' @ h)"

text \<open>\<open>snprintf\<close> at a position, with the space from there to the end: what fits, and a NUL.  Past the end the size is
  a difference that has wrapped, and the store leaves the buffer.\<close>

definition snprintf_at :: "nat \<Rightarrow> string \<Rightarrow> string \<Rightarrow> string option" where
  "snprintf_at pos txt buf =
     (if pos < length buf then
        let t = take (length buf - pos - 1) txt
        in Some (take pos buf @ t @ [NUL] @ drop (pos + length t + 1) buf)
      else if pos = length buf then Some buf
      else None)"

definition put_nul :: "nat \<Rightarrow> string \<Rightarrow> string option" where
  "put_nul pos buf = (if pos < length buf then Some (buf[pos := NUL]) else None)"

definition c_string :: "string \<Rightarrow> string option" where
  "c_string buf = (if NUL \<in> set buf then Some (takeWhile (\<lambda>c. c \<noteq> NUL) buf) else None)"

section \<open>The logger\<close>

definition SFXGE_MCDI_LOG_BUF_SIZE :: nat where "SFXGE_MCDI_LOG_BUF_SIZE = 128"

definition word_text :: "u32 \<Rightarrow> string" where
  "word_text w = CHR '' '' # hex_pad 8 w"

text \<open>The words of \<open>data\<close> one by one; a last word that is not whole would be read past the end of the data.  The result
  is the position, the buffer and the lines printed so far.\<close>

fun sfxge_mcdi_do_log :: "string \<Rightarrow> u8 list \<Rightarrow> nat \<Rightarrow> nat \<Rightarrow> string list \<Rightarrow> (nat \<times> string \<times> string list) option" where
  "sfxge_mcdi_do_log buffer [] pfxsize position out = Some (position, buffer, out)"
| "sfxge_mcdi_do_log buffer (a # b # c # d # data) pfxsize position out = do {
     (buffer, position, out) \<leftarrow>
       (if position + 2 * 4 + 1 \<ge> SFXGE_MCDI_LOG_BUF_SIZE
        then do {
          buffer \<leftarrow> put_nul position buffer;
          line \<leftarrow> c_string buffer;
          Some (buffer, pfxsize, out @ [line @ '' '' @ [CHR 0x5C, CHR 0x0A]]) }
        else Some (buffer, position, out));
     buffer \<leftarrow> snprintf_at position (word_text (get32 0 [a, b, c, d])) buffer;
     sfxge_mcdi_do_log buffer data pfxsize (position + 2 * 4 + 1) out }"
| "sfxge_mcdi_do_log buffer data pfxsize position out = None"

datatype efx_log_msg = EFX_LOG_MCDI_REQUEST | EFX_LOG_MCDI_RESPONSE | EFX_LOG_OTHER

text \<open>The PCI location and name of the device, and the switch \<open>mcdi_logging\<close>.\<close>

record sfxge_dev =
  pci_domain :: u32
  pci_bus :: u32
  pci_slot :: u32
  pci_function :: u32
  dev_nameunit :: string
  mcdi_logging :: bool

definition log_prefix :: "sfxge_dev \<Rightarrow> efx_log_msg \<Rightarrow> string" where
  "log_prefix dev type =
     ''sfc '' @ hex_pad 4 (pci_domain dev) @ '':'' @ hex_pad 2 (pci_bus dev) @ '':'' @ hex_pad 2 (pci_slot dev) @ ''.''
     @ hex_pad 2 (pci_function dev) @ '' '' @ dev_nameunit dev @ '' MCDI RPC ''
     @ (case type of EFX_LOG_MCDI_REQUEST \<Rightarrow> ''REQ'' | EFX_LOG_MCDI_RESPONSE \<Rightarrow> ''RESP'' | EFX_LOG_OTHER \<Rightarrow> ''???'') @ '':''"

text \<open>\<open>stack\<close> is what the buffer on the stack happens to hold.  \<open>snprintf\<close> returns the length of the whole prefix, also
  when it did not fit.\<close>

definition sfxge_mcdi_logger :: "sfxge_dev \<Rightarrow> efx_log_msg \<Rightarrow> u8 list \<Rightarrow> u8 list \<Rightarrow> string \<Rightarrow> string list option" where
  "sfxge_mcdi_logger dev type header data stack =
     (if \<not> mcdi_logging dev then Some []
      else do {
        buffer \<leftarrow> snprintf_at 0 (log_prefix dev type) stack;
        let pfxsize = length (log_prefix dev type);
        (start, buffer, out) \<leftarrow> sfxge_mcdi_do_log buffer header pfxsize pfxsize [];
        (start, buffer, out) \<leftarrow> sfxge_mcdi_do_log buffer data pfxsize start out;
        if start \<noteq> pfxsize
        then do {
          buffer \<leftarrow> put_nul start buffer;
          line \<leftarrow> c_string buffer;
          Some (out @ [line @ [CHR 0x0A]]) }
        else Some out })"

section \<open>Specification\<close>

fun words_of :: "u8 list \<Rightarrow> u32 list" where
  "words_of (a # b # c # d # data) = get32 0 [a, b, c, d] # words_of data"
| "words_of data = []"

function log_lines :: "string \<Rightarrow> nat \<Rightarrow> u32 list \<Rightarrow> string list" where
  "log_lines pfx k ws =
     (if ws = [] then []
      else if length ws \<le> k \<or> k = 0 then [pfx @ concat (map word_text ws) @ [CHR 0x0A]]
      else (pfx @ concat (map word_text (take k ws)) @ '' '' @ [CHR 0x5C, CHR 0x0A]) # log_lines pfx k (drop k ws))"
  by pat_completeness auto
termination by (relation "measure (\<lambda>(_, _, ws). length ws)") auto

declare log_lines.simps [simp del]

text \<open>The line being filled and the lines already complete, without the buffer.\<close>

fun fill :: "string \<Rightarrow> string \<Rightarrow> u32 list \<Rightarrow> string list \<times> string" where
  "fill pfx cur [] = ([], cur)"
| "fill pfx cur (w # ws) =
     (if length cur + 9 \<ge> 128
      then let (ls, c) = fill pfx (pfx @ word_text w) ws in ((cur @ '' '' @ [CHR 0x5C, CHR 0x0A]) # ls, c)
      else fill pfx (cur @ word_text w) ws)"

section \<open>Digits\<close>

lemma hex_nat_length: "0 < k \<Longrightarrow> n < 16 ^ k \<Longrightarrow> length (hex_nat n) \<le> k"
proof (induction n arbitrary: k rule: hex_nat.induct)
  case (1 n)
  show ?case
  proof (cases "n < 16")
    case False
    with 1(2,3) obtain k' where k: "k = Suc k'" "0 < k'"
      by (metis One_nat_def Suc_lessI gr0_implies_Suc not_less_eq power_one_right power_0 zero_less_Suc not_gr_zero)
    have "n div 16 < 16 ^ k'" using 1(3) k by (simp add: less_mult_imp_div_less)
    from 1(1) [OF False k(2) this] False k show ?thesis by (subst hex_nat.simps) simp
  qed (use 1(2) in \<open>simp add: hex_nat.simps [of n]\<close>)
qed

lemma hex_digit_nonzero: "d < 16 \<Longrightarrow> hex_digit d \<noteq> NUL"
proof
  assume d: "d < 16" and "hex_digit d = NUL"
  then have "of_char (hex_digit d) = (0 :: nat)" by simp
  with d show False by (simp add: hex_digit_def split: if_splits)
qed

lemma hex_nat_nonzero: "NUL \<notin> set (hex_nat n)"
  by (induction n rule: hex_nat.induct) (subst hex_nat.simps, auto simp: hex_digit_nonzero [symmetric] dest: hex_digit_nonzero [THEN not_sym])

lemma hex_pad_nonzero: "NUL \<notin> set (hex_pad w v)"
  using hex_nat_nonzero by (auto simp: hex_pad_def Let_def)

lemma word_text_props [simp]: "length (word_text w) = 9" "NUL \<notin> set (word_text w)"
proof -
  have "unat w < 16 ^ 8" using unsigned_less [of w] by simp
  from hex_nat_length [OF _ this] show "length (word_text w) = 9" by (simp add: word_text_def hex_pad_def Let_def)
qed (use hex_pad_nonzero in \<open>auto simp: word_text_def\<close>)

section \<open>The buffer\<close>

text \<open>The buffer holds the line so far at its start, of the right size and without a NUL.\<close>

definition holds :: "string \<Rightarrow> string \<Rightarrow> bool" where
  "holds buf cur \<longleftrightarrow> length buf = 128 \<and> length cur < 128 \<and> take (length cur) buf = cur \<and> NUL \<notin> set cur"

lemma holds_append:
  assumes "holds buf cur" "length cur + length t < 128" "NUL \<notin> set t"
  obtains buf' where "snprintf_at (length cur) t buf = Some buf'" "holds buf' (cur @ t)"
  using assms that by (auto simp: snprintf_at_def holds_def Let_def)

lemma holds_line:
  assumes "holds buf cur"
  obtains buf' where "put_nul (length cur) buf = Some buf'" "c_string buf' = Some cur" "\<And>p. prefix p cur \<Longrightarrow> holds buf' p"
proof -
  have b: "buf = cur @ drop (length cur) buf" and l: "length cur < length buf" and n: "NUL \<notin> set cur"
    using assms append_take_drop_id [of "length cur" buf] by (auto simp: holds_def)
  let ?b = "buf[length cur := NUL]"
  have e: "?b = cur @ NUL # drop (Suc (length cur)) buf"
    using assms l by (simp add: upd_conv_take_nth_drop holds_def)
  have "\<And>c. c \<in> set cur \<Longrightarrow> c \<noteq> NUL" using n by metis
  then have "c_string ?b = Some cur" unfolding e c_string_def by (simp add: takeWhile_append2 cong: takeWhile_cong)
  moreover have "holds ?b p" if "prefix p cur" for p
    using that assms l n unfolding e holds_def by (auto simp: prefix_def)
  ultimately show ?thesis using that l by (simp add: put_nul_def)
qed

lemma do_log_fill:
  assumes "holds buf cur" "prefix pfx cur" "length pfx < 119" "length data mod 4 = 0"
  shows "\<exists>buf'. sfxge_mcdi_do_log buf data (length pfx) (length cur) out =
            Some (length (snd (fill pfx cur (words_of data))), buf', out @ fst (fill pfx cur (words_of data)))
          \<and> holds buf' (snd (fill pfx cur (words_of data))) \<and> prefix pfx (snd (fill pfx cur (words_of data)))"
  using assms
proof (induction data arbitrary: buf cur out rule: words_of.induct)
  case (1 a b c d data)
  let ?w = "get32 0 [a, b, c, d]"
  have m: "length data mod 4 = 0" using 1(5) by simp
  have pl: "length pfx + length (word_text ?w) < 128" using 1(4) by simp
  show ?case
  proof (cases "length cur + 9 \<ge> 128")
    case True
    obtain b1 where b1: "put_nul (length cur) buf = Some b1" "c_string b1 = Some cur" "holds b1 pfx"
      using holds_line [OF 1(2)] 1(3) by metis
    obtain b2 where b2: "snprintf_at (length pfx) (word_text ?w) b1 = Some b2" "holds b2 (pfx @ word_text ?w)"
      using holds_append [OF b1(3) pl] by auto
    from 1(1) [OF b2(2) _ 1(4) m, of "out @ [cur @ '' '' @ [CHR 0x5C, CHR 0x0A]]"] True b1 b2
    show ?thesis by (auto simp: SFXGE_MCDI_LOG_BUF_SIZE_def split_beta add.commute)
  next
    case False
    obtain b2 where b2: "snprintf_at (length cur) (word_text ?w) buf = Some b2" "holds b2 (cur @ word_text ?w)"
      using holds_append [OF 1(2), of "word_text ?w"] False by auto
    have p: "prefix pfx (cur @ word_text ?w)" using 1(3) by (rule prefix_prefix)
    from 1(1) [OF b2(2) p 1(4) m, of out] False b2 show ?thesis by (auto simp: SFXGE_MCDI_LOG_BUF_SIZE_def add.commute)
  qed
qed auto

lemma fill_append: "fill pfx cur (vs @ ws) = (fst (fill pfx cur vs) @ fst (fill pfx (snd (fill pfx cur vs)) ws), snd (fill pfx (snd (fill pfx cur vs)) ws))"
  by (induction pfx cur vs rule: fill.induct) (auto simp: split_beta)

lemma fill_longer: "length pfx + 9 \<le> length cur \<Longrightarrow> length pfx + 9 \<le> length (snd (fill pfx cur ws))"
  by (induction pfx cur ws rule: fill.induct) (auto simp: split_beta)

lemma texts_length: "length (concat (map word_text ws)) = 9 * length ws"
  by (induction ws) simp_all

text \<open>Filling lines word by word breaks the words as the specification does.\<close>

lemma fill_lines:
  assumes "length pfx < 119" "k = (127 - length pfx) div 9" "vs \<noteq> []" "length vs \<le> k"
  shows "fst (fill pfx (pfx @ concat (map word_text vs)) ws) @ [snd (fill pfx (pfx @ concat (map word_text vs)) ws) @ [CHR 0x0A]]
    = log_lines pfx k (vs @ ws)"
  using assms(3,4)
proof (induction ws arbitrary: vs)
  case Nil
  then show ?case by (simp add: log_lines.simps)
next
  case (Cons w ws)
  have k: "1 \<le> k" using assms(1,2) by (simp add: div_greater_zero_iff)
  have full: "length pfx + 9 * length vs + 9 \<ge> 128 \<longleftrightarrow> length vs = k" using assms(1,2) Cons.prems(2) by linarith
  show ?case
  proof (cases "length vs = k")
    case True
    with full have "128 \<le> length (pfx @ concat (map word_text vs)) + 9" by (simp add: texts_length)
    with Cons.IH [of "[w]"] k True show ?thesis by (simp add: split_beta log_lines.simps [of pfx k "vs @ w # ws"])
  next
    case False
    with full have "\<not> 128 \<le> length (pfx @ concat (map word_text vs)) + 9" by (simp add: texts_length)
    with Cons.IH [of "vs @ [w]"] False Cons.prems show ?thesis by simp
  qed
qed

lemma fill_all:
  assumes "length pfx < 119"
  shows "(if length (snd (fill pfx pfx ws)) \<noteq> length pfx then fst (fill pfx pfx ws) @ [snd (fill pfx pfx ws) @ [CHR 0x0A]]
      else fst (fill pfx pfx ws)) = log_lines pfx ((127 - length pfx) div 9) ws"
proof (cases ws)
  case (Cons w ws')
  let ?c = "fill pfx (pfx @ word_text w) ws'"
  have k: "1 \<le> (127 - length pfx) div 9" using assms by (simp add: div_greater_zero_iff)
  have "length pfx < length (snd ?c)" using fill_longer [of pfx "pfx @ word_text w" ws'] by simp
  with fill_lines [OF assms refl, of "[w]" ws'] k assms Cons show ?thesis by simp
qed (simp add: log_lines.simps)

text \<open>A prefix that leaves no room for a word: the position runs past the buffer with the first word.\<close>

lemma snprintf_length: "snprintf_at pos t buf = Some buf' \<Longrightarrow> length buf' = length buf"
  by (auto simp: snprintf_at_def Let_def split: if_splits)

lemma put_nul_length: "put_nul pos buf = Some buf' \<Longrightarrow> length buf' = length buf"
  by (auto simp: put_nul_def split: if_splits)

lemma do_log_past:
  assumes "length buf = 128" "128 \<le> pos"
  shows "sfxge_mcdi_do_log buf data p pos out = (if data = [] then Some (pos, buf, out) else None)"
  using assms by (cases "(buf, data, p, pos, out)" rule: sfxge_mcdi_do_log.cases) (auto simp: SFXGE_MCDI_LOG_BUF_SIZE_def put_nul_def)

lemma do_log_tight:
  assumes "length buf = 128" "119 \<le> p" "data \<noteq> []"
  shows "sfxge_mcdi_do_log buf data p p out = None
    \<or> (\<exists>buf' out'. length buf' = 128 \<and> sfxge_mcdi_do_log buf data p p out = Some (p + 9, buf', out'))"
proof (cases "(buf, data, p, p, out)" rule: sfxge_mcdi_do_log.cases)
  case (2 buffer a b c d data' p' pos' out')
  with assms show ?thesis
    by (auto simp: SFXGE_MCDI_LOG_BUF_SIZE_def do_log_past snprintf_length put_nul_length split: bind_splits)
qed (use assms in auto)

lemma logger_tight:
  assumes "length stack = 128" "mcdi_logging dev" "119 \<le> length (log_prefix dev type)"
  shows "sfxge_mcdi_logger dev type header data stack = (if header = [] \<and> data = [] then Some [] else None)"
proof -
  let ?p = "length (log_prefix dev type)"
  obtain b0 where b0: "snprintf_at 0 (log_prefix dev type) stack = Some b0" "length b0 = 128"
    using assms(1) by (auto simp: snprintf_at_def Let_def)
  show ?thesis
  proof (cases "header = []")
    case True
    with do_log_tight [OF b0(2) assms(3), of data "[]"] b0 assms show ?thesis
      by (auto simp: sfxge_mcdi_logger_def put_nul_def)
  next
    case False
    with do_log_tight [OF b0(2) assms(3), of header "[]"] b0 assms show ?thesis
      by (auto simp: sfxge_mcdi_logger_def put_nul_def do_log_past Let_def)
  qed
qed

section \<open>Properties\<close>

text \<open>C32 What the message log of the reference transport prints: with logging off nothing; otherwise the words of
  header and data in order, in eight digits each behind the prefix, as many to a line as the buffer holds, every line but
  the last continued with a backslash.  This holds for every prefix below 119 characters; a longer one leaves no
  room for a word, and as soon as there is one the terminating NUL is stored outside the buffer.\<close>

theorem mcdi_log_lines:
  assumes "length stack = 128" "NUL \<notin> set (dev_nameunit dev)" "length header mod 4 = 0" "length data mod 4 = 0"
  shows "sfxge_mcdi_logger dev type header data stack =
    (if \<not> mcdi_logging dev then Some []
     else let pfx = log_prefix dev type
          in if length pfx < 119 then Some (log_lines pfx ((127 - length pfx) div 9) (words_of header @ words_of data))
             else if header = [] \<and> data = [] then Some [] else None)"
proof -
  define pfx where "pfx = log_prefix dev type"
  have n: "NUL \<notin> set pfx" using assms(2) hex_pad_nonzero by (auto simp: pfx_def log_prefix_def split: efx_log_msg.splits)
  have "sfxge_mcdi_logger dev type header data stack = Some (log_lines pfx ((127 - length pfx) div 9) (words_of header @ words_of data))"
    if on: "mcdi_logging dev" and short: "length pfx < 119"
  proof -
    let ?ws = "words_of header @ words_of data"
    have "holds stack []" using assms(1) by (simp add: holds_def)
    then obtain b0 where b0: "snprintf_at 0 pfx stack = Some b0" "holds b0 pfx"
      using holds_append [of stack "[]" pfx] short n by auto
    obtain b1 where b1: "sfxge_mcdi_do_log b0 header (length pfx) (length pfx) [] =
        Some (length (snd (fill pfx pfx (words_of header))), b1, fst (fill pfx pfx (words_of header)))"
      "holds b1 (snd (fill pfx pfx (words_of header)))" "prefix pfx (snd (fill pfx pfx (words_of header)))"
      using do_log_fill [OF b0(2) _ short assms(3), of "[]"] by auto
    obtain b2 where b2: "sfxge_mcdi_do_log b1 data (length pfx) (length (snd (fill pfx pfx (words_of header)))) (fst (fill pfx pfx (words_of header)))
        = Some (length (snd (fill pfx pfx ?ws)), b2, fst (fill pfx pfx ?ws))" "holds b2 (snd (fill pfx pfx ?ws))"
      using do_log_fill [OF b1(2,3) short assms(4), of "fst (fill pfx pfx (words_of header))"] by (auto simp: fill_append)
    obtain b3 where b3: "put_nul (length (snd (fill pfx pfx ?ws))) b2 = Some b3" "c_string b3 = Some (snd (fill pfx pfx ?ws))"
      using holds_line [OF b2(2)] by metis
    have "(if length (snd (fill pfx pfx ?ws)) \<noteq> length pfx then fst (fill pfx pfx ?ws) @ [snd (fill pfx pfx ?ws) @ [CHR 0x0A]]
        else fst (fill pfx pfx ?ws)) = log_lines pfx ((127 - length pfx) div 9) ?ws"
      by (rule fill_all [OF short])
    with on b0 b1 b2 b3 show ?thesis
      by (auto simp: sfxge_mcdi_logger_def pfx_def [symmetric])
  qed
  moreover have "sfxge_mcdi_logger dev type header data stack = Some []" if "\<not> mcdi_logging dev"
    using that by (simp add: sfxge_mcdi_logger_def)
  ultimately show ?thesis using logger_tight [OF assms(1)] by (simp add: pfx_def Let_def not_less)
qed

theorem mcdi_log_lines_witness:
  "sfxge_mcdi_logger \<lparr>pci_domain = 0, pci_bus = 5, pci_slot = 0, pci_function = 1, dev_nameunit = ''sfxge1'', mcdi_logging = True\<rparr>
      EFX_LOG_MCDI_REQUEST [0x13, 0, 0, 0] [1, 2, 3, 0xfe] (replicate 128 CHR ''x'')
    = Some [''sfc 0000:05:00.01 sfxge1 MCDI RPC REQ: 00000013 fe030201'' @ [CHR 0x0A]]"
    (is "sfxge_mcdi_logger ?dev _ _ _ _ = _")
proof -
  note digits = hex_pad_def Let_def hex_nat.simps [of "numeral k" for k] hex_nat.simps [of 0] hex_nat.simps [of "Suc 0"] hex_digit_def char_of_def bit_0
  have zeros: "replicate 3 CHR ''0'' = ''000''" "replicate 6 CHR ''0'' = ''000000''"
    by (simp_all add: eval_nat_numeral)
  have p: "log_prefix ?dev EFX_LOG_MCDI_REQUEST = ''sfc 0000:05:00.01 sfxge1 MCDI RPC REQ:''"
    by (simp add: log_prefix_def digits zeros)
  have w: "get32 0 [0x13, 0, 0, 0] = 0x13" "get32 0 [1, 2, 3, 0xfe] = 0xfe030201"
    by (simp_all add: get32_def le32_def)
  have t: "word_text 0x13 = '' 00000013''" "word_text 0xfe030201 = '' fe030201''"
    by (simp_all add: word_text_def digits zeros)
  show ?thesis by (subst mcdi_log_lines) (simp_all add: p w t log_lines.simps [of _ _ "[0x13, 0xfe030201]"])
qed

end
