(* ===== verification/Catalogue.thy ===== *)
theory Catalogue
  imports Mcdi_Cmds
begin

text \<open>
  The part of the MC command catalogue (\<open>ref_efx_regs_mcdi.h\<close>) that the driver relies on.  The header describes every
  message of the protocol by the offset and length of its fields, the enumerations a field may hold and the bit fields of
  a word; \<open>sfc7120_mcdi.c\<close> repeats the numbers it needs and builds its requests by hand.  Here the messages are data:
  one definition per message, field by field in the order of the header, with a reference encoder that fills a message
  from named fields, named enumeration values and named flags, and the check that a buffer is a well-formed request.
  The interface \<open>mc_layout\<close> states what a layout promises (fields in order, without overlap, inside the message); under
  it the encoder only builds well-formed requests and every field reads back.
\<close>

section \<open>Layouts\<close>

text \<open>A field: its name without the message prefix, \<open>_OFST\<close>, \<open>_LEN\<close>, the number of elements (\<open>_NUM\<close>, or
  \<open>_MINNUM\<close> of a variable array), its enumeration and its bit fields (\<open>_LBN\<close>, \<open>_WIDTH\<close>).  The \<open>_LO\<close> and \<open>_HI\<close>
  offsets of an 8-byte field are its own offset and the one 4 further.\<close>

datatype mc_field = Field
  (fd_name: string) (fd_ofst: nat) (fd_len: nat) (fd_num: nat)
  (fd_enum: "(string \<times> u32) list") (fd_bits: "(string \<times> nat \<times> nat) list")

abbreviation (input) f32 :: "string \<Rightarrow> nat \<Rightarrow> mc_field" where "f32 n ofst \<equiv> Field n ofst 4 1 [] []"
abbreviation (input) f64 :: "string \<Rightarrow> nat \<Rightarrow> mc_field" where "f64 n ofst \<equiv> Field n ofst 8 1 [] []"
abbreviation (input) octets :: "string \<Rightarrow> nat \<Rightarrow> nat \<Rightarrow> mc_field" where "octets n ofst len \<equiv> Field n ofst len 1 [] []"

text \<open>A message: the command code, the least and greatest length, the size of an element of the variable array at its
  end (0 when there is none), the names that share the place of another field, and the fields.\<close>

record mc_message =
  mc_code :: u32
  mc_lenmin :: nat
  mc_lenmax :: nat
  mc_step :: nat
  mc_unions :: "(string \<times> string) list"
  mc_fields :: "mc_field list"

section \<open>Header words, error codes, events\<close>

text \<open>The first word of every message, and the second word of an encapsulated one.\<close>

definition MCDI_HEADER :: "(string \<times> nat \<times> nat) list" where
  "MCDI_HEADER =
     [(''CODE'', 0, 7), (''RESYNC'', 7, 1), (''DATALEN'', 8, 8), (''SEQ'', 16, 4), (''RSVD'', 20, 1),
      (''NOT_EPOCH'', 21, 1), (''ERROR'', 22, 1), (''RESPONSE'', 23, 1), (''XFLAGS'', 24, 8)]"

definition MC_CMD_V2_EXTN_IN :: "(string \<times> nat \<times> nat) list" where
  "MC_CMD_V2_EXTN_IN =
     [(''EXTENDED_CMD'', 0, 15), (''UNUSED'', 15, 1), (''ACTUAL_LEN'', 16, 10), (''UNUSED2'', 26, 2),
      (''MESSAGE_TYPE'', 28, 4)]"

definition MCDI_MESSAGE_TYPE :: "(string \<times> u32) list" where
  "MCDI_MESSAGE_TYPE =
     [(''MC'', 0), (''TSA'', 1)]"

text \<open>The error codes an MC response may carry.\<close>

definition MC_CMD_ERR :: "(string \<times> u32) list" where
  "MC_CMD_ERR =
     [(''EPERM'', 1), (''ENOENT'', 2), (''EINTR'', 4), (''EIO'', 5), (''EEXIST'', 6), (''EAGAIN'', 11),
      (''ENOMEM'', 12), (''EACCES'', 13), (''EBUSY'', 16), (''ENODEV'', 19), (''EINVAL'', 22), (''EPIPE'', 32),
      (''EROFS'', 30), (''ERANGE'', 34), (''EDEADLK'', 35), (''ENOSYS'', 38), (''ETIME'', 62), (''ENOLINK'', 67),
      (''EPROTO'', 71), (''ENOTSUP'', 95), (''EADDRNOTAVAIL'', 99), (''ENOTCONN'', 107), (''EALREADY'', 114),
      (''ALLOC_FAIL'', 0x1000), (''NO_VADAPTOR'', 0x1001), (''NO_EVB_PORT'', 0x1002), (''NO_VSWITCH'', 0x1003),
      (''VLAN_LIMIT'', 0x1004), (''BAD_PCI_FUNC'', 0x1005), (''BAD_VLAN_MODE'', 0x1006),
      (''BAD_VSWITCH_TYPE'', 0x1007), (''BAD_VPORT_TYPE'', 0x1008), (''MAC_EXIST'', 0x1009),
      (''SLAVE_NOT_PRESENT'', 0x100a), (''DATAPATH_DISABLED'', 0x100b), (''CLIENT_NOT_FN'', 0x100c),
      (''TRANSPORT_NOPROXY'', 0x100d), (''VLAN_EXIST'', 0x100e), (''NO_MAC_ADDR'', 0x100f),
      (''PROXY_PENDING'', 0x1010), (''PROXY_INPROGRESS'', 0x1011), (''PROXY_UNEXPECTED'', 0x1012),
      (''NO_PRIVILEGE'', 0x1013), (''FILTERS_PRESENT'', 0x1014), (''NO_CLOCK'', 0x1015), (''UNREACHABLE'', 0x1016),
      (''QUEUE_FULL'', 0x1017), (''NO_PCIE'', 0x1018), (''NO_DATAPATH'', 0x1019), (''VIS_PRESENT'', 0x101a),
      (''PIOBUFS_PRESENT'', 0x101b)]"

text \<open>Source, event code and MC code of an MC event, the payload of a \<open>LINKCHANGE\<close> event, its speeds, and the event codes.\<close>

definition MCDI_EVENT :: "(string \<times> nat \<times> nat) list" where
  "MCDI_EVENT =
     [(''SRC'', 36, 8), (''EV_CODE'', 60, 4), (''CODE'', 44, 8)]"

definition MCDI_EVENT_LINKCHANGE :: "(string \<times> nat \<times> nat) list" where
  "MCDI_EVENT_LINKCHANGE =
     [(''LP_CAP'', 0, 16), (''SPEED'', 16, 4), (''FCNTL'', 20, 4), (''LINK_FLAGS'', 24, 8)]"

definition MCDI_EVENT_LINKCHANGE_SPEED :: "(string \<times> u32) list" where
  "MCDI_EVENT_LINKCHANGE_SPEED =
     [(''UNKNOWN'', 0), (''100M'', 1), (''1G'', 2), (''10G'', 3), (''40G'', 4), (''25G'', 5), (''50G'', 6),
      (''100G'', 7)]"

definition MCDI_EVENT_CODE :: "(string \<times> u32) list" where
  "MCDI_EVENT_CODE =
     [(''BADSSERT'', 1), (''PMNOTICE'', 2), (''CMDDONE'', 3), (''LINKCHANGE'', 4), (''SENSOREVT'', 5),
      (''SCHEDERR'', 6), (''REBOOT'', 7), (''MAC_STATS_DMA'', 8), (''FWALERT'', 9), (''FLR'', 10), (''TX_ERR'', 11),
      (''TX_FLUSH'', 12), (''PTP_RX'', 13), (''PTP_FAULT'', 14), (''PTP_PPS'', 15), (''RX_FLUSH'', 16),
      (''RX_ERR'', 17), (''AOE'', 18), (''VCAL_FAIL'', 19), (''HW_PPS'', 20), (''MC_REBOOT'', 21), (''PAR_ERR'', 22),
      (''ECC_CORR_ERR'', 23), (''ECC_FATAL_ERR'', 24), (''MC_BIST'', 25), (''PTP_TIME'', 26), (''MUM'', 27),
      (''PROXY_REQUEST'', 28), (''PROXY_RESPONSE'', 29), (''DBRET'', 30), (''SUC'', 31), (''TESTGEN'', 250)]"

section \<open>Messages\<close>

text \<open>Enumerations that several messages share.\<close>

definition EVB_PORT_ID :: "(string \<times> u32) list" where
  "EVB_PORT_ID =
     [(''NULL'', 0), (''ASSIGNED'', 0x1000000), (''MAC0'', 0x2000000), (''MAC1'', 0x2000001), (''MAC2'', 0x2000002),
      (''MAC3'', 0x2000003)]"

definition GET_VERSION_FIRMWARE :: "(string \<times> u32) list" where
  "GET_VERSION_FIRMWARE =
     [(''ANY'', 0xffffffff), (''SIENA_BOOTROM'', 0xb0070000), (''HUNT_BOOTROM'', 0xb0070001),
      (''MEDFORD2_BOOTROM'', 0xb0070002)]"

definition LOOPBACK_MODES :: "(string \<times> u32) list" where
  "LOOPBACK_MODES =
     [(''LOOPBACK_NONE'', 0), (''LOOPBACK_DATA'', 1), (''LOOPBACK_GMAC'', 2), (''LOOPBACK_XGMII'', 3),
      (''LOOPBACK_XGXS'', 4), (''LOOPBACK_XAUI'', 5), (''LOOPBACK_GMII'', 6), (''LOOPBACK_SGMII'', 7),
      (''LOOPBACK_XGBR'', 8), (''LOOPBACK_XFI'', 9), (''LOOPBACK_XAUI_FAR'', 10), (''LOOPBACK_GMII_FAR'', 11),
      (''LOOPBACK_SGMII_FAR'', 12), (''LOOPBACK_XFI_FAR'', 13), (''LOOPBACK_GPHY'', 14), (''LOOPBACK_PHYXS'', 15),
      (''LOOPBACK_PCS'', 16), (''LOOPBACK_PMAPMD'', 17), (''LOOPBACK_XPORT'', 18), (''LOOPBACK_XGMII_WS'', 19),
      (''LOOPBACK_XAUI_WS'', 20), (''LOOPBACK_XAUI_WS_FAR'', 21), (''LOOPBACK_XAUI_WS_NEAR'', 22),
      (''LOOPBACK_GMII_WS'', 23), (''LOOPBACK_XFI_WS'', 24), (''LOOPBACK_XFI_WS_FAR'', 25),
      (''LOOPBACK_PHYXS_WS'', 26), (''LOOPBACK_PMA_INT'', 27), (''LOOPBACK_SD_NEAR'', 28), (''LOOPBACK_SD_FAR'', 29),
      (''LOOPBACK_PMA_INT_WS'', 30), (''LOOPBACK_SD_FEP2_WS'', 31), (''LOOPBACK_SD_FEP1_5_WS'', 32),
      (''LOOPBACK_SD_FEP_WS'', 33), (''LOOPBACK_SD_FES_WS'', 34), (''LOOPBACK_AOE_INT_NEAR'', 35),
      (''LOOPBACK_DATA_WS'', 36), (''LOOPBACK_FORCE_EXT_LINK'', 37)]"

definition FCNTL_MODES :: "(string \<times> u32) list" where
  "FCNTL_MODES =
     [(''FCNTL_OFF'', 0), (''FCNTL_RESPOND'', 1), (''FCNTL_BIDIR'', 2), (''FCNTL_AUTO'', 3), (''FCNTL_QBB'', 4),
      (''FCNTL_GENERATE'', 5)]"

definition FILTER_OPS :: "(string \<times> u32) list" where
  "FILTER_OPS =
     [(''OP_INSERT'', 0), (''OP_REMOVE'', 1), (''OP_SUBSCRIBE'', 2), (''OP_UNSUBSCRIBE'', 3), (''OP_REPLACE'', 4)]"

subsection \<open>Firmware state and identity\<close>

definition MC_CMD_GET_ASSERTS_IN :: mc_message where
  "MC_CMD_GET_ASSERTS_IN =
     \<lparr>mc_code = 0x6, mc_lenmin = 4, mc_lenmax = 4, mc_step = 0, mc_unions = [], mc_fields =
       [f32 ''CLEAR'' 0]\<rparr>"

definition MC_CMD_GET_ASSERTS_OUT :: mc_message where
  "MC_CMD_GET_ASSERTS_OUT =
     \<lparr>mc_code = 0x6, mc_lenmin = 140, mc_lenmax = 140, mc_step = 0, mc_unions = [], mc_fields =
       [Field ''GLOBAL_FLAGS'' 0 4 1 
         [(''GET_ASSERTS_FLAGS_NO_FAILS'', 1), (''GET_ASSERTS_FLAGS_SYS_FAIL'', 2),
          (''GET_ASSERTS_FLAGS_THR_FAIL'', 3), (''GET_ASSERTS_FLAGS_WDOG_FIRED'', 4),
          (''GET_ASSERTS_FLAGS_ADDR_TRAP'', 5)] [],
        f32 ''SAVED_PC_OFFS'' 4,
        Field ''GP_REGS_OFFS'' 8 4 31 [(''GET_ASSERTS_REG_NO_DATA'', 0xda7a1057)] [],
        f32 ''THREAD_OFFS'' 132,
        f32 ''RESERVED'' 136]\<rparr>"

definition MC_CMD_GET_VERSION_IN :: mc_message where
  "MC_CMD_GET_VERSION_IN =
     \<lparr>mc_code = 0x8, mc_lenmin = 0, mc_lenmax = 0, mc_step = 0, mc_unions = [], mc_fields = []\<rparr>"

definition MC_CMD_GET_VERSION_OUT :: mc_message where
  "MC_CMD_GET_VERSION_OUT =
     \<lparr>mc_code = 0x8, mc_lenmin = 32, mc_lenmax = 32, mc_step = 0, mc_unions = [], mc_fields =
       [Field ''FIRMWARE'' 0 4 1 GET_VERSION_FIRMWARE [],
        f32 ''PCOL'' 4,
        octets ''SUPPORTED_FUNCS'' 8 16,
        f64 ''VERSION'' 24]\<rparr>"

definition MC_CMD_DRV_ATTACH_IN :: mc_message where
  "MC_CMD_DRV_ATTACH_IN =
     \<lparr>mc_code = 0x1c, mc_lenmin = 12, mc_lenmax = 12, mc_step = 0, mc_unions = [], mc_fields =
       [Field ''NEW_STATE'' 0 4 1 
         [] [(''DRV_ATTACH'', 0, 1), (''ATTACH'', 0, 1), (''DRV_PREBOOT'', 1, 1), (''PREBOOT'', 1, 1),
          (''SUBVARIANT_AWARE'', 2, 1), (''WANT_VI_SPREADING'', 3, 1)],
        f32 ''UPDATE'' 4,
        Field ''FIRMWARE_ID'' 8 4 1 
         [(''FW_FULL_FEATURED'', 0), (''FW_LOW_LATENCY'', 1), (''FW_PACKED_STREAM'', 2), (''FW_HIGH_TX_RATE'', 3),
          (''FW_PACKED_STREAM_HASH_MODE_1'', 4), (''FW_RULES_ENGINE'', 5), (''FW_DPDK'', 6), (''FW_L3XUDP'', 7),
          (''FW_KEEP_CURRENT_EFTEST_ONLY'', 0xfffffffe), (''FW_DONT_CARE'', 0xffffffff)] []]\<rparr>"

definition MC_CMD_DRV_ATTACH_OUT :: mc_message where
  "MC_CMD_DRV_ATTACH_OUT =
     \<lparr>mc_code = 0x1c, mc_lenmin = 4, mc_lenmax = 4, mc_step = 0, mc_unions = [], mc_fields =
       [f32 ''OLD_STATE'' 0]\<rparr>"

definition MC_CMD_DRV_ATTACH_EXT_OUT :: mc_message where
  "MC_CMD_DRV_ATTACH_EXT_OUT =
     \<lparr>mc_code = 0x1c, mc_lenmin = 8, mc_lenmax = 8, mc_step = 0, mc_unions = [], mc_fields =
       [f32 ''OLD_STATE'' 0,
        Field ''FUNC_FLAGS'' 4 4 1 
         [(''FLAG_PRIMARY'', 0), (''FLAG_LINKCTRL'', 1), (''FLAG_TRUSTED'', 2), (''FLAG_NO_ACTIVE_PORT'', 3),
          (''FLAG_VI_SPREADING_ENABLED'', 4)] []]\<rparr>"

definition MC_CMD_ENTITY_RESET_IN :: mc_message where
  "MC_CMD_ENTITY_RESET_IN =
     \<lparr>mc_code = 0x20, mc_lenmin = 4, mc_lenmax = 4, mc_step = 0, mc_unions = [], mc_fields =
       [Field ''FLAG'' 0 4 1 [] [(''FUNCTION_RESOURCE_RESET'', 0, 1)]]\<rparr>"

definition MC_CMD_REBOOT_IN :: mc_message where
  "MC_CMD_REBOOT_IN =
     \<lparr>mc_code = 0x3d, mc_lenmin = 4, mc_lenmax = 4, mc_step = 0, mc_unions = [], mc_fields =
       [Field ''FLAGS'' 0 4 1 [(''REBOOT_FLAGS_AFTER_ASSERTION'', 1)] []]\<rparr>"

definition MC_CMD_GET_MAC_ADDRESSES_IN :: mc_message where
  "MC_CMD_GET_MAC_ADDRESSES_IN =
     \<lparr>mc_code = 0x55, mc_lenmin = 0, mc_lenmax = 0, mc_step = 0, mc_unions = [], mc_fields = []\<rparr>"

definition MC_CMD_GET_MAC_ADDRESSES_OUT :: mc_message where
  "MC_CMD_GET_MAC_ADDRESSES_OUT =
     \<lparr>mc_code = 0x55, mc_lenmin = 16, mc_lenmax = 16, mc_step = 0, mc_unions = [], mc_fields =
       [octets ''MAC_ADDR_BASE'' 0 6,
        octets ''RESERVED'' 6 2,
        f32 ''MAC_COUNT'' 8,
        f32 ''MAC_STRIDE'' 12]\<rparr>"

definition MC_CMD_GET_PORT_ASSIGNMENT_IN :: mc_message where
  "MC_CMD_GET_PORT_ASSIGNMENT_IN =
     \<lparr>mc_code = 0xb8, mc_lenmin = 0, mc_lenmax = 0, mc_step = 0, mc_unions = [], mc_fields = []\<rparr>"

definition MC_CMD_GET_PORT_ASSIGNMENT_OUT :: mc_message where
  "MC_CMD_GET_PORT_ASSIGNMENT_OUT =
     \<lparr>mc_code = 0xb8, mc_lenmin = 4, mc_lenmax = 4, mc_step = 0, mc_unions = [], mc_fields =
       [f32 ''PORT'' 0]\<rparr>"

definition MC_CMD_GET_FUNCTION_INFO_IN :: mc_message where
  "MC_CMD_GET_FUNCTION_INFO_IN =
     \<lparr>mc_code = 0xec, mc_lenmin = 0, mc_lenmax = 0, mc_step = 0, mc_unions = [], mc_fields = []\<rparr>"

definition MC_CMD_GET_FUNCTION_INFO_OUT :: mc_message where
  "MC_CMD_GET_FUNCTION_INFO_OUT =
     \<lparr>mc_code = 0xec, mc_lenmin = 8, mc_lenmax = 8, mc_step = 0, mc_unions = [], mc_fields =
       [f32 ''PF'' 0,
        f32 ''VF'' 4]\<rparr>"

definition MC_CMD_GET_CAPABILITIES_IN :: mc_message where
  "MC_CMD_GET_CAPABILITIES_IN =
     \<lparr>mc_code = 0xbe, mc_lenmin = 0, mc_lenmax = 0, mc_step = 0, mc_unions = [], mc_fields = []\<rparr>"

definition MC_CMD_GET_CAPABILITIES_OUT :: mc_message where
  "MC_CMD_GET_CAPABILITIES_OUT =
     \<lparr>mc_code = 0xbe, mc_lenmin = 20, mc_lenmax = 20, mc_step = 0, mc_unions = [], mc_fields =
       [Field ''FLAGS1'' 0 4 1 
         [] [(''VPORT_RECONFIGURE'', 3, 1), (''TX_STRIPING'', 4, 1), (''VADAPTOR_QUERY'', 5, 1),
          (''EVB_PORT_VLAN_RESTRICT'', 6, 1), (''DRV_ATTACH_PREBOOT'', 7, 1), (''RX_FORCE_EVENT_MERGING'', 8, 1),
          (''SET_MAC_ENHANCED'', 9, 1), (''UNKNOWN_UCAST_DST_FILTER_ALWAYS_MULTI_RECIPIENT'', 10, 1),
          (''VADAPTOR_PERMIT_SET_MAC_WHEN_FILTERS_INSTALLED'', 11, 1), (''TX_MAC_SECURITY_FILTERING'', 12, 1),
          (''ADDITIONAL_RSS_MODES'', 13, 1), (''QBB'', 14, 1), (''RX_PACKED_STREAM_VAR_BUFFERS'', 15, 1),
          (''RX_RSS_LIMITED'', 16, 1), (''RX_PACKED_STREAM'', 17, 1), (''RX_INCLUDE_FCS'', 18, 1),
          (''TX_VLAN_INSERTION'', 19, 1), (''RX_VLAN_STRIPPING'', 20, 1), (''TX_TSO'', 21, 1),
          (''RX_PREFIX_LEN_0'', 22, 1), (''RX_PREFIX_LEN_14'', 23, 1), (''RX_TIMESTAMP'', 24, 1),
          (''RX_BATCHING'', 25, 1), (''MCAST_FILTER_CHAINING'', 26, 1), (''PM_AND_RXDP_COUNTERS'', 27, 1),
          (''RX_DISABLE_SCATTER'', 28, 1), (''TX_MCAST_UDP_LOOPBACK'', 29, 1), (''EVB'', 30, 1),
          (''VXLAN_NVGRE'', 31, 1)],
        Field ''RX_DPCPU_FW_ID'' 4 2 1 
         [(''RXDP'', 0), (''RXDP_LOW_LATENCY'', 1), (''RXDP_PACKED_STREAM'', 2), (''RXDP_RULES_ENGINE'', 5),
          (''RXDP_DPDK'', 6), (''RXDP_BIST'', 0x10a), (''RXDP_TEST_FW_TO_MC_CUT_THROUGH'', 0x101),
          (''RXDP_TEST_FW_TO_MC_STORE_FORWARD'', 0x102), (''RXDP_TEST_FW_TO_MC_STORE_FORWARD_FIRST'', 0x103),
          (''RXDP_TEST_EVERY_EVENT_BATCHABLE'', 0x104), (''RXDP_TEST_BACKPRESSURE'', 0x105),
          (''RXDP_TEST_FW_PACKET_EDITS'', 0x106), (''RXDP_TEST_FW_RX_HDR_SPLIT'', 0x107),
          (''RXDP_TEST_FW_DISABLE_DL'', 0x108), (''RXDP_TEST_FW_DOORBELL_DELAY'', 0x10b),
          (''RXDP_TEST_FW_SLOW'', 0x10c)] [],
        Field ''TX_DPCPU_FW_ID'' 6 2 1 
         [(''TXDP'', 0), (''TXDP_LOW_LATENCY'', 1), (''TXDP_HIGH_PACKET_RATE'', 3), (''TXDP_RULES_ENGINE'', 5),
          (''TXDP_DPDK'', 6), (''TXDP_BIST'', 0x12d), (''TXDP_TEST_FW_TSO_EDIT'', 0x101),
          (''TXDP_TEST_FW_PACKET_EDITS'', 0x102), (''TXDP_TEST_FW_CSR'', 0x103)] [],
        Field ''RXPD_FW_VERSION'' 8 2 1 
         [(''RXPD_FW_TYPE_RESERVED'', 0), (''RXPD_FW_TYPE_FIRST_PKT'', 1), (''RXPD_FW_TYPE_SIENA_COMPAT'', 2),
          (''RXPD_FW_TYPE_FULL_FEATURED'', 3), (''RXPD_FW_TYPE_VSWITCH'', 3), (''RXPD_FW_TYPE_SIENA_COMPAT_PM'', 4),
          (''RXPD_FW_TYPE_LOW_LATENCY'', 5), (''RXPD_FW_TYPE_PACKED_STREAM'', 6), (''RXPD_FW_TYPE_LAYER2_PERF'', 7),
          (''RXPD_FW_TYPE_RULES_ENGINE'', 8), (''RXPD_FW_TYPE_L3XUDP'', 9), (''RXPD_FW_TYPE_DPDK'', 10),
          (''RXPD_FW_TYPE_TESTFW_GUE_PROTOTYPE'', 14), (''RXPD_FW_TYPE_TESTFW_ENCAP_PARSING_ONLY'', 15)] 
          [(''RXPD_FW_VERSION_REV'', 0, 12), (''RXPD_FW_VERSION_TYPE'', 12, 4)],
        Field ''TXPD_FW_VERSION'' 10 2 1 
         [(''TXPD_FW_TYPE_RESERVED'', 0), (''TXPD_FW_TYPE_FIRST_PKT'', 1), (''TXPD_FW_TYPE_SIENA_COMPAT'', 2),
          (''TXPD_FW_TYPE_FULL_FEATURED'', 3), (''TXPD_FW_TYPE_VSWITCH'', 3), (''TXPD_FW_TYPE_SIENA_COMPAT_PM'', 4),
          (''TXPD_FW_TYPE_LOW_LATENCY'', 5), (''TXPD_FW_TYPE_LAYER2_PERF'', 7), (''TXPD_FW_TYPE_RULES_ENGINE'', 8),
          (''TXPD_FW_TYPE_L3XUDP'', 9), (''TXPD_FW_TYPE_DPDK'', 10), (''TXPD_FW_TYPE_TESTFW_GUE_PROTOTYPE'', 14)] 
          [(''TXPD_FW_VERSION_REV'', 0, 12), (''TXPD_FW_VERSION_TYPE'', 12, 4)],
        f32 ''HW_CAPABILITIES'' 12,
        f32 ''LICENSE_CAPABILITIES'' 16]\<rparr>"

subsection \<open>PHY, link and MAC\<close>

definition MC_CMD_GET_PHY_CFG_IN :: mc_message where
  "MC_CMD_GET_PHY_CFG_IN =
     \<lparr>mc_code = 0x24, mc_lenmin = 0, mc_lenmax = 0, mc_step = 0, mc_unions = [], mc_fields = []\<rparr>"

definition MC_CMD_GET_PHY_CFG_OUT :: mc_message where
  "MC_CMD_GET_PHY_CFG_OUT =
     \<lparr>mc_code = 0x24, mc_lenmin = 72, mc_lenmax = 72, mc_step = 0, mc_unions = [], mc_fields =
       [Field ''FLAGS'' 0 4 1 
         [] [(''PRESENT'', 0, 1), (''BIST_CABLE_SHORT'', 1, 1), (''BIST_CABLE_LONG'', 2, 1), (''LOWPOWER'', 3, 1),
          (''POWEROFF'', 4, 1), (''TXDIS'', 5, 1), (''BIST'', 6, 1)],
        f32 ''TYPE'' 4,
        Field ''SUPPORTED_CAP'' 8 4 1 
         [] [(''PHY_CAP_10HDX'', 1, 1), (''PHY_CAP_10FDX'', 2, 1), (''PHY_CAP_100HDX'', 3, 1),
          (''PHY_CAP_100FDX'', 4, 1), (''PHY_CAP_1000HDX'', 5, 1), (''PHY_CAP_1000FDX'', 6, 1),
          (''PHY_CAP_10000FDX'', 7, 1), (''PHY_CAP_PAUSE'', 8, 1), (''PHY_CAP_ASYM'', 9, 1), (''PHY_CAP_AN'', 10, 1),
          (''PHY_CAP_40000FDX'', 11, 1), (''PHY_CAP_DDM'', 12, 1), (''PHY_CAP_100000FDX'', 13, 1),
          (''PHY_CAP_25000FDX'', 14, 1), (''PHY_CAP_50000FDX'', 15, 1), (''PHY_CAP_BASER_FEC'', 16, 1),
          (''PHY_CAP_BASER_FEC_REQUESTED'', 17, 1), (''PHY_CAP_RS_FEC'', 18, 1),
          (''PHY_CAP_RS_FEC_REQUESTED'', 19, 1), (''PHY_CAP_25G_BASER_FEC'', 20, 1),
          (''PHY_CAP_25G_BASER_FEC_REQUESTED'', 21, 1)],
        f32 ''CHANNEL'' 12,
        f32 ''PRT'' 16,
        f32 ''STATS_MASK'' 20,
        octets ''NAME'' 24 20,
        Field ''MEDIA_TYPE'' 44 4 1 
         [(''MEDIA_XAUI'', 1), (''MEDIA_CX4'', 2), (''MEDIA_KX4'', 3), (''MEDIA_XFP'', 4), (''MEDIA_SFP_PLUS'', 5),
          (''MEDIA_BASE_T'', 6), (''MEDIA_QSFP_PLUS'', 7)] [],
        Field ''MMD_MASK'' 48 4 1 
         [(''MMD_CLAUSE22'', 0), (''MMD_CLAUSE45_PMAPMD'', 1), (''MMD_CLAUSE45_WIS'', 2), (''MMD_CLAUSE45_PCS'', 3),
          (''MMD_CLAUSE45_PHYXS'', 4), (''MMD_CLAUSE45_DTEXS'', 5), (''MMD_CLAUSE45_TC'', 6),
          (''MMD_CLAUSE45_AN'', 7), (''MMD_CLAUSE45_C22EXT'', 29), (''MMD_CLAUSE45_VEND1'', 30),
          (''MMD_CLAUSE45_VEND2'', 31)] [],
        octets ''REVISION'' 52 20]\<rparr>"

definition MC_CMD_GET_LINK_IN :: mc_message where
  "MC_CMD_GET_LINK_IN =
     \<lparr>mc_code = 0x29, mc_lenmin = 0, mc_lenmax = 0, mc_step = 0, mc_unions = [], mc_fields = []\<rparr>"

definition MC_CMD_GET_LINK_OUT :: mc_message where
  "MC_CMD_GET_LINK_OUT =
     \<lparr>mc_code = 0x29, mc_lenmin = 28, mc_lenmax = 28, mc_step = 0, mc_unions = [], mc_fields =
       [f32 ''CAP'' 0,
        f32 ''LP_CAP'' 4,
        f32 ''LINK_SPEED'' 8,
        Field ''LOOPBACK_MODE'' 12 4 1 LOOPBACK_MODES [],
        Field ''FLAGS'' 16 4 1 
         [] [(''LINK_UP'', 0, 1), (''FULL_DUPLEX'', 1, 1), (''BPX_LINK'', 2, 1), (''PHY_LINK'', 3, 1),
          (''LINK_FAULT_RX'', 6, 1), (''LINK_FAULT_TX'', 7, 1)],
        Field ''FCNTL'' 20 4 1 FCNTL_MODES [],
        Field ''MAC_FAULT'' 24 4 1 
         [] [(''MAC_FAULT_XGMII_LOCAL'', 0, 1), (''MAC_FAULT_XGMII_REMOTE'', 1, 1), (''MAC_FAULT_SGMII_REMOTE'', 2, 1),
          (''MAC_FAULT_PENDING_RECONFIG'', 3, 1)]]\<rparr>"

definition MC_CMD_SET_LINK_IN :: mc_message where
  "MC_CMD_SET_LINK_IN =
     \<lparr>mc_code = 0x2a, mc_lenmin = 16, mc_lenmax = 16, mc_step = 0, mc_unions = [], mc_fields =
       [f32 ''CAP'' 0,
        Field ''FLAGS'' 4 4 1 
         [] [(''LOWPOWER'', 0, 1), (''POWEROFF'', 1, 1), (''TXDIS'', 2, 1)],
        Field ''LOOPBACK_MODE'' 8 4 1 LOOPBACK_MODES [],
        f32 ''LOOPBACK_SPEED'' 12]\<rparr>"

definition MC_CMD_SET_MAC_IN :: mc_message where
  "MC_CMD_SET_MAC_IN =
     \<lparr>mc_code = 0x2c, mc_lenmin = 28, mc_lenmax = 28, mc_step = 0, mc_unions = [], mc_fields =
       [f32 ''MTU'' 0,
        f32 ''DRAIN'' 4,
        f64 ''ADDR'' 8,
        Field ''REJECT'' 16 4 1 [] [(''REJECT_UNCST'', 0, 1), (''REJECT_BRDCST'', 1, 1)],
        Field ''FCNTL'' 20 4 1 FCNTL_MODES [],
        Field ''FLAGS'' 24 4 1 [] [(''FLAG_INCLUDE_FCS'', 0, 1)]]\<rparr>"

subsection \<open>Queues\<close>

definition MC_CMD_INIT_EVQ_IN :: mc_message where
  "MC_CMD_INIT_EVQ_IN =
     \<lparr>mc_code = 0x80, mc_lenmin = 44, mc_lenmax = 548, mc_step = 8, mc_unions = [(''IRQ_NUM'', ''TARGET_EVQ'')], mc_fields =
       [f32 ''SIZE'' 0,
        f32 ''INSTANCE'' 4,
        f32 ''TMR_LOAD'' 8,
        f32 ''TMR_RELOAD'' 12,
        Field ''FLAGS'' 16 4 1 
         [] [(''FLAG_INTERRUPTING'', 0, 1), (''FLAG_RPTR_DOS'', 1, 1), (''FLAG_INT_ARMD'', 2, 1),
          (''FLAG_CUT_THRU'', 3, 1), (''FLAG_RX_MERGE'', 4, 1), (''FLAG_TX_MERGE'', 5, 1), (''FLAG_USE_TIMER'', 6, 1)],
        Field ''TMR_MODE'' 20 4 1 
         [(''TMR_MODE_DIS'', 0), (''TMR_IMMED_START'', 1), (''TMR_TRIG_START'', 2), (''TMR_INT_HLDOFF'', 3)] [],
        f32 ''TARGET_EVQ'' 24,
        Field ''COUNT_MODE'' 28 4 1 
         [(''COUNT_MODE_DIS'', 0), (''COUNT_MODE_RX'', 1), (''COUNT_MODE_TX'', 2), (''COUNT_MODE_RXTX'', 3)] [],
        f32 ''COUNT_THRSHLD'' 32,
        f64 ''DMA_ADDR'' 36]\<rparr>"

definition MC_CMD_INIT_EVQ_OUT :: mc_message where
  "MC_CMD_INIT_EVQ_OUT =
     \<lparr>mc_code = 0x80, mc_lenmin = 4, mc_lenmax = 4, mc_step = 0, mc_unions = [], mc_fields =
       [f32 ''IRQ'' 0]\<rparr>"

definition MC_CMD_INIT_RXQ_IN :: mc_message where
  "MC_CMD_INIT_RXQ_IN =
     \<lparr>mc_code = 0x81, mc_lenmin = 36, mc_lenmax = 252, mc_step = 8, mc_unions = [], mc_fields =
       [f32 ''SIZE'' 0,
        f32 ''TARGET_EVQ'' 4,
        f32 ''LABEL'' 8,
        f32 ''INSTANCE'' 12,
        Field ''FLAGS'' 16 4 1 
         [] [(''FLAG_BUFF_MODE'', 0, 1), (''FLAG_HDR_SPLIT'', 1, 1), (''FLAG_TIMESTAMP'', 2, 1), (''CRC_MODE'', 3, 4),
          (''FLAG_CHAIN'', 7, 1), (''FLAG_PREFIX'', 8, 1), (''FLAG_DISABLE_SCATTER'', 9, 1), (''UNUSED'', 10, 1)],
        f32 ''OWNER_ID'' 20,
        f32 ''PORT_ID'' 24,
        f64 ''DMA_ADDR'' 28]\<rparr>"

definition MC_CMD_INIT_TXQ_IN :: mc_message where
  "MC_CMD_INIT_TXQ_IN =
     \<lparr>mc_code = 0x82, mc_lenmin = 36, mc_lenmax = 252, mc_step = 8, mc_unions = [], mc_fields =
       [f32 ''SIZE'' 0,
        f32 ''TARGET_EVQ'' 4,
        f32 ''LABEL'' 8,
        f32 ''INSTANCE'' 12,
        Field ''FLAGS'' 16 4 1 
         [] [(''FLAG_BUFF_MODE'', 0, 1), (''FLAG_IP_CSUM_DIS'', 1, 1), (''FLAG_TCP_CSUM_DIS'', 2, 1),
          (''FLAG_TCP_UDP_ONLY'', 3, 1), (''CRC_MODE'', 4, 4), (''FLAG_TIMESTAMP'', 8, 1),
          (''FLAG_PACER_BYPASS'', 9, 1), (''FLAG_INNER_IP_CSUM_EN'', 10, 1), (''FLAG_INNER_TCP_CSUM_EN'', 11, 1)],
        f32 ''OWNER_ID'' 20,
        f32 ''PORT_ID'' 24,
        f64 ''DMA_ADDR'' 28]\<rparr>"

definition MC_CMD_FINI_EVQ_IN :: mc_message where
  "MC_CMD_FINI_EVQ_IN =
     \<lparr>mc_code = 0x83, mc_lenmin = 4, mc_lenmax = 4, mc_step = 0, mc_unions = [], mc_fields =
       [f32 ''INSTANCE'' 0]\<rparr>"

definition MC_CMD_FINI_RXQ_IN :: mc_message where
  "MC_CMD_FINI_RXQ_IN =
     \<lparr>mc_code = 0x84, mc_lenmin = 4, mc_lenmax = 4, mc_step = 0, mc_unions = [], mc_fields =
       [f32 ''INSTANCE'' 0]\<rparr>"

definition MC_CMD_FINI_TXQ_IN :: mc_message where
  "MC_CMD_FINI_TXQ_IN =
     \<lparr>mc_code = 0x85, mc_lenmin = 4, mc_lenmax = 4, mc_step = 0, mc_unions = [], mc_fields =
       [f32 ''INSTANCE'' 0]\<rparr>"

subsection \<open>VIs, vAdaptor, filters\<close>

definition MC_CMD_ALLOC_VIS_IN :: mc_message where
  "MC_CMD_ALLOC_VIS_IN =
     \<lparr>mc_code = 0x8b, mc_lenmin = 8, mc_lenmax = 8, mc_step = 0, mc_unions = [], mc_fields =
       [f32 ''MIN_VI_COUNT'' 0,
        f32 ''MAX_VI_COUNT'' 4]\<rparr>"

definition MC_CMD_ALLOC_VIS_OUT :: mc_message where
  "MC_CMD_ALLOC_VIS_OUT =
     \<lparr>mc_code = 0x8b, mc_lenmin = 8, mc_lenmax = 8, mc_step = 0, mc_unions = [], mc_fields =
       [f32 ''VI_COUNT'' 0,
        f32 ''VI_BASE'' 4]\<rparr>"

definition MC_CMD_FREE_VIS_IN :: mc_message where
  "MC_CMD_FREE_VIS_IN =
     \<lparr>mc_code = 0x8c, mc_lenmin = 0, mc_lenmax = 0, mc_step = 0, mc_unions = [], mc_fields = []\<rparr>"

definition MC_CMD_VADAPTOR_ALLOC_IN :: mc_message where
  "MC_CMD_VADAPTOR_ALLOC_IN =
     \<lparr>mc_code = 0x98, mc_lenmin = 30, mc_lenmax = 30, mc_step = 0, mc_unions = [], mc_fields =
       [f32 ''UPSTREAM_PORT_ID'' 0,
        Field ''FLAGS'' 8 4 1 
         [] [(''FLAG_AUTO_VADAPTOR'', 0, 1), (''FLAG_PERMIT_SET_MAC_WHEN_FILTERS_INSTALLED'', 1, 1)],
        f32 ''NUM_VLANS'' 12,
        f32 ''NUM_VLAN_TAGS'' 16,
        Field ''VLAN_TAGS'' 20 4 1 [] [(''VLAN_TAG_0'', 0, 16), (''VLAN_TAG_1'', 16, 16)],
        Field ''MACADDR'' 24 6 1 [(''AUTO_MAC'', 0)] []]\<rparr>"

definition MC_CMD_VADAPTOR_FREE_IN :: mc_message where
  "MC_CMD_VADAPTOR_FREE_IN =
     \<lparr>mc_code = 0x99, mc_lenmin = 4, mc_lenmax = 4, mc_step = 0, mc_unions = [], mc_fields =
       [f32 ''UPSTREAM_PORT_ID'' 0]\<rparr>"

definition MC_CMD_FILTER_OP_IN :: mc_message where
  "MC_CMD_FILTER_OP_IN =
     \<lparr>mc_code = 0x8a, mc_lenmin = 108, mc_lenmax = 108, mc_step = 0, mc_unions = [], mc_fields =
       [Field ''OP'' 0 4 1 FILTER_OPS [],
        f64 ''HANDLE'' 4,
        f32 ''PORT_ID'' 12,
        Field ''MATCH_FIELDS'' 16 4 1 
         [] [(''MATCH_SRC_IP'', 0, 1), (''MATCH_DST_IP'', 1, 1), (''MATCH_SRC_MAC'', 2, 1), (''MATCH_SRC_PORT'', 3, 1),
          (''MATCH_DST_MAC'', 4, 1), (''MATCH_DST_PORT'', 5, 1), (''MATCH_ETHER_TYPE'', 6, 1),
          (''MATCH_INNER_VLAN'', 7, 1), (''MATCH_OUTER_VLAN'', 8, 1), (''MATCH_IP_PROTO'', 9, 1),
          (''MATCH_FWDEF0'', 10, 1), (''MATCH_FWDEF1'', 11, 1), (''MATCH_UNKNOWN_MCAST_DST'', 30, 1),
          (''MATCH_UNKNOWN_UCAST_DST'', 31, 1)],
        Field ''RX_DEST'' 20 4 1 
         [(''RX_DEST_DROP'', 0), (''RX_DEST_HOST'', 1), (''RX_DEST_MC'', 2), (''RX_DEST_TX0'', 3),
          (''RX_DEST_TX1'', 4)] [],
        f32 ''RX_QUEUE'' 24,
        Field ''RX_MODE'' 28 4 1 
         [(''RX_MODE_SIMPLE'', 0), (''RX_MODE_RSS'', 1), (''RX_MODE_DOT1P_MAPPING'', 2),
          (''RX_MODE_TEST_NEVER_MATCH'', 0x80000000)] [],
        f32 ''RX_CONTEXT'' 32,
        f32 ''TX_DOMAIN'' 36,
        Field ''TX_DEST'' 40 4 1 [(''TX_DEST_DEFAULT'', 0xffffffff)] [(''TX_DEST_MAC'', 0, 1), (''TX_DEST_PM'', 1, 1)],
        octets ''SRC_MAC'' 44 6,
        octets ''SRC_PORT'' 50 2,
        octets ''DST_MAC'' 52 6,
        octets ''DST_PORT'' 58 2,
        octets ''ETHER_TYPE'' 60 2,
        octets ''INNER_VLAN'' 62 2,
        octets ''OUTER_VLAN'' 64 2,
        octets ''IP_PROTO'' 66 2,
        f32 ''FWDEF0'' 68,
        f32 ''FWDEF1'' 72,
        octets ''SRC_IP'' 76 16,
        octets ''DST_IP'' 92 16]\<rparr>"

definition MC_CMD_FILTER_OP_OUT :: mc_message where
  "MC_CMD_FILTER_OP_OUT =
     \<lparr>mc_code = 0x8a, mc_lenmin = 12, mc_lenmax = 12, mc_step = 0, mc_unions = [], mc_fields =
       [Field ''OP'' 0 4 1 FILTER_OPS [],
        Field ''HANDLE'' 4 8 1 
         [(''HANDLE_LO_INVALID'', 0xffffffff), (''HANDLE_HI_INVALID'', 0xffffffff)] []]\<rparr>"

section \<open>The reference encoder\<close>

definition fd_end :: "mc_field \<Rightarrow> nat" where
  "fd_end f = fd_ofst f + fd_len f * fd_num f"

definition dword :: "mc_field \<Rightarrow> bool" where
  "dword f \<longleftrightarrow> fd_len f = 4 \<and> fd_num f = 1"

definition plain :: "mc_field \<Rightarrow> bool" where
  "plain f \<longleftrightarrow> fd_enum f = [] \<and> fd_bits f = []"

text \<open>The bits of a word that have a name, and the words a field may hold.\<close>

definition bits_mask :: "(string \<times> nat \<times> nat) list \<Rightarrow> u32" where
  "bits_mask bs = foldr (\<lambda>(n, lbn, width) m. push_bit lbn (mask width) OR m) bs 0"

definition value_ok :: "mc_field \<Rightarrow> u32 \<Rightarrow> bool" where
  "value_ok f v \<longleftrightarrow> plain f \<or> v \<in> set (map snd (fd_enum f)) \<or> fd_bits f \<noteq> [] \<and> v AND NOT (bits_mask (fd_bits f)) = 0"

text \<open>A request of the protocol: of an allowed length, every word field holding an allowed value, every byte that
  belongs to no field zero.\<close>

definition request_ok :: "mc_message \<Rightarrow> u8 list \<Rightarrow> bool" where
  "request_ok m inp \<longleftrightarrow>
     mc_lenmin m \<le> length inp \<and> length inp \<le> mc_lenmax m \<and> (length inp - mc_lenmin m) mod mc_step m = 0
     \<and> list_all (\<lambda>f. dword f \<longrightarrow> value_ok f (get32 (fd_ofst f) inp)) (mc_fields m)
     \<and> list_all (\<lambda>i. inp ! i = 0 \<or> list_ex (\<lambda>f. fd_ofst f \<le> i \<and> i < fd_end f) (mc_fields m)) [0..<mc_lenmin m]"

text \<open>What a field is filled with: a number, a named value of a table, bytes, a value of the field's own enumeration,
  or named bit fields.\<close>

datatype mc_arg = Word u32 | Quad u64 | Octets "u8 list" | Enum string | Named "(string \<times> u32) list" string
  | Flags "(string \<times> u32) list"

definition dword_bytes :: "u32 \<Rightarrow> u8 list" where
  "dword_bytes v = [byte_of 0 v, byte_of 1 v, byte_of 2 v, byte_of 3 v]"

definition qword_bytes :: "u64 \<Rightarrow> u8 list" where
  "qword_bytes v = dword_bytes (ucast v) @ dword_bytes (ucast (drop_bit 32 v))"

fun bits_value :: "(string \<times> nat \<times> nat) list \<Rightarrow> (string \<times> u32) list \<Rightarrow> u32 option" where
  "bits_value bs [] = Some 0"
| "bits_value bs ((n, v) # xs) = do {
     (lbn, width) \<leftarrow> map_of bs n;
     r \<leftarrow> bits_value bs xs;
     if take_bit width v = v then Some (push_bit lbn v OR r) else None }"

fun arg_bytes :: "mc_field \<Rightarrow> mc_arg \<Rightarrow> u8 list option" where
  "arg_bytes f (Word v) = (if dword f \<and> plain f then Some (dword_bytes v) else None)"
| "arg_bytes f (Named tbl n) = (if dword f \<and> plain f then map_option dword_bytes (map_of tbl n) else None)"
| "arg_bytes f (Quad v) = (if fd_len f = 8 \<and> fd_num f = 1 \<and> plain f then Some (qword_bytes v) else None)"
| "arg_bytes f (Octets bs) = (if \<not> dword f \<and> length bs = fd_len f * fd_num f then Some bs else None)"
| "arg_bytes f (Enum n) = (if dword f then map_option dword_bytes (map_of (fd_enum f) n) else None)"
| "arg_bytes f (Flags xs) =
     (if dword f \<and> fd_bits f \<noteq> [] then map_option dword_bytes (bits_value (fd_bits f) xs) else None)"

definition resolve :: "mc_message \<Rightarrow> string \<Rightarrow> string" where
  "resolve m n = (case map_of (mc_unions m) n of Some k \<Rightarrow> k | None \<Rightarrow> n)"

definition field_named :: "mc_message \<Rightarrow> string \<Rightarrow> mc_field option" where
  "field_named m n = find (\<lambda>f. fd_name f = resolve m n) (mc_fields m)"

definition field_bytes :: "mc_field \<Rightarrow> u8 list \<Rightarrow> u8 list" where
  "field_bytes f buf = take (fd_end f - fd_ofst f) (drop (fd_ofst f) buf)"

fun write_args :: "mc_message \<Rightarrow> (string \<times> mc_arg) list \<Rightarrow> u8 list \<Rightarrow> u8 list option" where
  "write_args m [] buf = Some buf"
| "write_args m ((n, a) # args) buf = do {
     f \<leftarrow> field_named m n;
     bs \<leftarrow> arg_bytes f a;
     write_args m args (put_bytes (fd_ofst f) bs buf) }"

text \<open>A field is left out only where zero is one of its values.\<close>

definition complete :: "mc_message \<Rightarrow> (string \<times> mc_arg) list \<Rightarrow> bool" where
  "complete m args \<longleftrightarrow>
     list_all (\<lambda>f. value_ok f 0 \<or> fd_name f \<in> set (map (resolve m \<circ> fst) args)) (mc_fields m)"

definition encode :: "mc_message \<Rightarrow> (string \<times> mc_arg) list \<Rightarrow> u8 list option" where
  "encode m args = (if complete m args then write_args m args (zeros (mc_lenmin m)) else None)"

section \<open>What a layout promises\<close>

fun ascending :: "nat \<Rightarrow> mc_field list \<Rightarrow> bool" where
  "ascending k [] \<longleftrightarrow> True"
| "ascending k (f # fs) \<longleftrightarrow> k \<le> fd_ofst f \<and> fd_ofst f < fd_end f \<and> ascending (fd_end f) fs"

definition message_wf :: "mc_message \<Rightarrow> bool" where
  "message_wf m \<longleftrightarrow>
     ascending 0 (mc_fields m) \<and> list_all (\<lambda>f. fd_end f \<le> mc_lenmin m) (mc_fields m) \<and> mc_lenmin m \<le> mc_lenmax m
     \<and> distinct (map fd_name (mc_fields m))"

definition carries :: "mc_message \<Rightarrow> (string \<times> mc_arg) list \<Rightarrow> u8 list \<Rightarrow> bool" where
  "carries m args buf \<longleftrightarrow>
     encode m args = Some buf \<and> request_ok m buf
     \<and> list_all (\<lambda>(n, a). \<exists>f. field_named m n = Some f \<and> arg_bytes f a = Some (field_bytes f buf)) args"

lemma dword_bytes_length [simp]: "length (dword_bytes v) = 4" "length (qword_bytes w) = 8"
  by (simp_all add: dword_bytes_def qword_bytes_def)

lemma put_bytes_dword: "put_bytes off (dword_bytes v) xs = put32 off v xs"
  by (simp add: dword_bytes_def put32_def eval_nat_numeral)

lemma put_bytes_append: "put_bytes off (as @ bs) xs = put_bytes (off + length as) bs (put_bytes off as xs)"
  by (induction as arbitrary: off xs) simp_all

lemma put_commute:
  "off + 4 \<le> off' \<or> off' + length bs \<le> off \<Longrightarrow> put32 off v (put_bytes off' bs xs) = put_bytes off' bs (put32 off v xs)"
proof (induction bs arbitrary: off' xs)
  case (Cons b bs)
  then have "put32 off v (xs[off' := b]) = (put32 off v xs)[off' := b]"
    by (auto simp: put32_def list_update_swap)
  with Cons show ?case by auto
qed simp

lemma put_bytes_qword: "put_bytes off (qword_bytes v) xs = put64 off v xs"
  by (simp add: qword_bytes_def put_bytes_append put_bytes_dword put64_def)

lemma bits_mask_hit:
  "(n, lbn, width) \<in> set bs \<Longrightarrow> take_bit width v = v \<Longrightarrow> push_bit lbn v AND NOT (bits_mask bs) = (0 :: u32)"
proof (rule bit_word_eqI)
  fix i assume b: "(n, lbn, width) \<in> set bs" "take_bit width v = v" and i: "i < LENGTH(32)"
  have m: "bit (bits_mask bs) i \<longleftrightarrow> (\<exists>(n, l, w) \<in> set bs. bit (push_bit l (mask w) :: u32) i)" for bs
    by (induction bs) (auto simp: bits_mask_def bit_simps)
  have "bit v j \<Longrightarrow> j < width" for j using arg_cong [OF b(2), of "\<lambda>x. bit x j"] by (auto simp: bit_simps)
  then show "bit (push_bit lbn v AND NOT (bits_mask bs)) i = bit (0 :: u32) i"
    using b(1) i by (force simp: m bit_simps intro: bexI [of _ "(n, lbn, width)"])
qed

lemma bits_value_mask: "bits_value bs xs = Some r \<Longrightarrow> r AND NOT (bits_mask bs) = 0"
proof (induction xs arbitrary: r)
  case (Cons x xs)
  obtain n v where x: "x = (n, v)" by (cases x)
  from Cons.prems obtain l w r' where r: "map_of bs n = Some (l, w)" "bits_value bs xs = Some r'" "take_bit w v = v" "r = push_bit l v OR r'"
    by (auto simp: x bind_eq_Some_conv split: if_splits)
  have "push_bit l v AND NOT (bits_mask bs) = 0" by (rule bits_mask_hit [OF map_of_SomeD [OF r(1)] r(3)])
  with Cons.IH [OF r(2)] show ?case by (simp add: r(4) bit.conj_disj_distrib2)
qed simp

text \<open>What an argument puts into its field: as many bytes as the field has, and for a word an allowed value.\<close>

lemma arg_bytes_length: "arg_bytes f a = Some bs \<Longrightarrow> length bs = fd_end f - fd_ofst f"
  by (cases a) (auto simp: dword_def fd_end_def split: if_splits)

lemma arg_bytes_value: "arg_bytes f a = Some bs \<Longrightarrow> dword f \<Longrightarrow> \<exists>v. bs = dword_bytes v \<and> value_ok f v"
proof (cases a)
  case (Enum n)
  assume "arg_bytes f a = Some bs" "dword f"
  then obtain v where "map_of (fd_enum f) n = Some v" "bs = dword_bytes v" by (auto simp: Enum)
  then show ?thesis by (metis map_of_SomeD image_eqI snd_conv value_ok_def set_map)
qed (auto simp: value_ok_def dword_def dest: bits_value_mask split: if_splits)

lemma ascending_apart:
  "ascending k fs \<Longrightarrow> f \<in> set fs \<Longrightarrow> k \<le> fd_ofst f \<and> fd_ofst f < fd_end f"
  by (induction fs arbitrary: k) fastforce+

lemma ascending_disjoint:
  "ascending k fs \<Longrightarrow> f \<in> set fs \<Longrightarrow> g \<in> set fs \<Longrightarrow> f \<noteq> g \<Longrightarrow> fd_end f \<le> fd_ofst g \<or> fd_end g \<le> fd_ofst f"
  by (induction fs arbitrary: k) (auto dest: ascending_apart)

lemma write_args_length: "write_args m args buf = Some buf' \<Longrightarrow> length buf' = length buf"
  by (induction m args buf rule: write_args.induct) (auto simp: bind_eq_Some_conv)

lemma field_named_in: "field_named m n = Some f \<Longrightarrow> f \<in> set (mc_fields m) \<and> fd_name f = resolve m n"
  by (auto simp: field_named_def find_Some_iff)

locale mc_layout =
  fixes m :: mc_message
  assumes wf: "message_wf m"
begin

lemma field_place: "f \<in> set (mc_fields m) \<Longrightarrow> fd_ofst f < fd_end f \<and> fd_end f \<le> mc_lenmin m"
  using wf ascending_apart [of 0 "mc_fields m" f] by (auto simp: message_wf_def list_all_iff)

lemma fields_apart: "f \<in> set (mc_fields m) \<Longrightarrow> g \<in> set (mc_fields m) \<Longrightarrow> f \<noteq> g \<Longrightarrow> fd_end f \<le> fd_ofst g \<or> fd_end g \<le> fd_ofst f"
  using wf ascending_disjoint [of 0 "mc_fields m" f g] by (auto simp: message_wf_def)

lemma name_inj: "f \<in> set (mc_fields m) \<Longrightarrow> g \<in> set (mc_fields m) \<Longrightarrow> fd_name f = fd_name g \<Longrightarrow> f = g"
  using wf by (auto simp: message_wf_def distinct_map inj_on_def)

text \<open>One store: the field reads back, every other field keeps its bytes.\<close>

lemma store_other:
  assumes "f \<in> set (mc_fields m)" "g \<in> set (mc_fields m)" "f \<noteq> g" "length bs = fd_end f - fd_ofst f"
  shows "field_bytes g (put_bytes (fd_ofst f) bs buf) = field_bytes g buf"
proof -
  have p: "fd_ofst f < fd_end f" "fd_ofst g < fd_end g" using field_place assms(1,2) by blast+
  show ?thesis
    unfolding field_bytes_def
    by (rule nth_equalityI) (use fields_apart [OF assms(1-3)] assms(4) p in \<open>auto intro!: nth_put_bytes_out\<close>)
qed

lemma store_same:
  assumes "f \<in> set (mc_fields m)" "length bs = fd_end f - fd_ofst f" "length buf = mc_lenmin m"
  shows "field_bytes f (put_bytes (fd_ofst f) bs buf) = bs"
  unfolding field_bytes_def
  by (rule nth_equalityI) (use field_place [OF assms(1)] assms in \<open>auto simp: nth_put_bytes_in\<close>)

lemma word_field:
  assumes "f \<in> set (mc_fields m)" "dword f" "length buf = mc_lenmin m" "field_bytes f buf = dword_bytes v"
  shows "get32 (fd_ofst f) buf = v"
proof -
  have p: "fd_end f = fd_ofst f + 4" "fd_ofst f + 4 \<le> length buf"
    using field_place [OF assms(1)] assms(2,3) by (auto simp: dword_def fd_end_def)
  have "buf ! (fd_ofst f + i) = dword_bytes v ! i" if "i < 4" for i
    using arg_cong [OF assms(4), of "\<lambda>xs. xs ! i"] that p by (simp add: field_bytes_def)
  from this [of 0] this [of 1] this [of 2] this [of 3] show ?thesis
    by (simp add: get32_def dword_bytes_def byte_simps)
qed

lemma write_args_other:
  "write_args m args buf = Some buf' \<Longrightarrow> g \<in> set (mc_fields m) \<Longrightarrow> fd_name g \<notin> set (map (resolve m \<circ> fst) args) \<Longrightarrow>
   field_bytes g buf' = field_bytes g buf"
proof (induction args arbitrary: buf)
  case (Cons x args)
  obtain n a where x: "x = (n, a)" by (cases x)
  from Cons.prems(1) obtain f bs where f: "field_named m n = Some f" "arg_bytes f a = Some bs"
      "write_args m args (put_bytes (fd_ofst f) bs buf) = Some buf'"
    by (auto simp: x bind_eq_Some_conv)
  have "f \<noteq> g" using field_named_in [OF f(1)] Cons.prems(3) by (auto simp: x)
  then show ?case
    using Cons.IH [OF f(3)] store_other [of f g bs buf] field_named_in [OF f(1)] arg_bytes_length [OF f(2)] Cons.prems(2,3) by simp
qed simp

text \<open>Every argument reads back from the buffer the encoder fills.\<close>

lemma write_args_reads:
  assumes "write_args m args buf = Some buf'" "length buf = mc_lenmin m" "distinct (map (resolve m \<circ> fst) args)"
    "(n, a) \<in> set args" "field_named m n = Some f"
  shows "arg_bytes f a = Some (field_bytes f buf')"
  using assms
proof (induction args arbitrary: buf)
  case (Cons x args)
  obtain n' a' where x: "x = (n', a')" by (cases x)
  from Cons.prems(1) obtain g bs where g: "field_named m n' = Some g" "arg_bytes g a' = Some bs"
      "write_args m args (put_bytes (fd_ofst g) bs buf) = Some buf'"
    by (auto simp: x bind_eq_Some_conv)
  show ?case
  proof (cases "(n, a) = (n', a')")
    case True
    then have fg: "f = g" using g(1) Cons.prems(5) by simp
    have "field_bytes g buf' = field_bytes g (put_bytes (fd_ofst g) bs buf)"
      by (rule write_args_other [OF g(3)]) (use field_named_in [OF g(1)] Cons.prems(3) in \<open>auto simp: x\<close>)
    with True fg g(2) show ?thesis
      using store_same [of g bs buf] field_named_in [OF g(1)] arg_bytes_length [OF g(2)] Cons.prems(2) by simp
  next
    case False
    then show ?thesis using Cons.IH [OF g(3)] Cons.prems by (auto simp: x)
  qed
qed simp

lemma decode_encode:
  assumes "encode m args = Some buf" "distinct (map (resolve m \<circ> fst) args)" "(n, a) \<in> set args" "field_named m n = Some f"
  shows "arg_bytes f a = Some (field_bytes f buf)"
  using write_args_reads [OF _ _ assms(2-4), of "zeros (mc_lenmin m)" buf] assms(1) by (simp add: encode_def split: if_splits)

text \<open>The encoder only builds requests of the protocol.\<close>

definition sound :: "string set \<Rightarrow> u8 list \<Rightarrow> bool" where
  "sound N buf \<longleftrightarrow> length buf = mc_lenmin m
     \<and> (\<forall>f \<in> set (mc_fields m). dword f \<longrightarrow> fd_name f \<in> N \<longrightarrow> value_ok f (get32 (fd_ofst f) buf))
     \<and> (\<forall>i < mc_lenmin m. buf ! i = 0 \<or> (\<exists>f \<in> set (mc_fields m). fd_ofst f \<le> i \<and> i < fd_end f))"

lemma sound_store:
  assumes "sound N buf" "f \<in> set (mc_fields m)" "arg_bytes f a = Some bs"
  shows "sound (insert (fd_name f) N) (put_bytes (fd_ofst f) bs buf)"
proof -
  let ?b = "put_bytes (fd_ofst f) bs buf"
  note l = arg_bytes_length [OF assms(3)] and p = field_place [OF assms(2)]
  have len: "length buf = mc_lenmin m" using assms(1) by (simp add: sound_def)
  have "value_ok g (get32 (fd_ofst g) ?b)" if g: "g \<in> set (mc_fields m)" "dword g" "fd_name g \<in> insert (fd_name f) N" for g
  proof (cases "g = f")
    case True
    obtain v where v: "bs = dword_bytes v" "value_ok f v" using arg_bytes_value [OF assms(3)] g(2) True by blast
    have "get32 (fd_ofst f) ?b = v"
      using word_field [OF assms(2), of ?b v] store_same [OF assms(2) l len] g(2) True v(1) len by simp
    with v(2) True show ?thesis by simp
  next
    case False
    then have "fd_name g \<in> N" using g name_inj assms(2) by auto
    moreover have "get32 (fd_ofst g) ?b = get32 (fd_ofst g) buf"
      by (rule get32_put_bytes_other) (use fields_apart [OF assms(2) g(1)] False l p g(2) in \<open>auto simp: dword_def fd_end_def\<close>)
    ultimately show ?thesis using assms(1) g by (simp add: sound_def)
  qed
  moreover have "?b ! i = 0 \<or> (\<exists>f \<in> set (mc_fields m). fd_ofst f \<le> i \<and> i < fd_end f)" if "i < mc_lenmin m" for i
  proof (cases "fd_ofst f \<le> i \<and> i < fd_end f")
    case False
    then have "?b ! i = buf ! i" by (intro nth_put_bytes_out) (use l p in auto)
    with assms(1) that show ?thesis by (simp add: sound_def)
  qed (use assms(2) in auto)
  ultimately show ?thesis using len by (simp add: sound_def)
qed

lemma sound_write:
  "write_args m args buf = Some buf' \<Longrightarrow> sound N buf \<Longrightarrow> sound (N \<union> set (map (resolve m \<circ> fst) args)) buf'"
proof (induction args arbitrary: buf N)
  case (Cons x args)
  obtain n a where x: "x = (n, a)" by (cases x)
  from Cons.prems(1) obtain f bs where f: "field_named m n = Some f" "arg_bytes f a = Some bs"
      "write_args m args (put_bytes (fd_ofst f) bs buf) = Some buf'"
    by (auto simp: x bind_eq_Some_conv)
  note fn = field_named_in [OF f(1)]
  from Cons.IH [OF f(3) sound_store [OF Cons.prems(2) conjunct1 [OF fn] f(2)]] fn
  show ?case by (simp add: x)
qed simp

lemma encode_ok:
  assumes "encode m args = Some buf"
  shows "request_ok m buf"
proof -
  let ?Z = "{fd_name f |f. f \<in> set (mc_fields m) \<and> value_ok f 0}"
  from assms have c: "complete m args" "write_args m args (zeros (mc_lenmin m)) = Some buf"
    by (auto simp: encode_def split: if_splits)
  have z: "get32 (fd_ofst f) (zeros (mc_lenmin m)) = 0" if "f \<in> set (mc_fields m)" "dword f" for f
    using field_place [OF that(1)] that(2) by (simp add: dword_def fd_end_def get32_def le32_def)
  have "sound ?Z (zeros (mc_lenmin m))"
    unfolding sound_def by (auto simp: z dest: name_inj)
  from sound_write [OF c(2) this] have s: "sound (?Z \<union> set (map (resolve m \<circ> fst) args)) buf" .
  have "fd_name f \<in> ?Z \<union> set (map (resolve m \<circ> fst) args)" if "f \<in> set (mc_fields m)" for f
    using c(1) that by (auto simp: complete_def list_all_iff)
  with s show ?thesis
    using wf by (auto simp: sound_def request_ok_def message_wf_def list_all_iff list_ex_iff)
qed

text \<open>What a request holds in a field that is not a word, and whether it fills it, does not matter to the check.\<close>

lemma octets_ok:
  assumes "request_ok m buf" "f \<in> set (mc_fields m)" "\<not> dword f" "length bs \<le> fd_end f - fd_ofst f"
  shows "request_ok m (put_bytes (fd_ofst f) bs buf)"
proof -
  let ?b = "put_bytes (fd_ofst f) bs buf"
  note p = field_place [OF assms(2)]
  have "get32 (fd_ofst g) ?b = get32 (fd_ofst g) buf" if g: "g \<in> set (mc_fields m)" "dword g" for g
  proof -
    have "f \<noteq> g" using assms(3) g(2) by blast
    from fields_apart [OF assms(2) g(1) this] show ?thesis
      by (intro get32_put_bytes_other) (use assms(4) p g(2) in \<open>auto simp: dword_def fd_end_def\<close>)
  qed
  moreover have "?b ! i = 0 \<or> (\<exists>g \<in> set (mc_fields m). fd_ofst g \<le> i \<and> i < fd_end g)" if i: "i < mc_lenmin m" for i
  proof (cases "i < fd_ofst f \<or> fd_ofst f + length bs \<le> i")
    case True
    then have "?b ! i = buf ! i" by (rule nth_put_bytes_out)
    moreover have "buf ! i = 0 \<or> (\<exists>g \<in> set (mc_fields m). fd_ofst g \<le> i \<and> i < fd_end g)"
      using assms(1) i by (simp add: request_ok_def list_all_iff list_ex_iff)
    ultimately show ?thesis by simp
  next
    case False
    with assms(2,4) p show ?thesis by force
  qed
  ultimately show ?thesis
    using assms(1) by (simp add: request_ok_def list_all_iff list_ex_iff)
qed

text \<open>A buffer carries the arguments: it is their encoding, a request of the protocol, and every argument reads back.\<close>

lemma carried:
  assumes "encode m args = Some buf" "distinct (map (resolve m \<circ> fst) args)"
  shows "carries m args buf"
proof -
  have "\<exists>f. field_named m n = Some f \<and> arg_bytes f a = Some (field_bytes f buf)" if "(n, a) \<in> set args" for n a
  proof -
    have "\<exists>f. field_named m n = Some f" if "write_args m args' b = Some b'" "(n, a) \<in> set args'" for args' b b'
      using that by (induction args' arbitrary: b) (auto simp: bind_eq_Some_conv)
    from this [of args "zeros (mc_lenmin m)" buf] assms(1) that obtain f where "field_named m n = Some f"
      by (auto simp: encode_def split: if_splits)
    with decode_encode [OF assms that] show ?thesis by blast
  qed
  then show ?thesis using assms encode_ok by (auto simp: carries_def list_all_iff)
qed

end

section \<open>The requests of the driver in the terms of the catalogue\<close>

lemmas layout_simps = message_wf_def fd_end_def LOOPBACK_MODES_def FCNTL_MODES_def FILTER_OPS_def

interpretation get_asserts_in: mc_layout MC_CMD_GET_ASSERTS_IN
  by unfold_locales (simp add: layout_simps MC_CMD_GET_ASSERTS_IN_def)

interpretation drv_attach_in: mc_layout MC_CMD_DRV_ATTACH_IN
  by unfold_locales (simp add: layout_simps MC_CMD_DRV_ATTACH_IN_def)

interpretation entity_reset_in: mc_layout MC_CMD_ENTITY_RESET_IN
  by unfold_locales (simp add: layout_simps MC_CMD_ENTITY_RESET_IN_def)

interpretation reboot_in: mc_layout MC_CMD_REBOOT_IN
  by unfold_locales (simp add: layout_simps MC_CMD_REBOOT_IN_def)

interpretation set_link_in: mc_layout MC_CMD_SET_LINK_IN
  by unfold_locales (simp add: layout_simps MC_CMD_SET_LINK_IN_def)

interpretation set_mac_in: mc_layout MC_CMD_SET_MAC_IN
  by unfold_locales (simp add: layout_simps MC_CMD_SET_MAC_IN_def)

interpretation init_evq_in: mc_layout MC_CMD_INIT_EVQ_IN
  by unfold_locales (simp add: layout_simps MC_CMD_INIT_EVQ_IN_def)

interpretation init_rxq_in: mc_layout MC_CMD_INIT_RXQ_IN
  by unfold_locales (simp add: layout_simps MC_CMD_INIT_RXQ_IN_def)

interpretation init_txq_in: mc_layout MC_CMD_INIT_TXQ_IN
  by unfold_locales (simp add: layout_simps MC_CMD_INIT_TXQ_IN_def)

interpretation fini_evq_in: mc_layout MC_CMD_FINI_EVQ_IN
  by unfold_locales (simp add: layout_simps MC_CMD_FINI_EVQ_IN_def)

interpretation fini_rxq_in: mc_layout MC_CMD_FINI_RXQ_IN
  by unfold_locales (simp add: layout_simps MC_CMD_FINI_RXQ_IN_def)

interpretation fini_txq_in: mc_layout MC_CMD_FINI_TXQ_IN
  by unfold_locales (simp add: layout_simps MC_CMD_FINI_TXQ_IN_def)

interpretation alloc_vis_in: mc_layout MC_CMD_ALLOC_VIS_IN
  by unfold_locales (simp add: layout_simps MC_CMD_ALLOC_VIS_IN_def)

interpretation vadaptor_alloc_in: mc_layout MC_CMD_VADAPTOR_ALLOC_IN
  by unfold_locales (simp add: layout_simps MC_CMD_VADAPTOR_ALLOC_IN_def)

interpretation vadaptor_free_in: mc_layout MC_CMD_VADAPTOR_FREE_IN
  by unfold_locales (simp add: layout_simps MC_CMD_VADAPTOR_FREE_IN_def)

interpretation filter_op_in: mc_layout MC_CMD_FILTER_OP_IN
  by unfold_locales (simp add: layout_simps MC_CMD_FILTER_OP_IN_def)

text \<open>Evaluating the encoder on named arguments.\<close>

lemmas encode_simps = encode_def complete_def value_ok_def plain_def bits_mask_def resolve_def field_named_def dword_def
  put_bytes_dword put_bytes_qword EVB_PORT_ID_def LOOPBACK_MODES_def FCNTL_MODES_def FILTER_OPS_def

definition clear_assertions_args :: "(string \<times> mc_arg) list" where
  "clear_assertions_args = [(''CLEAR'', Word 1)]"

definition entity_reset_args :: "(string \<times> mc_arg) list" where
  "entity_reset_args = [(''FLAG'', Flags [(''FUNCTION_RESOURCE_RESET'', 1)])]"

definition reboot_args :: "(string \<times> mc_arg) list" where
  "reboot_args = [(''FLAGS'', Enum ''REBOOT_FLAGS_AFTER_ASSERTION'')]"

definition drv_attach_args :: "bool \<Rightarrow> (string \<times> mc_arg) list" where
  "drv_attach_args attach =
     [(''NEW_STATE'', Flags [(''ATTACH'', if attach then 1 else 0)]), (''UPDATE'', Word 1), (''FIRMWARE_ID'', Enum ''FW_DONT_CARE'')]"

definition set_mac_args :: "u8 list \<Rightarrow> (string \<times> mc_arg) list" where
  "set_mac_args mac =
     [(''MTU'', Word SFC7120_DEFAULT_MAC_PDU), (''DRAIN'', Word 0), (''ADDR'', Octets (mac @ [0, 0])), (''REJECT'', Flags []),
      (''FCNTL'', Enum ''FCNTL_AUTO''), (''FLAGS'', Flags [])]"

definition set_link_args :: "u32 \<Rightarrow> (string \<times> mc_arg) list" where
  "set_link_args cap =
     [(''CAP'', Word cap), (''FLAGS'', Flags []), (''LOOPBACK_MODE'', Enum ''LOOPBACK_NONE''), (''LOOPBACK_SPEED'', Word 0)]"

text \<open>The control event queue (instance 0) interrupts, on its own vector; the data event queue is polled.\<close>

definition init_evq_args :: "u32 \<Rightarrow> u64 \<Rightarrow> nat \<Rightarrow> (string \<times> mc_arg) list" where
  "init_evq_args inst paddr nevs =
     [(''SIZE'', Word (of_nat nevs)), (''INSTANCE'', Word inst),
      (''FLAGS'', Flags ([(''FLAG_CUT_THRU'', 1), (''FLAG_RX_MERGE'', 1), (''FLAG_TX_MERGE'', 1)]
                         @ (if inst = 0 then [(''FLAG_INTERRUPTING'', 1)] else []))),
      (''IRQ_NUM'', Word 0), (''DMA_ADDR'', Quad paddr)]"

definition init_queue_args :: "string list \<Rightarrow> u32 \<Rightarrow> u32 \<Rightarrow> u64 \<Rightarrow> nat \<Rightarrow> (string \<times> mc_arg) list" where
  "init_queue_args flags inst target_evq ring_paddr ndescs =
     [(''SIZE'', Word (of_nat ndescs)), (''TARGET_EVQ'', Word target_evq), (''INSTANCE'', Word inst),
      (''FLAGS'', Flags (map (\<lambda>n. (n, 1)) flags)), (''PORT_ID'', Named EVB_PORT_ID ''ASSIGNED''), (''DMA_ADDR'', Quad ring_paddr)]"

definition fini_args :: "u32 \<Rightarrow> (string \<times> mc_arg) list" where
  "fini_args inst = [(''INSTANCE'', Word inst)]"

definition alloc_vis_args :: "u32 \<Rightarrow> u32 \<Rightarrow> (string \<times> mc_arg) list" where
  "alloc_vis_args lo hi = [(''MIN_VI_COUNT'', Word lo), (''MAX_VI_COUNT'', Word hi)]"

definition vadaptor_alloc_args :: "bool \<Rightarrow> (string \<times> mc_arg) list" where
  "vadaptor_alloc_args permit =
     [(''UPSTREAM_PORT_ID'', Named EVB_PORT_ID ''ASSIGNED''),
      (''FLAGS'', Flags (if permit then [(''FLAG_PERMIT_SET_MAC_WHEN_FILTERS_INSTALLED'', 1)] else []))]"

definition vadaptor_free_args :: "(string \<times> mc_arg) list" where
  "vadaptor_free_args = [(''UPSTREAM_PORT_ID'', Named EVB_PORT_ID ''ASSIGNED'')]"

definition filter_insert_args :: "u8 list \<Rightarrow> (string \<times> mc_arg) list" where
  "filter_insert_args mac =
     [(''OP'', Enum ''OP_INSERT''), (''PORT_ID'', Named EVB_PORT_ID ''ASSIGNED''), (''MATCH_FIELDS'', Flags [(''MATCH_DST_MAC'', 1)]),
      (''RX_DEST'', Enum ''RX_DEST_HOST''), (''RX_QUEUE'', Word 0), (''RX_MODE'', Enum ''RX_MODE_SIMPLE''),
      (''TX_DEST'', Enum ''TX_DEST_DEFAULT''), (''DST_MAC'', Octets mac)]"

definition filter_remove_args :: "u64 \<Rightarrow> (string \<times> mc_arg) list" where
  "filter_remove_args handle = [(''OP'', Enum ''OP_REMOVE''), (''HANDLE'', Quad handle)]"

lemma encode_state:
  "encode MC_CMD_GET_ASSERTS_IN clear_assertions_args = Some (put32 0 1 (zeros 4))"
  "encode MC_CMD_ENTITY_RESET_IN entity_reset_args = Some (put32 0 1 (zeros 4))"
  "encode MC_CMD_REBOOT_IN reboot_args = Some (put32 0 1 (zeros 4))"
  "encode MC_CMD_DRV_ATTACH_IN (drv_attach_args attach) = Some (drv_attach_in (if attach then 1 else 0))"
  by (simp_all add: encode_simps clear_assertions_args_def MC_CMD_GET_ASSERTS_IN_def entity_reset_args_def MC_CMD_ENTITY_RESET_IN_def
      reboot_args_def MC_CMD_REBOOT_IN_def drv_attach_args_def drv_attach_in_def MC_CMD_DRV_ATTACH_IN_def)

lemma encode_set_mac:
  assumes "length mac = 6"
  shows "encode MC_CMD_SET_MAC_IN (set_mac_args mac) =
    Some (put32 24 0 (put32 20 3 (put32 16 0 (put_bytes 8 (take 6 mac) (put32 4 0 (put32 0 SFC7120_DEFAULT_MAC_PDU (zeros 28)))))))"
proof -
  have "put_bytes 14 [0, 0] (put_bytes 8 mac (put32 4 0 (put32 0 v (zeros 28)))) = put_bytes 8 mac (put32 4 0 (put32 0 v (zeros 28)))" for v
    using assms by (intro nth_equalityI) (auto simp: nth_list_update nth_put_bytes_out put32_def)
  then show ?thesis
    using assms by (simp add: encode_simps set_mac_args_def MC_CMD_SET_MAC_IN_def put_bytes_append del: put_bytes.simps)
qed

lemma encode_set_link:
  "encode MC_CMD_SET_LINK_IN (set_link_args cap) = Some (put32 12 0 (put32 8 0 (put32 4 0 (put32 0 cap (zeros 16)))))"
  by (simp add: encode_simps set_link_args_def MC_CMD_SET_LINK_IN_def)

lemma encode_queues:
  "encode MC_CMD_INIT_EVQ_IN (init_evq_args inst paddr nevs) = Some (init_evq_in inst paddr nevs)"
  "encode MC_CMD_INIT_RXQ_IN (init_queue_args [''FLAG_PREFIX'', ''FLAG_DISABLE_SCATTER''] inst evq paddr n) =
     Some (init_queue_in (push_bit 8 1 OR push_bit 9 1) inst evq paddr n)"
  "encode MC_CMD_INIT_TXQ_IN (init_queue_args [''FLAG_IP_CSUM_DIS'', ''FLAG_TCP_CSUM_DIS''] inst evq paddr n) =
     Some (init_queue_in (push_bit 1 1 OR push_bit 2 1) inst evq paddr n)"
  by (simp_all add: encode_simps init_evq_args_def init_queue_args_def init_evq_in_def init_queue_in_def MC_CMD_INIT_EVQ_IN_def
      MC_CMD_INIT_RXQ_IN_def MC_CMD_INIT_TXQ_IN_def Let_def)

lemma encode_fini:
  "encode MC_CMD_FINI_EVQ_IN (fini_args inst) = Some (put32 0 inst (zeros 4))"
  "encode MC_CMD_FINI_RXQ_IN (fini_args inst) = Some (put32 0 inst (zeros 4))"
  "encode MC_CMD_FINI_TXQ_IN (fini_args inst) = Some (put32 0 inst (zeros 4))"
  by (simp_all add: encode_simps fini_args_def MC_CMD_FINI_EVQ_IN_def MC_CMD_FINI_RXQ_IN_def MC_CMD_FINI_TXQ_IN_def)

lemma encode_vis:
  "encode MC_CMD_ALLOC_VIS_IN (alloc_vis_args lo hi) = Some (put32 4 hi (put32 0 lo (zeros 8)))"
  "encode MC_CMD_VADAPTOR_ALLOC_IN (vadaptor_alloc_args permit) =
     Some (put32 8 (if permit then push_bit 1 1 else 0) (put32 0 EVB_PORT_ID_ASSIGNED (zeros 30)))"
  "encode MC_CMD_VADAPTOR_FREE_IN vadaptor_free_args = Some (put32 0 EVB_PORT_ID_ASSIGNED (zeros 4))"
  by (simp_all add: encode_simps alloc_vis_args_def vadaptor_alloc_args_def vadaptor_free_args_def MC_CMD_ALLOC_VIS_IN_def
      MC_CMD_VADAPTOR_ALLOC_IN_def MC_CMD_VADAPTOR_FREE_IN_def)

lemma encode_filter:
  "length mac = 6 \<Longrightarrow> encode MC_CMD_FILTER_OP_IN (filter_insert_args mac) = Some (filter_insert_in mac)"
  "encode MC_CMD_FILTER_OP_IN (filter_remove_args handle) = Some (filter_remove_in handle)"
proof -
  have "(ucast (handle AND 0xffffffff) :: u32) = ucast handle"
    by (rule bit_word_eqI) (simp add: mask_simps bit_simps)
  then show "encode MC_CMD_FILTER_OP_IN (filter_remove_args handle) = Some (filter_remove_in handle)"
    by (simp add: encode_simps filter_remove_args_def filter_remove_in_def MC_CMD_FILTER_OP_IN_def put64_def)
qed (simp add: encode_simps filter_insert_args_def filter_insert_in_def MC_CMD_FILTER_OP_IN_def)

end
