(* ===== verification/Requests.thy ===== *)
theory Requests
  imports Driver
begin

text \<open>
  What the MC is asked to do.  \<open>mc_requests\<close> reads the MC commands off the history; this theory follows it through every
  operation of the driver: which operations leave it alone (everything user space can reach, the interrupt, the setup of
  memory and interrupts), and that the others only add the requests \<open>sfc7120_mcdi_exec\<close> is called with.  The statements
  are about any run that returns; that the runs return is shown where the operations are.
\<close>

section \<open>Partial correctness of option computations\<close>

text \<open>A property of the commands a state has sent, and that every state a computation returns has it.  The projection
  says where the state is in the result: alone, or after one, two or three other components.\<close>

definition asks :: "((u32 \<times> u8 list) list \<Rightarrow> bool) \<Rightarrow> 'a world_scheme \<Rightarrow> bool" where
  "asks Q s \<longleftrightarrow> Q (mc_requests (io s))"

definition yields :: "('x \<Rightarrow> 'a world_scheme) \<Rightarrow> ((u32 \<times> u8 list) list \<Rightarrow> bool) \<Rightarrow> 'x option \<Rightarrow> bool" where
  "yields p Q r \<longleftrightarrow> (\<forall>x. r = Some x \<longrightarrow> asks Q (p x))"

abbreviation (input) "st1 \<equiv> \<lambda>s :: 'a world_scheme. s"
abbreviation (input) "st2 \<equiv> \<lambda>(a, s :: 'a world_scheme). s"
abbreviation (input) "st3 \<equiv> \<lambda>(a, b, s :: 'a world_scheme). s"
abbreviation (input) "st4 \<equiv> \<lambda>(a, b, c, s :: 'a world_scheme). s"

lemma yieldsD: "yields p Q r \<Longrightarrow> r = Some x \<Longrightarrow> asks Q (p x)"
  by (simp add: yields_def)

text \<open>One rule per construct.  A bind whose first part returns a state hands its property on; one that only reads
  something does not touch it.\<close>

lemma yields_basic:
  "asks Q (p x) \<Longrightarrow> yields p Q (Some x)" "yields p Q None"
  "(b \<Longrightarrow> yields p Q r) \<Longrightarrow> (\<not> b \<Longrightarrow> yields p Q r') \<Longrightarrow> yields p Q (if b then r else r')"
  by (simp_all add: yields_def)

lemma yields_cases:
  "(\<And>a b. x = (a, b) \<Longrightarrow> yields p Q (f a b)) \<Longrightarrow> yields p Q (case x of (a, b) \<Rightarrow> f a b)"
  "(y = None \<Longrightarrow> yields p Q r) \<Longrightarrow> (\<And>z. y = Some z \<Longrightarrow> yields p Q (g z)) \<Longrightarrow> yields p Q (case y of None \<Rightarrow> r | Some z \<Rightarrow> g z)"
  by (cases x; cases y; simp)+

lemma yields_state:
  "yields st1 Q m \<Longrightarrow> (\<And>s. asks Q s \<Longrightarrow> yields p Q (f s)) \<Longrightarrow> yields p Q (m \<bind> f)"
  "yields st2 Q m2 \<Longrightarrow> (\<And>a s. asks Q s \<Longrightarrow> yields p Q (f2 a s)) \<Longrightarrow> yields p Q (m2 \<bind> (\<lambda>(a, s). f2 a s))"
  "yields st3 Q m3 \<Longrightarrow> (\<And>a b s. asks Q s \<Longrightarrow> yields p Q (f3 a b s)) \<Longrightarrow> yields p Q (m3 \<bind> (\<lambda>(a, b, s). f3 a b s))"
  "yields st4 Q m4 \<Longrightarrow> (\<And>a b c s. asks Q s \<Longrightarrow> yields p Q (f4 a b c s)) \<Longrightarrow> yields p Q (m4 \<bind> (\<lambda>(a, b, c, s). f4 a b c s))"
  by (fastforce simp: yields_def bind_eq_Some_conv)+

lemma yields_value:
  fixes m1 :: "mtx option" and m2 :: "unit option" and m3 :: "u64 option" and m4 :: "u8 option" and m5 :: "u32 option"
    and m6 :: "(u64 \<times> u64) option" and m7 :: "shared_mem_region list option"
  shows "(\<And>x. yields p Q (f1 x)) \<Longrightarrow> yields p Q (m1 \<bind> f1)" "(\<And>x. yields p Q (f2 x)) \<Longrightarrow> yields p Q (m2 \<bind> f2)"
    "(\<And>x. yields p Q (f3 x)) \<Longrightarrow> yields p Q (m3 \<bind> f3)" "(\<And>x. yields p Q (f4 x)) \<Longrightarrow> yields p Q (m4 \<bind> f4)"
    "(\<And>x. yields p Q (f5 x)) \<Longrightarrow> yields p Q (m5 \<bind> f5)" "(\<And>x. yields p Q (f6 x)) \<Longrightarrow> yields p Q (m6 \<bind> f6)"
    "(\<And>x. yields p Q (f7 x)) \<Longrightarrow> yields p Q (m7 \<bind> f7)"
  by (auto simp: yields_def bind_eq_Some_conv)

lemmas yields_rules = yields_basic yields_cases yields_state yields_value

section \<open>Operations that send nothing\<close>

lemma emit_asks [simp]:
  "asks Q (emit (Call c) s) = asks Q s" "asks Q (emit (RegRead r) s) = asks Q s" "asks Q (emit PciRead s) = asks Q s"
  "asks Q (emit (Delay n) s) = asks Q s" "asks Q (emit (EvqPostread d) s) = asks Q s" "asks Q (emit (EvqZero d i) s) = asks Q s"
  "asks Q (emit (RxDescStore i v) s) = asks Q s" "asks Q (emit (TxDescStore i v) s) = asks Q s"
  "asks Q (emit RxBufPostread s) = asks Q s" "asks Q (emit (CopyIn a b) s) = asks Q s" "asks Q (emit (CopyOut a b) s) = asks Q s"
  "asks Q (emit (VmLookup a') s) = asks Q s" "asks Q (emit (VmRemove a' b') s) = asks Q s"
  "asks Q (grab k s) = asks Q s" "asks Q (SFC7120_WRITE_REG off w s) = asks Q s" "asks Q (capio_upd f h) = asks Q h"
  "asks Q (snd (SFC7120_READ_REG K off s)) = asks Q s"
  by (simp_all add: asks_def capio_upd_def SFC7120_READ_REG_def)

lemma upd_asks [simp]: "asks Q (dma_upd d f s) = asks Q s" "asks Q (dma_zero d s) = asks Q s"
  by (simp add: asks_def dma_upd_def, cases d) (simp_all add: asks_def)

lemma release_asks: "asks Q s \<Longrightarrow> yields st1 Q (release r s)"
  by (simp add: yields_def release_def asks_def)

lemma lock_asks:
  "asks Q s \<Longrightarrow> yields st1 Q (SFC7120_LOCK s)" "asks Q s \<Longrightarrow> yields st1 Q (SFC7120_UNLOCK s)"
  "asks Q s \<Longrightarrow> yields st1 Q (SFC7120_RX_LOCK s)" "asks Q s \<Longrightarrow> yields st1 Q (SFC7120_RX_UNLOCK s)"
  "asks Q s \<Longrightarrow> yields st1 Q (SFC7120_MCDI_LOCK s)" "asks Q s \<Longrightarrow> yields st1 Q (SFC7120_MCDI_UNLOCK s)"
  "asks Q h \<Longrightarrow> yields st1 Q (CAP_LOCK h)" "asks Q h \<Longrightarrow> yields st1 Q (CAP_UNLOCK h)"
  by (auto simp: SFC7120_LOCK_def SFC7120_UNLOCK_def SFC7120_RX_LOCK_def SFC7120_RX_UNLOCK_def SFC7120_MCDI_LOCK_def
      SFC7120_MCDI_UNLOCK_def CAP_LOCK_def CAP_UNLOCK_def capio_upd_def yields_def asks_def bind_eq_Some_conv)

lemma mcdi_free_buf_asks: "asks Q s \<Longrightarrow> yields st1 Q (sfc7120_mcdi_free_buf s)"
  unfolding sfc7120_mcdi_free_buf_def by (intro yields_rules release_asks) simp_all

lemma dmamap_load_silent: "dmamap_load K d s = (e, pa, t) \<Longrightarrow> mc_requests (io t) = mc_requests (io s)"
  by (auto simp: dmamap_load_def split: prod.splits)

lemma mcdi_init_asks: "asks Q s \<Longrightarrow> yields st2 Q (sfc7120_mcdi_init K s)"
  unfolding sfc7120_mcdi_init_def sfc7120_mcdi_alloc_buf_def mcdi_init_fail_def Let_def
  by (intro yields_rules release_asks mcdi_free_buf_asks) (auto simp: asks_def SFC7120_READ_REG_def dest!: dmamap_load_silent)

lemma mcdi_fini_asks: "asks Q s \<Longrightarrow> yields st1 Q (sfc7120_mcdi_fini s)"
  unfolding sfc7120_mcdi_fini_def by (intro yields_rules mcdi_free_buf_asks) (simp_all add: asks_def)

lemma free_dmabufs_asks: "asks Q s \<Longrightarrow> yields st1 Q (free_dmabufs ds s)"
proof (induction ds arbitrary: s)
  case (Cons d ds)
  show ?case
    unfolding free_dmabufs.simps sfc7120_free_dmabuf_def
    by (intro yields_rules release_asks Cons.IH) (simp_all add: Cons.prems)
qed (simp add: yields_def)

lemma alloc_dmabuf_asks: "asks Q s \<Longrightarrow> yields st2 Q (sfc7120_alloc_dmabuf K d s)"
  unfolding sfc7120_alloc_dmabuf_def Let_def
  by (intro yields_rules release_asks) (auto simp: asks_def dma_upd_def dest!: dmamap_load_silent)

lemma alloc_dma_asks: "asks Q s \<Longrightarrow> yields st2 Q (sfc7120_alloc_dma_resources K s)"
  unfolding sfc7120_alloc_dma_resources_def fail_free_def Let_def
  by (intro yields_rules alloc_dmabuf_asks free_dmabufs_asks) (simp_all add: asks_def)

lemma intr_setup_asks: "asks Q s \<Longrightarrow> yields st2 Q (sfc7120_intr_setup K s)"
  unfolding sfc7120_intr_setup_def intr_fail_irq_def intr_fail_msi_def intr_fail_bar_def Let_def
  by (intro yields_rules release_asks) (simp_all add: asks_def)

lemma intr_teardown_asks: "asks Q s \<Longrightarrow> yields st1 Q (sfc7120_intr_teardown s)"
  unfolding sfc7120_intr_teardown_def Let_def by (intro yields_rules release_asks) (simp_all add: asks_def)

lemma desc_write_asks: "asks Q s \<Longrightarrow> yields st1 Q (rx_desc_write i v s)" "asks Q s \<Longrightarrow> yields st1 Q (tx_desc_write i v s)"
  unfolding rx_desc_write_def tx_desc_write_def by (intro yields_rules; simp add: asks_def)+

lemma post_rx_loop_asks: "asks Q s \<Longrightarrow> yields st1 Q (post_rx_loop is s)"
proof (induction "is" arbitrary: s)
  case (Cons i "is")
  show ?case unfolding post_rx_loop.simps by (intro yields_rules desc_write_asks Cons.IH Cons.prems) simp
qed (simp add: yields_def)

lemma post_rx_asks: "asks Q s \<Longrightarrow> yields st1 Q (sfc7120_post_rx_buffers s)"
  unfolding sfc7120_post_rx_buffers_def Let_def by (intro yields_rules post_rx_loop_asks) (simp_all add: asks_def)

lemma dump_regs_silent: "sfc7120_dump_regs K s = (b, t) \<Longrightarrow> mc_requests (io t) = mc_requests (io s)"
  by (auto simp: sfc7120_dump_regs_def Let_def SFC7120_READ_REG_def split: if_splits prod.splits)

lemma log_mc_state_asks [simp]: "asks Q (sfc7120_mcdi_log_mc_state K s) = asks Q s"
  by (simp add: sfc7120_mcdi_log_mc_state_def SFC7120_READ_REG_def)

section \<open>Nothing user space can reach sends a command\<close>

lemma evq_ops_asks [simp]:
  "asks Q (data_evq_sync K s) = asks Q s" "asks Q (data_evq_ack n s) = asks Q s" "asks Q (rx_buf_sync K s) = asks Q s"
  by (simp_all add: data_evq_sync_def data_evq_ack_def rx_buf_sync_def Let_def asks_def)

lemma data_evq_consume_asks: "asks Q s \<Longrightarrow> yields st1 Q (data_evq_consume s)"
  unfolding data_evq_consume_def by (intro yields_rules) (simp_all add: asks_def)

lemma tx_poll_asks: "asks Q s \<Longrightarrow> yields st3 Q (tx_poll K n i c s)"
proof (induction n arbitrary: c s)
  case (Suc n)
  show ?case unfolding tx_poll.simps Let_def by (intro yields_rules data_evq_consume_asks Suc.IH) (simp_all add: Suc.prems)
qed (simp add: yields_def)

lemma rx_poll_asks: "asks Q s \<Longrightarrow> yields st3 Q (rx_poll K n c s)"
proof (induction n arbitrary: c s)
  case (Suc n)
  show ?case unfolding rx_poll.simps Let_def by (intro yields_rules data_evq_consume_asks Suc.IH) (simp_all add: Suc.prems)
qed (simp add: yields_def)

lemma copyin_asks: "asks Q s \<Longrightarrow> yields st2 Q (tx_copyin K buf slot len s)"
  unfolding tx_copyin_def Let_def by (intro yields_rules) (simp_all add: asks_def)

lemma ioctl_tx_asks: "asks Q s \<Longrightarrow> yields st3 Q (sfc7120_ioctl_tx K buf len s)"
  unfolding sfc7120_ioctl_tx_def Let_def
  by (intro yields_rules lock_asks copyin_asks desc_write_asks tx_poll_asks) (simp_all add: asks_def data_evq_ack_def)

lemma ioctl_rx_asks: "asks Q s \<Longrightarrow> yields st3 Q (sfc7120_ioctl_rx K s)"
  unfolding sfc7120_ioctl_rx_def Let_def
  by (intro yields_rules lock_asks desc_write_asks rx_poll_asks) (simp_all add: asks_def data_evq_ack_def rx_buf_sync_def Let_def)

lemma ioctl_asks: "asks Q s \<Longrightarrow> yields st3 Q (sfc7120_ioctl K r s)"
proof (cases r)
  case (SFC7120_SET_EVQ_RPTR a b c)
  assume "asks Q s"
  then show ?thesis unfolding sfc7120_ioctl_def SFC7120_SET_EVQ_RPTR sfc_req.case Let_def
    by (intro yields_rules lock_asks) (simp_all add: asks_def)
qed (simp_all add: sfc7120_ioctl_def ioctl_tx_asks ioctl_rx_asks, (intro yields_rules lock_asks; simp)+)

lemma callback_asks:
  "asks Q s \<Longrightarrow> yields st2 Q (sfc7120_is_dying s)" "asks Q s \<Longrightarrow> yields st2 Q (sfc7120_get_buffer_size ty s)"
  unfolding sfc7120_is_dying_def sfc7120_get_buffer_size_def Let_def by (intro yields_rules lock_asks; simp)+

text \<open>The framework.\<close>

lemma delete_mapping_silent: "delete_mapping_from_user K off len s = (e, t) \<Longrightarrow> mc_requests (io t) = mc_requests (io s)"
  by (auto simp: delete_mapping_from_user_def Let_def split: if_splits)

lemma revoke_regions_asks: "asks Q s \<Longrightarrow> yields st2 Q (revoke_regions K is e s)"
proof (induction "is" arbitrary: e s)
  case (Cons i "is")
  show ?case
    unfolding revoke_regions.simps Let_def
    by (intro yields_rules lock_asks Cons.IH Cons.prems) (auto simp: asks_def capio_upd_def dest!: delete_mapping_silent)
qed (simp add: yields_def)

lemma revoke_asks: "asks Q s \<Longrightarrow> yields st2 Q (revoke_cap_token K s)"
  unfolding revoke_cap_token_def Let_def by (intro yields_rules lock_asks revoke_regions_asks) simp_all

lemma set_cap_token_asks: "asks Q s \<Longrightarrow> yields st3 Q (set_cap_token req s)"
  unfolding set_cap_token_def Let_def by (intro yields_rules lock_asks) simp_all

lemma pager_asks:
  "asks Q s \<Longrightarrow> yields st2 Q (capio_pager_ctor ty s)" "asks Q s \<Longrightarrow> yields st1 Q (capio_pager_dtor hid ty s)"
  "asks Q s \<Longrightarrow> yields st2 Q (capio_vaddr_callback va sz ty s)" "asks Q s \<Longrightarrow> yields st2 Q (capio_slice_length_callback ty s)"
  unfolding capio_pager_ctor_def capio_pager_dtor_def capio_vaddr_callback_def capio_slice_length_callback_def Let_def
  by (intro yields_rules lock_asks release_asks; simp)+

lemma mmap_asks:
  "asks Q s \<Longrightarrow> yields st2 Q (capio_mmap_single_extra K (sfc7120_capio_ops K) extra ty off sz pc s)"
  unfolding capio_mmap_single_extra_def sfc7120_capio_ops_def Let_def capio_ops.simps
  by (intro yields_rules lock_asks callback_asks pager_asks) simp_all

lemma ioctl_handler_asks:
  "asks Q s \<Longrightarrow> yields st3 Q (capio_ioctl_handler K (sfc7120_capio_ops K) cmd req s)"
  unfolding capio_ioctl_handler_def sfc7120_capio_ops_def
  by (cases cmd; simp; intro impI conjI yields_rules set_cap_token_asks revoke_asks ioctl_asks; simp)

text \<open>The interrupt and the steps of the driver.\<close>

lemma intr_loop_asks: "asks Q s \<Longrightarrow> yields st2 Q (intr_loop n s)"
proof (induction n s rule: intr_loop.induct)
  case (1 n s)
  have c: "yields st1 Q (evq_consume (control_event ev s))" for ev
    unfolding evq_consume_def by (intro yields_rules) (use 1(2) in \<open>simp add: asks_def\<close>)
  have step: "yields st2 Q (do { s \<leftarrow> evq_consume (control_event ev s); if n + 1 \<ge> 512 then Some (n + 1, s) else intr_loop (n + 1) s })"
    if e: "evq_read s = Some ev" "\<not> no_event ev" for ev
  proof (cases "evq_consume (control_event ev s)")
    case (Some u)
    with yieldsD [OF c Some] 1(1) [OF e Some] show ?thesis by (auto intro: yields_basic)
  qed (simp add: yields_def)
  show ?case
    by (subst intr_loop.simps) (cases "evq_read s"; use step 1(2) in \<open>simp add: yields_def\<close>)
qed

lemma interrupt_asks: "asks Q s \<Longrightarrow> yields st1 Q (sfc7120_interrupt_handler K s)"
  unfolding sfc7120_interrupt_handler_def evq_sync_def Let_def
  by (intro yields_rules lock_asks intr_loop_asks) (simp_all add: asks_def)

lemma driver_step_asks: "driver_step K s t \<Longrightarrow> asks Q s \<Longrightarrow> asks Q t"
proof (induction rule: driver_step.induct)
  case (Capio s s')
  then show ?case
    using yieldsD [OF ioctl_handler_asks [OF Capio(2)]] yieldsD [OF mmap_asks [OF Capio(2)]] yieldsD [OF pager_asks(2) [OF Capio(2)]]
      yieldsD [OF pager_asks(3) [OF Capio(2)]] yieldsD [OF pager_asks(4) [OF Capio(2)]]
    by (elim capio_stepE) fastforce+
next
  case (Interrupt s s')
  then show ?case using yieldsD [OF interrupt_asks] by blast
next
  case (RxTask s s')
  have "yields st1 Q (sfc7120_rx_task_handler s)"
    unfolding sfc7120_rx_task_handler_def Let_def by (intro yields_rules lock_asks) (use RxTask in \<open>simp_all add: asks_def\<close>)
  then show ?case using RxTask by (auto dest: yieldsD)
next
  case (Poll events s revents s')
  have "yields st2 Q (sfc7120_poll events s)"
    unfolding sfc7120_poll_def Let_def by (intro yields_rules lock_asks) (use Poll in \<open>auto split: if_splits\<close>)
  then show ?case using Poll by (auto dest: yieldsD)
next
  case (Open s e s')
  then show ?case by (simp add: sfc7120_open_def)
next
  case (Close s e s')
  have "yields st2 Q (sfc7120_close K s)"
    unfolding sfc7120_close_def revoke_access_def by (intro yields_rules revoke_asks) (use Close in simp_all)
  then show ?case using Close by (auto dest: yieldsD)
qed

lemma driver_run_asks: "driver_run K s t \<Longrightarrow> asks Q s \<Longrightarrow> asks Q t"
  by (induction rule: driver_run.induct) (auto dest: driver_step_asks)

section \<open>Operations that send commands\<close>

lemma exec_ready:
  assumes "sfc7120_mcdi_exec K cmd inp out used s = Some r" "length inp \<le> 252" "length out \<le> 252"
  shows "mcdi_ready s"
proof (cases "mcdi_initialized s")
  case True
  then obtain s1 p s2 where l: "SFC7120_MCDI_LOCK s = Some s1" "sfc7120_mcdi_send_locked cmd inp (mcdi_seq s1 AND 0x0f) s1 = Some (p, s2)"
    using assms by (auto simp: sfc7120_mcdi_exec_def Let_def bind_eq_Some_conv)
  have m: "mcdi_mtx s = MtxFree" "dma s1 = dma s"
    using l(1) by (auto simp: SFC7120_MCDI_LOCK_def bind_eq_Some_conv elim: mtx_lock.elims)
  have "dma_mapped DMA_MCDI s1"
    using l(2) by (auto simp: sfc7120_mcdi_send_locked_def mcdi_buf_write_dword_def bind_eq_Some_conv split: if_splits)
  with m show ?thesis by (simp add: mcdi_ready_def dma_mapped_def)
qed (simp add: mcdi_ready_def)

lemma exec_asks:
  assumes "asks (list_all ok) s" "ok (cmd, inp)" "fits cmd (length inp) (length inp)" "fits cmd (length inp) (length out)" "cmd < 0x8000"
    "used \<le> length out" "length inp \<le> 252" "length out \<le> 252"
  shows "yields st4 (list_all ok) (sfc7120_mcdi_exec K cmd inp out used s)"
  unfolding yields_def
proof (intro allI impI)
  fix r assume r: "sfc7120_mcdi_exec K cmd inp out used s = Some r"
  from exec_summary [OF exec_ready [OF r assms(7,8)] assms(3-6), of K] r
  have "exec_io cmd inp s (st4 r)" by auto
  with assms(1,2) show "asks (list_all ok) (st4 r)" by (auto simp: exec_io_def asks_def split: if_splits)
qed

lemma request_lengths:
  "length (drv_attach_in a) = 12" "length (init_evq_in inst paddr n) = 44" "length (init_queue_in f inst evq paddr n) = 36"
  "length (filter_insert_in mac) = 108" "length (filter_remove_in handle) = 108"
  by (simp_all add: drv_attach_in_def init_evq_in_def init_queue_in_def filter_insert_in_def filter_remove_in_def Let_def)

lemmas fits_nums = fits_def mcdi_hdr_len_def mcdi_use_v2_def pad4_def request_lengths

lemma attempt_yields:
  assumes "yields st2 Q (f s)" "\<And>e t. asks Q t \<Longrightarrow> yields st2 Q (label e t)" "\<And>t. asks Q t \<Longrightarrow> yields st2 Q (rest t)"
  shows "yields st2 Q (attempt f label rest s)"
  unfolding attempt_def by (intro yields_rules assms)

text \<open>A policy on requests that everything the driver builds satisfies.  Whatever the policy is, the driver keeps it over
  its whole life.\<close>

locale request_policy =
  fixes ok :: "u32 \<times> u8 list \<Rightarrow> bool"
  assumes ok_clear: "ok (MC_CMD_GET_ASSERTS, put32 0 1 (zeros 4))"
    and ok_reset: "ok (MC_CMD_ENTITY_RESET, put32 0 1 (zeros 4))"
    and ok_reboot: "ok (MC_CMD_REBOOT, put32 0 1 (zeros 4))"
    and ok_query: "ok (MC_CMD_GET_VERSION, [])" "ok (MC_CMD_GET_MAC_ADDRESSES, [])" "ok (MC_CMD_GET_PORT_ASSIGNMENT, [])"
      "ok (MC_CMD_GET_FUNCTION_INFO, [])" "ok (MC_CMD_GET_CAPABILITIES, [])" "ok (MC_CMD_GET_PHY_CFG, [])" "ok (MC_CMD_GET_LINK, [])"
    and ok_attach: "ok (MC_CMD_DRV_ATTACH, drv_attach_in 1)" "ok (MC_CMD_DRV_ATTACH, drv_attach_in 0)"
    and ok_vis: "ok (MC_CMD_ALLOC_VIS, put32 4 hi (put32 0 lo (zeros 8)))" "ok (MC_CMD_FREE_VIS, [])"
    and ok_vadaptor: "ok (MC_CMD_VADAPTOR_ALLOC, put32 8 (if b then push_bit 1 1 else 0) (put32 0 EVB_PORT_ID_ASSIGNED (zeros 30)))"
      "ok (MC_CMD_VADAPTOR_FREE, put32 0 EVB_PORT_ID_ASSIGNED (zeros 4))"
    and ok_mac: "ok (MC_CMD_SET_MAC, put32 24 0 (put32 20 3 (put32 16 0 (put_bytes 8 (take 6 mac)
                   (put32 4 0 (put32 0 SFC7120_DEFAULT_MAC_PDU (zeros 28)))))))"
    and ok_link: "ok (MC_CMD_SET_LINK, put32 12 0 (put32 8 0 (put32 4 0 (put32 0 cap (zeros 16)))))"
    and ok_evq: "ok (MC_CMD_INIT_EVQ, init_evq_in inst paddr n)" "ok (MC_CMD_FINI_EVQ, put32 0 inst (zeros 4))"
    and ok_rxq: "ok (MC_CMD_INIT_RXQ, init_queue_in (push_bit 8 1 OR push_bit 9 1) inst evq paddr n)"
      "ok (MC_CMD_FINI_RXQ, put32 0 inst (zeros 4))"
    and ok_txq: "ok (MC_CMD_INIT_TXQ, init_queue_in (push_bit 1 1 OR push_bit 2 1) inst evq paddr n)"
      "ok (MC_CMD_FINI_TXQ, put32 0 inst (zeros 4))"
    and ok_filter: "ok (MC_CMD_FILTER_OP, filter_insert_in mac)" "ok (MC_CMD_FILTER_OP, filter_remove_in handle)"
begin

abbreviation (input) obeys :: "softc \<Rightarrow> bool" where "obeys \<equiv> asks (list_all ok)"

lemmas ok_requests = ok_clear ok_reset ok_reboot ok_query ok_attach ok_vis ok_vadaptor ok_mac ok_link ok_evq ok_rxq ok_txq ok_filter

lemma exec_obeys:
  assumes "obeys s" "ok (cmd, inp)" "fits cmd (length inp) (length inp)" "fits cmd (length inp) (length out)" "cmd < 0x8000"
    "used \<le> length out" "length inp \<le> 252" "length out \<le> 252"
  shows "yields st4 (list_all ok) (sfc7120_mcdi_exec K cmd inp out used s)"
  using exec_asks assms .

text \<open>The wrappers.\<close>

lemma clear_assertions_obeys: "obeys s \<Longrightarrow> yields st2 (list_all ok) (sfc7120_mcdi_clear_assertions K s)"
proof -
  have retry: "obeys s \<Longrightarrow> length resp = 140 \<Longrightarrow> used \<le> 140 \<Longrightarrow>
      yields st4 (list_all ok) (get_asserts_retry K n (put32 0 1 (zeros 4)) (rc, resp, used) s)" for n rc resp used s
  proof (induction n arbitrary: rc resp used s)
    case (Suc n)
    have o: "yields st4 (list_all ok) (sfc7120_mcdi_exec K MC_CMD_GET_ASSERTS (put32 0 1 (zeros 4)) resp used s)"
      by (rule exec_obeys) (use Suc.prems ok_clear in \<open>simp_all add: fits_nums\<close>)
    show ?case
    proof (cases "sfc7120_mcdi_exec K MC_CMD_GET_ASSERTS (put32 0 1 (zeros 4)) resp used s")
      case (Some r)
      obtain rc' resp' used' t where r: "r = (rc', resp', used', t)" by (cases r)
      have "obeys t" using yieldsD [OF o Some] by (simp add: r)
      moreover have "length resp' = 140" "used' \<le> 140"
        using exec_summary [OF exec_ready [OF Some], of MC_CMD_GET_ASSERTS "put32 0 1 (zeros 4)" resp used K] Some Suc.prems by (auto simp: r fits_nums)
      ultimately show ?thesis using Suc.IH [of t resp' used' rc'] Some by (simp add: r yields_basic)
    qed (simp add: yields_def)
  qed (simp add: yields_def)
  assume "obeys s"
  then show ?thesis
    unfolding sfc7120_mcdi_clear_assertions_def Let_def by (intro yields_rules retry) simp_all
qed

lemma state_obeys:
  "obeys s \<Longrightarrow> yields st2 (list_all ok) (sfc7120_mcdi_entity_reset K s)"
  "obeys s \<Longrightarrow> yields st2 (list_all ok) (sfc7120_mcdi_dump_func_info K s)"
  "obeys s \<Longrightarrow> yields st2 (list_all ok) (sfc7120_mcdi_get_version K s)"
  "obeys s \<Longrightarrow> yields st2 (list_all ok) (sfc7120_mcdi_drv_attach K s)"
  "obeys s \<Longrightarrow> yields st2 (list_all ok) (sfc7120_mcdi_drv_detach K s)"
  "obeys s \<Longrightarrow> yields st2 (list_all ok) (sfc7120_mcdi_get_mac K s)"
  unfolding sfc7120_mcdi_entity_reset_def sfc7120_mcdi_dump_func_info_def sfc7120_mcdi_get_version_def sfc7120_mcdi_drv_attach_def
    sfc7120_mcdi_drv_detach_def sfc7120_mcdi_get_mac_def Let_def
  by (intro yields_rules exec_obeys; simp add: fits_nums ok_requests asks_def)+

lemma reboot_obeys: "obeys s \<Longrightarrow> yields st2 (list_all ok) (sfc7120_mcdi_reboot_after_assertion K s)"
proof -
  have w: "wait_biu K n r s = (r', t) \<Longrightarrow> mc_requests (io t) = mc_requests (io s)" for n r r' s and t :: softc
    by (induction n arbitrary: r s) (auto simp: SFC7120_READ_REG_def Let_def split: if_splits)
  show "obeys s \<Longrightarrow> ?thesis"
    unfolding sfc7120_mcdi_reboot_after_assertion_def Let_def
    by (intro yields_rules exec_obeys lock_asks; (simp add: fits_nums ok_requests asks_def; fail)?) (auto simp: asks_def dest!: w)
qed

lemma queue_obeys:
  "obeys s \<Longrightarrow> yields st2 (list_all ok) (sfc7120_mcdi_init_evq K inst paddr n s)"
  "obeys s \<Longrightarrow> yields st2 (list_all ok) (sfc7120_mcdi_init_rxq K inst evq paddr n s)"
  "obeys s \<Longrightarrow> yields st2 (list_all ok) (sfc7120_mcdi_init_txq K inst evq paddr n s)"
  "obeys s \<Longrightarrow> yields st2 (list_all ok) (sfc7120_mcdi_fini_evq K inst s)"
  "obeys s \<Longrightarrow> yields st2 (list_all ok) (sfc7120_mcdi_fini_rxq K inst s)"
  "obeys s \<Longrightarrow> yields st2 (list_all ok) (sfc7120_mcdi_fini_txq K inst s)"
  unfolding sfc7120_mcdi_init_evq_def sfc7120_mcdi_init_rxq_def sfc7120_mcdi_init_txq_def sfc7120_mcdi_fini_evq_def
    sfc7120_mcdi_fini_rxq_def sfc7120_mcdi_fini_txq_def Let_def
  by (intro yields_rules exec_obeys ok_requests; simp add: fits_nums asks_def)+

lemma vis_obeys:
  "obeys s \<Longrightarrow> yields st2 (list_all ok) (sfc7120_mcdi_vadaptor_alloc K s)"
  "obeys s \<Longrightarrow> yields st2 (list_all ok) (sfc7120_mcdi_vadaptor_free K s)"
  "obeys s \<Longrightarrow> yields st2 (list_all ok) (sfc7120_mcdi_alloc_vis K lo hi s)"
  "obeys s \<Longrightarrow> yields st2 (list_all ok) (sfc7120_mcdi_free_vis K s)"
  "obeys s \<Longrightarrow> yields st2 (list_all ok) (sfc7120_mcdi_filter_insert K s)"
  "obeys s \<Longrightarrow> yields st2 (list_all ok) (sfc7120_mcdi_filter_remove K s)"
  unfolding sfc7120_mcdi_vadaptor_alloc_def sfc7120_mcdi_vadaptor_free_def sfc7120_mcdi_alloc_vis_def sfc7120_mcdi_free_vis_def
    sfc7120_mcdi_filter_insert_def sfc7120_mcdi_filter_remove_def Let_def
  by (intro yields_rules exec_obeys ok_requests; simp add: fits_nums asks_def)+

lemma link_obeys:
  "obeys s \<Longrightarrow> yields st2 (list_all ok) (sfc7120_mcdi_get_phy_cfg K s)"
  "obeys s \<Longrightarrow> yields st2 (list_all ok) (sfc7120_mcdi_set_mac K s)"
  "obeys s \<Longrightarrow> yields st2 (list_all ok) (sfc7120_mcdi_set_link K s)"
  "obeys s \<Longrightarrow> yields st2 (list_all ok) (sfc7120_mcdi_get_link K s)"
  unfolding sfc7120_mcdi_get_phy_cfg_def sfc7120_mcdi_set_mac_def sfc7120_mcdi_set_link_def sfc7120_mcdi_get_link_def Let_def
  by (intro yields_rules exec_obeys ok_requests; simp add: fits_nums asks_def)+

lemma link_poll_obeys: "obeys s \<Longrightarrow> yields st2 (list_all ok) (link_poll K n s)"
proof (induction n arbitrary: s)
  case (Suc n)
  show ?case unfolding link_poll.simps by (intro yields_rules link_obeys Suc) simp_all
qed (simp add: yields_def)

text \<open>Bring-up and teardown of the hardware.\<close>

lemma hw_teardown_obeys: "obeys s \<Longrightarrow> yields st1 (list_all ok) (sfc7120_hw_teardown K s)"
  unfolding sfc7120_hw_teardown_def by (intro yields_state vis_obeys queue_obeys state_obeys mcdi_fini_asks)

lemma hw_fail_obeys:
  "obeys s \<Longrightarrow> yields st2 (list_all ok) (hw_init_fail_mcdi e s)" "obeys s \<Longrightarrow> yields st2 (list_all ok) (hw_init_fail_attach K e s)"
  unfolding hw_init_fail_attach_def hw_init_fail_mcdi_def by (intro yields_rules state_obeys mcdi_fini_asks; simp)+

lemma hw_init_obeys: "obeys s \<Longrightarrow> yields st2 (list_all ok) (sfc7120_hw_init K s)"
  unfolding sfc7120_hw_init_def hw_init_vis_def hw_init_link_def
  by (intro attempt_yields yields_rules mcdi_init_asks state_obeys clear_assertions_obeys vis_obeys link_obeys link_poll_obeys hw_fail_obeys)
    simp_all

text \<open>Attach and detach.\<close>

lemma attach_fail_obeys:
  "obeys s \<Longrightarrow> yields st2 (list_all ok) (attach_fail_lock e s)"
  "obeys s \<Longrightarrow> yields st2 (list_all ok) (attach_fail_bar e s)" "obeys s \<Longrightarrow> yields st2 (list_all ok) (attach_fail_hw K e s)"
  "obeys s \<Longrightarrow> yields st2 (list_all ok) (attach_fail_dma K e s)"
  unfolding attach_fail_hw_def attach_fail_dma_def attach_fail_bar_def attach_fail_lock_def Let_def free_dma_resources_eq
  by (intro yields_rules release_asks hw_teardown_obeys intr_teardown_asks free_dmabufs_asks; simp add: asks_def)+

lemma attach_publish_obeys: "obeys s \<Longrightarrow> yields st2 (list_all ok) (attach_publish K s)"
  unfolding attach_publish_def init_capio_sc_def Let_def
  by (intro yields_rules attach_fail_obeys) (auto simp: asks_def make_dev_capio_def capio_upd_def split: if_splits dest!: dump_regs_silent)

lemma attach_obeys: "obeys s \<Longrightarrow> yields st2 (list_all ok) (sfc7120_fbsd_attach K s)"
  unfolding sfc7120_fbsd_attach_def attach_queues_def attach_data_evq_def attach_rxq_def attach_txq_def Let_def
  by (intro attempt_yields yields_rules hw_init_obeys alloc_dma_asks intr_setup_asks queue_obeys vis_obeys post_rx_asks
      attach_publish_obeys attach_fail_obeys) (simp_all add: asks_def)

lemma detach_obeys: "obeys s \<Longrightarrow> yields st2 (list_all ok) (sfc7120_fbsd_detach K s)"
  unfolding sfc7120_fbsd_detach_def capio_destroy_def Let_def free_dma_resources_eq
  by (intro yields_rules lock_asks release_asks intr_teardown_asks hw_teardown_obeys free_dmabufs_asks) (simp_all add: asks_def capio_upd_def)

end

end
