(* ===== verification/Conformance.thy ===== *)
theory Conformance
  imports Catalogue Requests
begin

text \<open>
  The driver against the catalogue.  Every request the wrappers build is the catalogue's encoding of named fields, the
  responses are read at the places the catalogue names, the header words and the events are taken apart as it says; and
  over the whole life of a device every command the MC sees is a request of the catalogue.
\<close>

section \<open>Requests\<close>

definition catalogue :: "mc_message list" where
  "catalogue =
     [MC_CMD_GET_ASSERTS_IN, MC_CMD_GET_VERSION_IN, MC_CMD_DRV_ATTACH_IN, MC_CMD_ENTITY_RESET_IN, MC_CMD_REBOOT_IN,
      MC_CMD_GET_MAC_ADDRESSES_IN, MC_CMD_GET_PORT_ASSIGNMENT_IN, MC_CMD_GET_FUNCTION_INFO_IN, MC_CMD_GET_CAPABILITIES_IN,
      MC_CMD_GET_PHY_CFG_IN, MC_CMD_GET_LINK_IN, MC_CMD_SET_LINK_IN, MC_CMD_SET_MAC_IN, MC_CMD_INIT_EVQ_IN, MC_CMD_INIT_RXQ_IN,
      MC_CMD_INIT_TXQ_IN, MC_CMD_FINI_EVQ_IN, MC_CMD_FINI_RXQ_IN, MC_CMD_FINI_TXQ_IN, MC_CMD_ALLOC_VIS_IN, MC_CMD_FREE_VIS_IN,
      MC_CMD_VADAPTOR_ALLOC_IN, MC_CMD_VADAPTOR_FREE_IN, MC_CMD_FILTER_OP_IN]"

definition catalogued :: "u32 \<times> u8 list \<Rightarrow> bool" where
  "catalogued r \<longleftrightarrow> list_ex (\<lambda>m. mc_code m = fst r \<and> request_ok m (snd r)) catalogue"

lemma catalogue_codes:
  "mc_code MC_CMD_GET_ASSERTS_IN = MC_CMD_GET_ASSERTS" "mc_code MC_CMD_GET_VERSION_IN = MC_CMD_GET_VERSION"
  "mc_code MC_CMD_DRV_ATTACH_IN = MC_CMD_DRV_ATTACH" "mc_code MC_CMD_ENTITY_RESET_IN = MC_CMD_ENTITY_RESET"
  "mc_code MC_CMD_REBOOT_IN = MC_CMD_REBOOT" "mc_code MC_CMD_GET_MAC_ADDRESSES_IN = MC_CMD_GET_MAC_ADDRESSES"
  "mc_code MC_CMD_GET_PORT_ASSIGNMENT_IN = MC_CMD_GET_PORT_ASSIGNMENT" "mc_code MC_CMD_GET_FUNCTION_INFO_IN = MC_CMD_GET_FUNCTION_INFO"
  "mc_code MC_CMD_GET_CAPABILITIES_IN = MC_CMD_GET_CAPABILITIES" "mc_code MC_CMD_GET_PHY_CFG_IN = MC_CMD_GET_PHY_CFG"
  "mc_code MC_CMD_GET_LINK_IN = MC_CMD_GET_LINK" "mc_code MC_CMD_SET_LINK_IN = MC_CMD_SET_LINK" "mc_code MC_CMD_SET_MAC_IN = MC_CMD_SET_MAC"
  "mc_code MC_CMD_INIT_EVQ_IN = MC_CMD_INIT_EVQ" "mc_code MC_CMD_INIT_RXQ_IN = MC_CMD_INIT_RXQ" "mc_code MC_CMD_INIT_TXQ_IN = MC_CMD_INIT_TXQ"
  "mc_code MC_CMD_FINI_EVQ_IN = MC_CMD_FINI_EVQ" "mc_code MC_CMD_FINI_RXQ_IN = MC_CMD_FINI_RXQ" "mc_code MC_CMD_FINI_TXQ_IN = MC_CMD_FINI_TXQ"
  "mc_code MC_CMD_ALLOC_VIS_IN = MC_CMD_ALLOC_VIS" "mc_code MC_CMD_FREE_VIS_IN = MC_CMD_FREE_VIS"
  "mc_code MC_CMD_VADAPTOR_ALLOC_IN = MC_CMD_VADAPTOR_ALLOC" "mc_code MC_CMD_VADAPTOR_FREE_IN = MC_CMD_VADAPTOR_FREE"
  "mc_code MC_CMD_FILTER_OP_IN = MC_CMD_FILTER_OP"
  unfolding MC_CMD_GET_ASSERTS_IN_def MC_CMD_GET_VERSION_IN_def MC_CMD_DRV_ATTACH_IN_def MC_CMD_ENTITY_RESET_IN_def MC_CMD_REBOOT_IN_def
    MC_CMD_GET_MAC_ADDRESSES_IN_def MC_CMD_GET_PORT_ASSIGNMENT_IN_def MC_CMD_GET_FUNCTION_INFO_IN_def MC_CMD_GET_CAPABILITIES_IN_def
    MC_CMD_GET_PHY_CFG_IN_def MC_CMD_GET_LINK_IN_def MC_CMD_SET_LINK_IN_def MC_CMD_SET_MAC_IN_def MC_CMD_INIT_EVQ_IN_def
    MC_CMD_INIT_RXQ_IN_def MC_CMD_INIT_TXQ_IN_def MC_CMD_FINI_EVQ_IN_def MC_CMD_FINI_RXQ_IN_def MC_CMD_FINI_TXQ_IN_def
    MC_CMD_ALLOC_VIS_IN_def MC_CMD_FREE_VIS_IN_def MC_CMD_VADAPTOR_ALLOC_IN_def MC_CMD_VADAPTOR_FREE_IN_def MC_CMD_FILTER_OP_IN_def
  by simp_all

text \<open>The requests without a payload, and the two with an address: the address is copied as it is, and the layout puts
  no condition on it.\<close>

lemma query_request:
  "request_ok MC_CMD_GET_VERSION_IN []" "request_ok MC_CMD_GET_MAC_ADDRESSES_IN []" "request_ok MC_CMD_GET_PORT_ASSIGNMENT_IN []"
  "request_ok MC_CMD_GET_FUNCTION_INFO_IN []" "request_ok MC_CMD_GET_CAPABILITIES_IN []" "request_ok MC_CMD_GET_PHY_CFG_IN []"
  "request_ok MC_CMD_GET_LINK_IN []" "request_ok MC_CMD_FREE_VIS_IN []"
  by (simp_all add: request_ok_def MC_CMD_GET_VERSION_IN_def MC_CMD_GET_MAC_ADDRESSES_IN_def MC_CMD_GET_PORT_ASSIGNMENT_IN_def
      MC_CMD_GET_FUNCTION_INFO_IN_def MC_CMD_GET_CAPABILITIES_IN_def MC_CMD_GET_PHY_CFG_IN_def MC_CMD_GET_LINK_IN_def MC_CMD_FREE_VIS_IN_def)

lemma set_mac_request:
  "request_ok MC_CMD_SET_MAC_IN (put32 24 0 (put32 20 3 (put32 16 0 (put_bytes 8 (take 6 mac)
     (put32 4 0 (put32 0 SFC7120_DEFAULT_MAC_PDU (zeros 28)))))))"
proof -
  let ?b = "put32 24 0 (put32 20 3 (put32 16 0 (put_bytes 8 (take 6 (zeros 6)) (put32 4 0 (put32 0 SFC7120_DEFAULT_MAC_PDU (zeros 28))))))"
  have "put_bytes 8 (take 6 (zeros 6)) xs = xs" if "xs = put32 4 0 (put32 0 v (zeros 28))" for xs v
    unfolding that by (rule nth_equalityI) (auto simp: put32_def eval_nat_numeral)
  then have e: "?b = put32 24 0 (put32 20 3 (put32 16 0 (put32 4 0 (put32 0 SFC7120_DEFAULT_MAC_PDU (zeros 28)))))" by simp
  have "f64 ''ADDR'' 8 \<in> set (mc_fields MC_CMD_SET_MAC_IN)" by (simp add: MC_CMD_SET_MAC_IN_def)
  from set_mac_in.octets_ok [OF set_mac_in.encode_ok [OF encode_set_mac [of "zeros 6"]] this, of "take 6 mac"]
  have "request_ok MC_CMD_SET_MAC_IN (put_bytes 8 (take 6 mac) ?b)" by (simp add: dword_def fd_end_def)
  then show ?thesis unfolding e by (simp add: put_commute)
qed

lemma filter_insert_request: "request_ok MC_CMD_FILTER_OP_IN (filter_insert_in mac)"
proof -
  let ?b = "put32 40 0xffffffff (put32 28 0 (put32 24 0 (put32 20 1 (put32 16 (push_bit 4 1) (put32 12 EVB_PORT_ID_ASSIGNED (put32 0 0 (zeros 108)))))))"
  have "encode MC_CMD_FILTER_OP_IN (take 7 (filter_insert_args [])) = Some ?b"
    by (simp add: encode_simps filter_insert_args_def MC_CMD_FILTER_OP_IN_def)
  note ok = filter_op_in.encode_ok [OF this]
  have "octets ''DST_MAC'' 52 6 \<in> set (mc_fields MC_CMD_FILTER_OP_IN)" by (simp add: MC_CMD_FILTER_OP_IN_def)
  from filter_op_in.octets_ok [OF ok this, of "take 6 mac"] show ?thesis
    by (simp add: filter_insert_in_def dword_def fd_end_def)
qed

lemma catalogued_in: "m \<in> set catalogue \<Longrightarrow> request_ok m inp \<Longrightarrow> catalogued (mc_code m, inp)"
  by (auto simp: catalogued_def list_ex_iff)

lemma cat_state:
  "catalogued (MC_CMD_GET_ASSERTS, put32 0 1 (zeros 4))" "catalogued (MC_CMD_ENTITY_RESET, put32 0 1 (zeros 4))"
  "catalogued (MC_CMD_REBOOT, put32 0 1 (zeros 4))" "catalogued (MC_CMD_DRV_ATTACH, drv_attach_in 1)"
  "catalogued (MC_CMD_DRV_ATTACH, drv_attach_in 0)"
  using catalogued_in [OF _ get_asserts_in.encode_ok [OF encode_state(1)]] catalogued_in [OF _ entity_reset_in.encode_ok [OF encode_state(2)]]
    catalogued_in [OF _ reboot_in.encode_ok [OF encode_state(3)]] catalogued_in [OF _ drv_attach_in.encode_ok [OF encode_state(4) [of True]]]
    catalogued_in [OF _ drv_attach_in.encode_ok [OF encode_state(4) [of False]]]
  by (simp_all add: catalogue_def catalogue_codes)

lemma cat_query:
  "catalogued (MC_CMD_GET_VERSION, [])" "catalogued (MC_CMD_GET_MAC_ADDRESSES, [])" "catalogued (MC_CMD_GET_PORT_ASSIGNMENT, [])"
  "catalogued (MC_CMD_GET_FUNCTION_INFO, [])" "catalogued (MC_CMD_GET_CAPABILITIES, [])" "catalogued (MC_CMD_GET_PHY_CFG, [])"
  "catalogued (MC_CMD_GET_LINK, [])" "catalogued (MC_CMD_FREE_VIS, [])"
  using query_request [THEN catalogued_in [rotated]] by (simp_all add: catalogue_def catalogue_codes)

lemma cat_vis:
  "catalogued (MC_CMD_ALLOC_VIS, put32 4 hi (put32 0 lo (zeros 8)))"
  "catalogued (MC_CMD_VADAPTOR_ALLOC, put32 8 (if b then push_bit 1 1 else 0) (put32 0 EVB_PORT_ID_ASSIGNED (zeros 30)))"
  "catalogued (MC_CMD_VADAPTOR_FREE, put32 0 EVB_PORT_ID_ASSIGNED (zeros 4))"
  using catalogued_in [OF _ alloc_vis_in.encode_ok [OF encode_vis(1)], of hi lo]
    catalogued_in [OF _ vadaptor_alloc_in.encode_ok [OF encode_vis(2)], of b]
    catalogued_in [OF _ vadaptor_free_in.encode_ok [OF encode_vis(3)]]
  by (simp_all add: catalogue_def catalogue_codes)

lemma cat_link:
  "catalogued (MC_CMD_SET_MAC, put32 24 0 (put32 20 3 (put32 16 0 (put_bytes 8 (take 6 mac)
     (put32 4 0 (put32 0 SFC7120_DEFAULT_MAC_PDU (zeros 28)))))))"
  "catalogued (MC_CMD_SET_LINK, put32 12 0 (put32 8 0 (put32 4 0 (put32 0 cap (zeros 16)))))"
  "catalogued (MC_CMD_FILTER_OP, filter_insert_in mac)" "catalogued (MC_CMD_FILTER_OP, filter_remove_in handle)"
  using catalogued_in [OF _ set_mac_request [of mac]] catalogued_in [OF _ set_link_in.encode_ok [OF encode_set_link], of cap]
    catalogued_in [OF _ filter_insert_request [of mac]] catalogued_in [OF _ filter_op_in.encode_ok [OF encode_filter(2)], of handle]
  by (simp_all add: catalogue_def catalogue_codes)

lemma cat_queue:
  "catalogued (MC_CMD_INIT_EVQ, init_evq_in inst paddr n)" "catalogued (MC_CMD_FINI_EVQ, put32 0 inst (zeros 4))"
  "catalogued (MC_CMD_INIT_RXQ, init_queue_in (push_bit 8 1 OR push_bit 9 1) inst evq paddr n)"
  "catalogued (MC_CMD_FINI_RXQ, put32 0 inst (zeros 4))"
  "catalogued (MC_CMD_INIT_TXQ, init_queue_in (push_bit 1 1 OR push_bit 2 1) inst evq paddr n)"
  "catalogued (MC_CMD_FINI_TXQ, put32 0 inst (zeros 4))"
  using catalogued_in [OF _ init_evq_in.encode_ok [OF encode_queues(1)], of inst paddr n]
    catalogued_in [OF _ init_rxq_in.encode_ok [OF encode_queues(2)], of inst evq paddr n]
    catalogued_in [OF _ init_txq_in.encode_ok [OF encode_queues(3)], of inst evq paddr n]
    catalogued_in [OF _ fini_evq_in.encode_ok [OF encode_fini(1)], of inst] catalogued_in [OF _ fini_rxq_in.encode_ok [OF encode_fini(2)], of inst]
    catalogued_in [OF _ fini_txq_in.encode_ok [OF encode_fini(3)], of inst]
  by (simp_all add: catalogue_def catalogue_codes)

interpretation cat: request_policy catalogued
  by unfold_locales (fact cat_state cat_query cat_vis cat_link cat_queue)+

section \<open>Reading responses, headers and events by name\<close>

definition word_at :: "mc_message \<Rightarrow> string \<Rightarrow> u8 list \<Rightarrow> u32" where
  "word_at m n buf = (case field_named m n of Some f \<Rightarrow> get32 (fd_ofst f) buf | None \<Rightarrow> 0)"

text \<open>The upper half of an 8-byte field (its \<open>_HI\<close> word), the bytes of a field, and where a field ends.\<close>

definition hi_at :: "mc_message \<Rightarrow> string \<Rightarrow> u8 list \<Rightarrow> u32" where
  "hi_at m n buf = (case field_named m n of Some f \<Rightarrow> get32 (fd_ofst f + 4) buf | None \<Rightarrow> 0)"

definition octets_at :: "mc_message \<Rightarrow> string \<Rightarrow> u8 list \<Rightarrow> u8 list" where
  "octets_at m n buf = (case field_named m n of Some f \<Rightarrow> field_bytes f buf | None \<Rightarrow> [])"

definition end_of :: "mc_message \<Rightarrow> string \<Rightarrow> nat" where
  "end_of m n = (case field_named m n of Some f \<Rightarrow> fd_end f | None \<Rightarrow> 0)"

definition flag_at :: "mc_message \<Rightarrow> string \<Rightarrow> string \<Rightarrow> u8 list \<Rightarrow> bool" where
  "flag_at m n b buf =
     (case field_named m n of
        Some f \<Rightarrow> (case map_of (fd_bits f) b of Some (lbn, width) \<Rightarrow> bit (get32 (fd_ofst f) buf) lbn | None \<Rightarrow> False)
      | None \<Rightarrow> False)"

definition bits_at :: "(string \<times> nat \<times> nat) list \<Rightarrow> string \<Rightarrow> 'w::len word \<Rightarrow> 'w word" where
  "bits_at tbl n w = (case map_of tbl n of Some (lbn, width) \<Rightarrow> take_bit width (drop_bit lbn w) | None \<Rightarrow> 0)"

definition bits_of :: "(string \<times> nat \<times> nat) list \<Rightarrow> 'w::len word \<Rightarrow> (string \<times> 'w word) list" where
  "bits_of tbl w = map (\<lambda>(n, lbn, width). (n, take_bit width (drop_bit lbn w))) tbl"

lemmas at_simps = word_at_def hi_at_def octets_at_def end_of_def flag_at_def field_named_def resolve_def field_bytes_def fd_end_def

lemma test_bit: "(w AND push_bit n 1 \<noteq> 0) = bit w n" "(w AND 1 \<noteq> 0) = bit w 0" "(w AND 2 \<noteq> 0) = bit w (Suc 0)" for w :: "'w::len word"
  using bit_iff_and_push_bit_not_eq_0 [of w n] bit_iff_and_push_bit_not_eq_0 [of w 0] bit_iff_and_push_bit_not_eq_0 [of w 1] by simp_all

lemma flag_field: "drop_bit k w mod 2 = of_bool (bit w k)" for w :: "'w::len word"
  by (simp add: bit_iff_odd_drop_bit mod_2_eq_odd)

lemma v1_hdr_bits:
  "take_bit 7 (mcdi_v1_hdr c n q e) = take_bit 7 c"
  "take_bit 8 (drop_bit 8 (mcdi_v1_hdr c n q e)) = take_bit 8 (of_nat n)"
  "take_bit 4 (drop_bit 16 (mcdi_v1_hdr c n q e)) = take_bit 4 (ucast q)"
  "take_bit 8 (drop_bit 24 (mcdi_v1_hdr c n q e)) = 0"
  by (rule bit_word_eqI, auto simp: mcdi_v1_hdr_def mask_simps bit_simps)+

lemma v1_hdr_flags: "\<not> bit (mcdi_v1_hdr c n q e) 7" "\<not> bit (mcdi_v1_hdr c n q e) 20"
  by (auto simp: mcdi_v1_hdr_def mask_simps bit_simps)

lemma v2_hdr_bits:
  "take_bit 15 (mcdi_v2_hdr c n) = take_bit 15 c"
  "take_bit 10 (drop_bit 16 (mcdi_v2_hdr c n)) = take_bit 10 (of_nat n)" "take_bit 2 (drop_bit 26 (mcdi_v2_hdr c n)) = 0"
  "take_bit 4 (drop_bit 28 (mcdi_v2_hdr c n)) = 0" "\<not> bit (mcdi_v2_hdr c n) 15"
  by ((rule bit_word_eqI)?, auto simp: mcdi_v2_hdr_def mask_simps bit_simps)+

text \<open>The halves of an event that the handler works with, as fields of the whole.\<close>

lemma link_bits:
  fixes ev :: u64
  shows "drop_bit 28 (ucast (drop_bit 32 ev) :: u32) AND 0xf = ucast (take_bit 4 (drop_bit 60 ev))"
    "drop_bit 12 (ucast (drop_bit 32 ev) :: u32) AND 0xff = ucast (take_bit 8 (drop_bit 44 ev))"
    "drop_bit 24 (ucast (ev AND 0xffffffff) :: u32) AND 0xff = ucast (take_bit 8 (drop_bit 24 ev))"
    "drop_bit 16 (ucast (ev AND 0xffffffff) :: u32) AND 0xf = ucast (take_bit 4 (drop_bit 16 ev))"
    "drop_bit 20 (ucast (ev AND 0xffffffff) :: u32) AND 0xf = ucast (take_bit 4 (drop_bit 20 ev))"
  by (rule bit_word_eqI, auto simp: mask_simps bit_simps)+

lemma narrow_inj:
  assumes "k \<le> 32"
  shows "(ucast (take_bit k (w :: u64)) :: u32) = v \<longleftrightarrow> take_bit k w = ucast v"
proof
  assume e: "(ucast (take_bit k w) :: u32) = v"
  show "take_bit k w = ucast v"
    using assms unfolding e [symmetric] by (intro bit_word_eqI) (auto simp: bit_simps)
next
  assume e: "take_bit k w = ucast v"
  show "(ucast (take_bit k w) :: u32) = v"
    unfolding e by (intro bit_word_eqI) (auto simp: bit_simps)
qed

lemma narrow_bit: "bit (ucast (w :: u64) :: u32) i \<longleftrightarrow> i < 32 \<and> bit w i"
  by (auto simp: bit_simps)

lemma control_event_fields:
  "control_event ev s =
     (if take_bit 4 (drop_bit 60 ev) = 12 \<and> take_bit 8 (drop_bit 44 ev) = 4
      then s\<lparr>link_up := bit (take_bit 8 (drop_bit 24 ev)) 0, full_duplex := bit (take_bit 8 (drop_bit 24 ev)) 1,
             link_speed_mbps := sfc7120_linkchange_speed_mbps (ucast (take_bit 4 (drop_bit 16 ev))),
             link_fcntl := ucast (take_bit 4 (drop_bit 20 ev))\<rparr>
      else s)"
proof -
  have b: "bit (ucast (take_bit 8 (drop_bit 24 ev)) :: u32) 0 = bit (take_bit 8 (drop_bit 24 ev)) 0"
    "bit (ucast (take_bit 8 (drop_bit 24 ev)) :: u32) (Suc 0) = bit (take_bit 8 (drop_bit 24 ev)) 1"
    unfolding narrow_bit by simp_all
  have c: "(ucast (take_bit 4 (drop_bit 60 ev)) = (12 :: u32)) = (take_bit 4 (drop_bit 60 ev) = 12)"
    "(ucast (take_bit 8 (drop_bit 44 ev)) = (4 :: u32)) = (take_bit 8 (drop_bit 44 ev) = 4)"
    by (subst narrow_inj; simp)+
  show ?thesis unfolding control_event_def Let_def link_bits test_bit b c by (simp only: if_if_eq_conj simp_thms split: if_split) 
qed

section \<open>Properties\<close>

text \<open>C11 Over the whole life of a device every command the MC sees is a request of the catalogue: attach on a zeroed
  softc returns, and every command it has sent has a code of the catalogue, a length the catalogue allows, only defined
  enumeration values and flags in its fields, and zero everywhere else; while the device is in service, no matter what
  user space and the hardware do, no command is sent at all; and detach returns 0 having sent only such commands.\<close>

theorem every_request_catalogued:
  assumes "mcdi_env_ok K" "fresh s" "list_all catalogued (mc_requests (io s))"
  shows "\<exists>e s1. sfc7120_fbsd_attach K s = Some (e, s1) \<and> list_all catalogued (mc_requests (io s1))
    \<and> (if e = 0
       then \<forall>s2. driver_run K s1 s2 \<longrightarrow> mc_requests (io s2) = mc_requests (io s1)
              \<and> (\<exists>s3. sfc7120_fbsd_detach K s2 = Some (0, s3) \<and> list_all catalogued (mc_requests (io s3)))
       else kres s1 = {})"
proof -
  obtain e s1 where a: "sfc7120_fbsd_attach K s = Some (e, s1)" "attach_post e s1" using attach_total [OF assms(1,2)] by blast
  have "asks (list_all catalogued) s" using assms(3) by (simp add: asks_def)
  from yieldsD [OF cat.attach_obeys [OF this] a(1)] have o1: "list_all catalogued (mc_requests (io s1))" by (simp add: asks_def)
  have "mc_requests (io s2) = mc_requests (io s1) \<and> (\<exists>s3. sfc7120_fbsd_detach K s2 = Some (0, s3) \<and> list_all catalogued (mc_requests (io s3)))"
    if "e = 0" "driver_run K s1 s2" for s2
  proof -
    from a(2) that(1) have "serving s1" "session_inv (capio_sc s1)" by (simp_all add: attach_post_def)
    from driver_run_inv [OF that(2) this] have s2: "serving s2" "session_inv (capio_sc s2)" by simp_all
    have r: "mc_requests (io s2) = mc_requests (io s1)"
      using driver_run_asks [OF that(2), of "\<lambda>r. r = mc_requests (io s1)"] by (simp add: asks_def)
    obtain s3 where d: "sfc7120_fbsd_detach K s2 = Some (0, s3)" using detach_total [OF s2, of K] by blast
    have "asks (list_all catalogued) s2" using o1 r by (simp add: asks_def)
    from yieldsD [OF cat.detach_obeys [OF this] d] r d show ?thesis by (auto simp: asks_def)
  qed
  then show ?thesis using a o1 by (auto simp: attach_post_def idle_def)
qed

theorem every_request_catalogued_witness:
  "\<exists>e s1. sfc7120_fbsd_attach quiet_env zero_softc = Some (e, s1) \<and> list_all catalogued (mc_requests (io s1))
    \<and> (if e = 0
       then \<forall>s2. driver_run quiet_env s1 s2 \<longrightarrow> mc_requests (io s2) = mc_requests (io s1)
              \<and> (\<exists>s3. sfc7120_fbsd_detach quiet_env s2 = Some (0, s3) \<and> list_all catalogued (mc_requests (io s3)))
       else kres s1 = {})"
  by (rule every_request_catalogued [OF quiet_mcdi_env zero_fresh]) (simp add: zero_softc_fields)



text \<open>C18 The responses are read at the places the catalogue names: firmware version, function flags, base MAC
  address, VI count and base, PHY capabilities and media type, link state, and the handle of a new filter; and a response
  too short for the fields read is refused with \<open>EPROTO\<close>, leaving the softc as the exchange left it, except that a
  short attach response has already cleared the function flags.\<close>

theorem responses_read_by_name:
  "sfc7120_mcdi_get_version K s = do {
     (rc, resp, used, s) \<leftarrow> sfc7120_mcdi_exec K MC_CMD_GET_VERSION [] (zeros (mc_lenmin MC_CMD_GET_VERSION_OUT)) 0 s;
     if rc \<noteq> 0 then Some (rc, s)
     else if used < mc_lenmin MC_CMD_GET_VERSION_OUT then Some (EPROTO, s)
     else Some (0, s\<lparr>fw_version := (word_at MC_CMD_GET_VERSION_OUT ''VERSION'' resp, hi_at MC_CMD_GET_VERSION_OUT ''VERSION'' resp)\<rparr>) }
   \<and> sfc7120_mcdi_drv_attach K s = do {
     (rc, resp, used, s) \<leftarrow> sfc7120_mcdi_exec K MC_CMD_DRV_ATTACH (drv_attach_in 1) (zeros (mc_lenmin MC_CMD_DRV_ATTACH_EXT_OUT)) 0 s;
     if rc \<noteq> 0 then Some (rc, s)
     else if used \<ge> mc_lenmin MC_CMD_DRV_ATTACH_EXT_OUT
       then Some (0, s\<lparr>mcdi_func_flags := word_at MC_CMD_DRV_ATTACH_EXT_OUT ''FUNC_FLAGS'' resp, drv_attached := True\<rparr>)
     else if used < mc_lenmin MC_CMD_DRV_ATTACH_OUT then Some (EPROTO, s\<lparr>mcdi_func_flags := 0\<rparr>)
     else Some (0, s\<lparr>mcdi_func_flags := 0, drv_attached := True\<rparr>) }
   \<and> sfc7120_mcdi_get_mac K s = do {
     (rc, resp, used, s) \<leftarrow> sfc7120_mcdi_exec K MC_CMD_GET_MAC_ADDRESSES [] (zeros (mc_lenmin MC_CMD_GET_MAC_ADDRESSES_OUT)) 0 s;
     if rc \<noteq> 0 then Some (rc, s)
     else if used < end_of MC_CMD_GET_MAC_ADDRESSES_OUT ''MAC_ADDR_BASE'' then Some (EPROTO, s)
     else Some (0, s\<lparr>mac_addr := octets_at MC_CMD_GET_MAC_ADDRESSES_OUT ''MAC_ADDR_BASE'' resp\<rparr>) }
   \<and> sfc7120_mcdi_alloc_vis K lo hi s = do {
     (rc, resp, used, s) \<leftarrow> sfc7120_mcdi_exec K MC_CMD_ALLOC_VIS (put32 4 hi (put32 0 lo (zeros 8))) (zeros (mc_lenmin MC_CMD_ALLOC_VIS_OUT)) 0 s;
     if rc \<noteq> 0 then Some (rc, s)
     else if used < mc_lenmin MC_CMD_ALLOC_VIS_OUT then Some (EPROTO, s)
     else Some (0, s\<lparr>vi_count := word_at MC_CMD_ALLOC_VIS_OUT ''VI_COUNT'' resp, vi_base := word_at MC_CMD_ALLOC_VIS_OUT ''VI_BASE'' resp,
                     vis_allocated := True\<rparr>) }
   \<and> sfc7120_mcdi_get_phy_cfg K s = do {
     (rc, resp, used, s) \<leftarrow> sfc7120_mcdi_exec K MC_CMD_GET_PHY_CFG [] (zeros (mc_lenmin MC_CMD_GET_PHY_CFG_OUT)) 0 s;
     if rc \<noteq> 0 then Some (rc, s)
     else if used < end_of MC_CMD_GET_PHY_CFG_OUT ''MEDIA_TYPE'' then Some (EPROTO, s)
     else Some (0, s\<lparr>phy_supported_cap_mask := fec_quirk (word_at MC_CMD_GET_PHY_CFG_OUT ''SUPPORTED_CAP'' resp),
                     phy_media_type := word_at MC_CMD_GET_PHY_CFG_OUT ''MEDIA_TYPE'' resp\<rparr>) }
   \<and> sfc7120_mcdi_get_link K s = do {
     (rc, resp, used, s) \<leftarrow> sfc7120_mcdi_exec K MC_CMD_GET_LINK [] (zeros 44) 0 s;
     if rc \<noteq> 0 then Some (rc, s)
     else if used < mc_lenmin MC_CMD_GET_LINK_OUT then Some (EPROTO, s)
     else Some (0, s\<lparr>link_up := flag_at MC_CMD_GET_LINK_OUT ''FLAGS'' ''LINK_UP'' resp,
                     full_duplex := flag_at MC_CMD_GET_LINK_OUT ''FLAGS'' ''FULL_DUPLEX'' resp,
                     link_speed_mbps := word_at MC_CMD_GET_LINK_OUT ''LINK_SPEED'' resp,
                     link_fcntl := word_at MC_CMD_GET_LINK_OUT ''FCNTL'' resp\<rparr>) }
   \<and> sfc7120_mcdi_filter_insert K s =
     (if rx_filter_inserted s then Some (0, s)
      else do {
        (rc, resp, used, s) \<leftarrow> sfc7120_mcdi_exec K MC_CMD_FILTER_OP (filter_insert_in (mac_addr s)) (zeros (mc_lenmin MC_CMD_FILTER_OP_OUT)) 0 s;
        if rc \<noteq> 0 then Some (rc, s)
        else if used < mc_lenmin MC_CMD_FILTER_OP_OUT then Some (EPROTO, s)
        else if word_at MC_CMD_FILTER_OP_OUT ''HANDLE'' resp = 0xffffffff \<and> hi_at MC_CMD_FILTER_OP_OUT ''HANDLE'' resp = 0xffffffff then Some (EIO, s)
        else Some (0, s\<lparr>rx_filter_handle :=
                            push_bit 32 (ucast (hi_at MC_CMD_FILTER_OP_OUT ''HANDLE'' resp)) OR ucast (word_at MC_CMD_FILTER_OP_OUT ''HANDLE'' resp),
                        rx_filter_inserted := True\<rparr>) })"
proof (intro conjI, goal_cases)
  case 1
  show ?case by (simp add: sfc7120_mcdi_get_version_def MC_CMD_GET_VERSION_OUT_def at_simps cong: if_cong)
next
  case 2
  show ?case by (simp add: sfc7120_mcdi_drv_attach_def MC_CMD_DRV_ATTACH_OUT_def MC_CMD_DRV_ATTACH_EXT_OUT_def at_simps Let_def cong: if_cong)
next
  case 3
  show ?case by (simp add: sfc7120_mcdi_get_mac_def MC_CMD_GET_MAC_ADDRESSES_OUT_def at_simps cong: if_cong)
next
  case 4
  show ?case by (simp add: sfc7120_mcdi_alloc_vis_def MC_CMD_ALLOC_VIS_OUT_def at_simps cong: if_cong)
next
  case 5
  show ?case by (simp add: sfc7120_mcdi_get_phy_cfg_def MC_CMD_GET_PHY_CFG_OUT_def at_simps cong: if_cong)
next
  case 6
  show ?case by (simp add: sfc7120_mcdi_get_link_def MC_CMD_GET_LINK_OUT_def at_simps Let_def test_bit cong: if_cong)
next
  case 7
  show ?case by (simp add: sfc7120_mcdi_filter_insert_def MC_CMD_FILTER_OP_OUT_def at_simps Let_def cong: if_cong)
qed

text \<open>C30 The two header words, field by field: command code, length, sequence number and epoch flag where the catalogue
  has them, an encapsulated command addressed to the MC.  The resync bit, which the catalogue's description of the header
  calls always set, is never set.\<close>

theorem header_words_by_name:
  "bits_of MCDI_HEADER (mcdi_v1_hdr cmd len seq new_epoch) =
     [(''CODE'', take_bit 7 cmd), (''RESYNC'', 0), (''DATALEN'', take_bit 8 (of_nat len)), (''SEQ'', take_bit 4 (ucast seq)), (''RSVD'', 0),
      (''NOT_EPOCH'', if new_epoch then 0 else 1), (''ERROR'', 0), (''RESPONSE'', 0), (''XFLAGS'', 0)]
   \<and> bits_of MC_CMD_V2_EXTN_IN (mcdi_v2_hdr cmd len) =
     [(''EXTENDED_CMD'', take_bit 15 cmd), (''UNUSED'', 0), (''ACTUAL_LEN'', take_bit 10 (of_nat len)), (''UNUSED2'', 0),
      (''MESSAGE_TYPE'', the (map_of MCDI_MESSAGE_TYPE ''MC''))]"
  by (simp add: bits_of_def MCDI_HEADER_def MC_CMD_V2_EXTN_IN_def MCDI_MESSAGE_TYPE_def flag_field v1_hdr_bits v1_hdr_flags v1_flags v2_hdr_bits)

text \<open>C29 An event changes the link state exactly when it is an MC event with the code of a link change, and then up,
  duplex, speed and flow control are the named fields of its payload; the speeds the catalogue lists are the ones their
  names say, in Mbit/s.\<close>

theorem link_events_by_name:
  "control_event ev s =
     (if bits_at MCDI_EVENT ''EV_CODE'' ev = 0xc \<and> bits_at MCDI_EVENT ''CODE'' ev = ucast (the (map_of MCDI_EVENT_CODE ''LINKCHANGE''))
      then s\<lparr>link_up := bit (bits_at MCDI_EVENT_LINKCHANGE ''LINK_FLAGS'' ev) 0,
             full_duplex := bit (bits_at MCDI_EVENT_LINKCHANGE ''LINK_FLAGS'' ev) 1,
             link_speed_mbps := sfc7120_linkchange_speed_mbps (ucast (bits_at MCDI_EVENT_LINKCHANGE ''SPEED'' ev)),
             link_fcntl := ucast (bits_at MCDI_EVENT_LINKCHANGE ''FCNTL'' ev)\<rparr>
      else s)
   \<and> map (\<lambda>(n, c). (n, sfc7120_linkchange_speed_mbps c)) MCDI_EVENT_LINKCHANGE_SPEED =
     [(''UNKNOWN'', 0), (''100M'', 100), (''1G'', 1000), (''10G'', 10000), (''40G'', 40000), (''25G'', 25000), (''50G'', 50000),
      (''100G'', 100000)]" (is "?A \<and> ?B")
proof
  have f: "bits_at MCDI_EVENT ''EV_CODE'' ev = take_bit 4 (drop_bit 60 ev)" "bits_at MCDI_EVENT ''CODE'' ev = take_bit 8 (drop_bit 44 ev)"
    "bits_at MCDI_EVENT_LINKCHANGE ''LINK_FLAGS'' ev = take_bit 8 (drop_bit 24 ev)"
    "bits_at MCDI_EVENT_LINKCHANGE ''SPEED'' ev = take_bit 4 (drop_bit 16 ev)"
    "bits_at MCDI_EVENT_LINKCHANGE ''FCNTL'' ev = take_bit 4 (drop_bit 20 ev)" "ucast (the (map_of MCDI_EVENT_CODE ''LINKCHANGE'')) = (4 :: u64)"
    by (simp_all add: bits_at_def MCDI_EVENT_def MCDI_EVENT_LINKCHANGE_def MCDI_EVENT_CODE_def)
  show "?A" unfolding f by (rule control_event_fields)
  show "?B" by (simp add: MCDI_EVENT_LINKCHANGE_SPEED_def sfc7120_linkchange_speed_mbps_def)
qed

text \<open>Errors the MC reports stay errors: no code but 0 is translated to success, the codes of the catalogue listed here
  keep their meaning, and every other code of the catalogue becomes \<open>EIO\<close>.\<close>

theorem error_codes_by_name:
  "(sfc7120_mcdi_xlate_err c = 0 \<longleftrightarrow> c = 0)
   \<and> map (\<lambda>(n, c). (n, sfc7120_mcdi_xlate_err c)) (filter (\<lambda>(n, c). sfc7120_mcdi_xlate_err c \<noteq> EIO) MC_CMD_ERR) =
     [(''EPERM'', EPERM), (''ENOENT'', ENOENT), (''EINTR'', EINTR), (''EAGAIN'', EAGAIN), (''ENOMEM'', ENOMEM), (''EACCES'', EACCES),
      (''EBUSY'', EBUSY), (''EINVAL'', EINVAL), (''ENOSYS'', ENOSYS), (''ETIME'', ETIMEDOUT), (''ENOTSUP'', EOPNOTSUPP)]"
  by (simp add: sfc7120_mcdi_xlate_err_def MC_CMD_ERR_def)

text \<open>Nothing user space can do, and nothing the hardware can do, makes the driver send a command to the MC once the
  device is in service: every system call, mapping, unmapping, interrupt, poll, open and close, in any order, leaves the
  commands the MC has seen as they were.\<close>

theorem service_sends_no_command:
  assumes "driver_run K s t"
  shows "mc_requests (io t) = mc_requests (io s)"
  using driver_run_asks [OF assms, of "\<lambda>r. r = mc_requests (io s)"] by (simp add: asks_def)

end
