(* ===== verification/Spec2Isabelle.thy ===== *)
theory Spec2Isabelle
  imports Smoke Sfxge_Log Conformance
begin

text \<open>
  \<^bold>\<open>The CAPIO kernel driver of the Solarflare 7120, its userspace library and programs\<close>

  \<^bold>\<open>The program.\<close>  A CheriBSD driver that gives one process at a time direct, capability-bounded access
  to the queues of a Solarflare EF10 network card.  Its parts, and the theory that models each:

    \<^item> the CAPIO framework (\<open>capio.c\<close>, \<open>capio.h\<close>): a session is opened with \<open>CAPIO_ATTACH\<close>, which seals the
      caller's capability into a token; every later \<open>ioctl\<close> and \<open>mmap\<close> must show it; \<open>CAPIO_GOODBYE\<close> revokes it and
      the mappings.  Theory \<open>Capio\<close>, on top of a model of Morello capabilities (\<open>Cheri\<close>).
    \<^item> the register map and the slices of it that userspace may map (\<open>sfc7120_mmio.h\<close>, \<open>sfc7120_mmio.c\<close>,
      \<open>sfc7120_tables.c\<close>, \<open>sfc7120_uapi.h\<close>): theory \<open>Mmio\<close>, with the index arithmetic of the rings.
    \<^item> the driver's state (\<open>sfc7120.h\<close>): the record \<open>sfc7120_softc\<close> of theory \<open>Softc\<close>, an extension of the
      framework's header as in the C, with its three locks.
    \<^item> DMA memory (\<open>sfc7120_alloc_dmabuf\<close>, \<open>sfc7120_alloc_dma_resources\<close> and their inverses): theory \<open>Dma\<close>.
    \<^item> the MCDI transport to the card's management controller, the MC (first half of \<open>sfc7120_mcdi.c\<close>: mailbox, framing,
      doorbell, poll, response): theory \<open>Mcdi\<close>; the commands built on it (second half): \<open>Mcdi_Cmds\<close>, and what each of
      them does to the firmware objects the driver tracks: \<open>Firmware\<close>.
    \<^item> the data path and the other cdev entry points (\<open>sfc7120_ioctl\<close>, \<open>sfc7120_post_rx_buffers\<close>, \<open>sfc7120_open\<close>,
      \<open>sfc7120_close\<close>, \<open>sfc7120_poll\<close> of \<open>sfc7120.c\<close>): theory \<open>Datapath\<close>.
    \<^item> interrupts (\<open>sfc7120_interrupt_handler\<close>, \<open>sfc7120_intr_setup\<close>, \<open>sfc7120_intr_teardown\<close>): theory \<open>Intr\<close>.
    \<^item> probe, hardware bring-up, attach, detach: theory \<open>Lifecycle\<close>; the driver as a system of steps: \<open>Driver\<close>.
    \<^item> the client library (\<open>userlib/sfc7120_user.c\<close>): theory \<open>Userlib\<close>, running against the driver's model both through
      system calls and through the memory and registers it has mapped.
    \<^item> the benchmark (\<open>userlib/bench.c\<close>), one process on both ports of a card: the program is theory \<open>Bench\<close>, the state of
      its two ports \<open>Bench_Rig\<close>, its loops \<open>Bench_Run\<close>, and what it reports \<open>Bench_Results\<close>.
    \<^item> the test program (\<open>userlib/test.c\<close>) with its security test: theory \<open>Smoke\<close>.
    \<^item> the transport of FreeBSD's \<open>sfxge\<close> driver, kept as \<open>ref_sfxge_mcdi.c\<close> as the model the MCDI transport was written after: theory
      \<open>Sfxge\<close>, with the comparison of the two poll loops, and its message log \<open>Sfxge_Log\<close>.
    \<^item> the MC command catalogue (\<open>ref_efx_regs_mcdi.h\<close>), the description of the protocol that \<open>sfc7120_mcdi.c\<close> takes its numbers
      from: the header words, error codes, link events and the messages the driver uses are data in theory \<open>Catalogue\<close>, with
      a reference encoder.  \<open>Requests\<close> follows the commands the MC has seen through every operation of the driver, and
      \<open>Conformance\<close> compares what the driver sends and reads with the catalogue.

  \<open>Prelude\<close> holds the little-endian byte lemmas, the error numbers, mutexes and the locale of ring indices.

  \<^bold>\<open>How the code is modelled.\<close>  A function of the C that takes the softc is a function from softc to an optional result
  with the new softc; \<open>None\<close> is a panic or a capability fault: a failed \<open>KASSERT\<close>, a lock taken twice or released
  when not held, a resource given back that is not held, an access through NULL or past the end of an allocation.  A
  theorem that a function returns \<open>Some\<close> therefore excludes all of these.  Every \<open>goto\<close> label is a definition of its own.
  Kernel services, the device and the firmware are one parameter \<open>K\<close> of type \<open>env\<close> (theory \<open>Kernel\<close>): each service is a
  function of the whole history of interactions, so a theorem for every \<open>K\<close> holds for every behaviour of the outside, the
  NIC and the MC included.  What is assumed of it are the named hypotheses \<open>bus_dma_ok\<close> and \<open>mailbox_aligned\<close> (together
  \<open>mcdi_env_ok\<close>), both documented behaviour of busdma.  The softc carries that history (\<open>io\<close>) and the set of kernel
  resources held (\<open>kres\<close>); \<open>reg_writes\<close> and \<open>mc_requests\<close> read the register writes and the parsed MC commands off the
  history.  Of libc and the modmap device the library's theorems assume \<open>sys_ok\<close>: mapping and unmapping run the framework's
  callbacks and pager and nothing else; where a client must have the real register slices, \<open>sys_slices_ok\<close>, and where it must
  come up, \<open>sys_works\<close>.  The programs' theorems assume \<open>nic_fits\<close>, that the NIC writes no more into a receive buffer than it was
  given, without which a frame overruns the reader's buffer, and of the clock \<open>clock_ticks\<close>, that it moves on.  The common code
  under the \<open>sfxge\<close> transport is a record of functions.  Machine integers are words; ring indices, which the code keeps within their ring,
  are naturals with that bound as an invariant.  Handlers run one after the other: they hold the softc lock over their
  critical sections, and interleavings within a handler are not modelled.

  \<^bold>\<open>Interfaces.\<close>  \<open>ring\<close> (Prelude) is the contract of a ring's successor function; \<open>sealing\<close> (Cheri) is what the token check needs
  of capability sealing; \<open>capio_driver\<close> (Capio) is what the
  framework needs of a driver, proved of the data path's invariant \<open>dp_ok\<close> in \<open>Datapath\<close> and of \<open>serving\<close> in \<open>Driver\<close>;
  \<open>bringup_stage\<close> (Dma) is a stage of attach that takes all of its resources or none, interpreted for DMA memory, the
  transport and the interrupt; \<open>mcdi_command\<close>, \<open>fw_command\<close> and \<open>teardown_command\<close> are the contracts of MC commands,
  interpreted for every command wrapper.  \<open>latency_path\<close> and its extension \<open>session_path\<close> (Bench_Run) are what the benchmark
  needs of a \<open>bench_path_t\<close>, interpreted for the direct and for the system-call path; \<open>efx_common\<close> (Sfxge) is what the \<open>sfxge\<close>
  transport needs of its common code, interpreted for the driver's own poll.  \<open>mc_layout\<close> (Catalogue) is what the encoder needs of the
  layout of a message, interpreted for every request with a payload; \<open>request_policy\<close> (Requests) is a property of single requests that
  all requests of the driver have, interpreted for being a request of the catalogue.

  \<^bold>\<open>What is shown.\<close>
    \<^item> Framework: the token of a session is the only key to it; attach is exclusive; goodbye ends the session; the region
      table and its mapped flags stay exact (\<open>Capio\<close>).  Userspace reaches six registers and no others (\<open>Mmio\<close>).
    \<^item> Transport: an exchange returns within a bounded delay whatever the MC does; requests parse back to what was sent;
      responses are what \<open>mcdi_reply\<close> says (\<open>Mcdi\<close>).
    \<^item> Data path: what a transmit and a receive do to rings, buffers, doorbells and indices, on every branch; hand-over of the
      indices; the interrupt handler refines handling the pending events in order (\<open>Datapath\<close>, \<open>Intr\<close>).
    \<^item> Lifecycle: each stage and attach as a whole are all or nothing; teardown sends its commands in order; the invariant
      \<open>serving\<close> holds after attach and after every sequence of steps (\<open>driver_run\<close>, rule induction); detach gives
      everything back (\<open>Lifecycle\<close>, \<open>Driver\<close>, and \<open>whole_life\<close> below, which composes them).
    \<^item> Library: the direct transmit path has the same effect as the kernel's; polling refines a FIFO; coming up and leaving keep
      the driver in service and hand the indices from client to client; nothing but the system keeps a client out (\<open>Userlib\<close>).
    \<^item> Benchmark: it ends and leaves both devices as it found them, whatever the NICs do; every frame of a throughput run is accounted for;
      PF1 echoes a frame with its addresses exchanged; the statistics are what their columns say (\<open>Bench_Results\<close>).
    \<^item> Test program: every run ends; the three accesses of the security test fault (\<open>Smoke\<close>).
    \<^item> Reference: the driver's wait for the MC and the one of \<open>sfxge\<close> poll, delay and give up alike (\<open>Sfxge\<close>).
      The message log stays in its buffer and prints every word (\<open>Sfxge_Log\<close>).
    \<^item> Catalogue: from attach to detach the MC sees only well-formed requests of the catalogue, and none while the device is in service;
      the hand-written requests are the encodings of the named fields and flags meant; responses, header words and link events are
      read and written at the places the catalogue names (\<open>Conformance\<close>).
    \<^item> Defects: a receive can copy past its buffer, short MC errors read as success, v2 requests of 249 to 252 bytes overrun
      the mailbox, an untagged session is forgeable, goodbye masks errors, \<open>wait_rx\<close> loses frames that arrive together, the windows
      of a throughput run pile up, the consumer of the test program hides failures; each is a theorem of the theory it concerns.

  \<^bold>\<open>Bounds.\<close>  All loops terminate and their bounds are the code's: 10000 tries of a transmit, 100000 of a receive, 512 events
  per interrupt, 30 link polls, 5000 waits for the MC to reboot.  The MCDI wait is a \<open>partial_function\<close> whose termination
  is proved (at most 10.1 seconds of delay).  So are \<open>wait_rx\<close> and the measuring loops of the benchmark, which end by the clock, and the
  reference's poll loop.  The test program polls at most 2000000000 times.  No artificial fuel is used.

  \<^bold>\<open>Not modelled.\<close>  Console output and the diagnostic counters that feed it; bus handles, \<open>selinfo\<close> queues and softc fields
  no function reads; concurrent execution of handlers; the contents of VM objects (the pager's fault handler is modelled as
  the page it installs); the rates the benchmark computes in floating point, and the cable between the ports, whose two NICs are
  arbitrary; the messages of \<open>ref_efx_regs_mcdi.h\<close>, a vendored catalogue that no file includes, that the driver neither sends nor
  reads; scripts and build files.
\<close>

section \<open>The whole life of a device\<close>

text \<open>C1 The whole life of a device instance: on a zeroed softc attach returns; if it fails nothing is held, and if it
  succeeds then after any sequence of driver steps whatsoever detach returns 0, the device holds no kernel resource any
  more, and the last commands the MC has seen are the teardown of everything that was set up.\<close>

theorem whole_life:
  assumes "mcdi_env_ok K" "fresh s"
  shows "\<exists>e s1. sfc7120_fbsd_attach K s = Some (e, s1)
    \<and> (if e = 0
       then \<forall>s2. driver_run K s1 s2 \<longrightarrow> (\<exists>s3. sfc7120_fbsd_detach K s2 = Some (0, s3) \<and> dev_res (kres s3) = {}
              \<and> mc_requests (io s3) = mc_requests (io s2) @ teardown_requests s2)
       else kres s1 = {})"
proof -
  obtain e s1 where a: "sfc7120_fbsd_attach K s = Some (e, s1)" "attach_post e s1" using attach_total [OF assms] by blast
  have "\<exists>s3. sfc7120_fbsd_detach K s2 = Some (0, s3) \<and> dev_res (kres s3) = {}
      \<and> mc_requests (io s3) = mc_requests (io s2) @ teardown_requests s2" if "e = 0" "driver_run K s1 s2" for s2
  proof -
    from a(2) that(1) have "serving s1" "session_inv (capio_sc s1)" by (simp_all add: attach_post_def)
    from driver_run_inv [OF that(2) this] have "serving s2" "session_inv (capio_sc s2)" by simp_all
    from detach_total [OF this, of K] show ?thesis by (auto simp: detached_def session_part_def dev_res_def)
  qed
  then show ?thesis using a by (auto simp: attach_post_def idle_def)
qed

theorem whole_life_witness:
  "\<exists>e s1. sfc7120_fbsd_attach quiet_env zero_softc = Some (e, s1)
    \<and> (if e = 0
       then \<forall>s2. driver_run quiet_env s1 s2 \<longrightarrow> (\<exists>s3. sfc7120_fbsd_detach quiet_env s2 = Some (0, s3) \<and> dev_res (kres s3) = {}
              \<and> mc_requests (io s3) = mc_requests (io s2) @ teardown_requests s2)
       else kres s1 = {})"
  by (rule whole_life [OF quiet_mcdi_env zero_fresh])

end
